theory Spec2Isabelle
  imports Main "HOL-Library.Word"
begin

unbundle bit_operations_syntax

section \<open>The PGM source transport (pgm/source.c)\<close>

text \<open>
  A shallow embedding of the sender side of OpenPGM: the configuration setters, the NAK
  intake with its NCF replies, the repair consumer, the heartbeat reset and the three
  ODATA send paths. Each definition carries the name of the C function it follows.
  Pointers become \<open>option\<close> (\<open>None\<close> is \<open>NULL\<close>), C arrays passed with
  their length become lists, \<open>guint8\<close>, \<open>guint16\<close>, \<open>guint32\<close> and \<open>guint64\<close>
  become words, and byte counts held in \<open>gsize\<close> become \<open>nat\<close>.
\<close>

subsection \<open>Machine types, errors and outcomes\<close>

type_synonym guint8 = "8 word"
type_synonym guint16 = "16 word"
type_synonym guint32 = "32 word"
type_synonym guint64 = "64 word"

text \<open>
  The error returns of the C functions: \<open>-EINVAL\<close>, \<open>-EMSGSIZE\<close>, \<open>-1\<close> with
  \<open>errno = ECONNRESET\<close>, \<open>-1\<close> with \<open>errno = EAGAIN\<close>, and the \<open>-1\<close> that
  \<open>pgm_rate_check\<close> hands back.
\<close>

datatype pgm_error = InvalidArgument | MessageSize | ConnectionReset | WouldBlock | RateLimited

text \<open>
  What ends a C call other than a \<open>return\<close>: a failed \<open>g_assert\<close>, a dereferenced
  \<open>NULL\<close>, an access outside an array or a packet, a read of allocated memory that was
  never written, an integer division by zero, and a loop that never leaves.
\<close>

datatype crash =
  AssertionFailed | NullDereference | OutOfBounds | UninitialisedRead | DivisionByZero | Diverges

datatype 'a outcome = is_Done: Done (result: 'a) | Crash crash

definition UINT32_MAX :: guint32 where
  "UINT32_MAX = 4294967295"

subsection \<open>Wire constants\<close>

definition PGM_ODATA :: guint8 where "PGM_ODATA = 0x04"
definition PGM_RDATA :: guint8 where "PGM_RDATA = 0x05"
definition PGM_NCF :: guint8 where "PGM_NCF = 0x0A"

definition PGM_OPT_PRESENT :: guint8 where "PGM_OPT_PRESENT = 0x01"
definition PGM_OPT_NETWORK :: guint8 where "PGM_OPT_NETWORK = 0x02"
definition PGM_OPT_VAR_PKTLEN :: guint8 where "PGM_OPT_VAR_PKTLEN = 0x40"
definition PGM_OPT_PARITY :: guint8 where "PGM_OPT_PARITY = 0x80"

definition PGM_OPT_LENGTH :: guint8 where "PGM_OPT_LENGTH = 0x00"
definition PGM_OPT_FRAGMENT :: guint8 where "PGM_OPT_FRAGMENT = 0x01"
definition PGM_OPT_NAK_LIST :: guint8 where "PGM_OPT_NAK_LIST = 0x02"
definition PGM_OPT_END :: guint8 where "PGM_OPT_END = 0x80"

text \<open>
  \<open>PGM_OPT_MASK\<close> is declared in pgm/packet.h, which is not among the sources: it
  selects the option type, the seven bits below \<open>PGM_OPT_END\<close>.
\<close>

definition PGM_OPT_MASK :: guint8 where "PGM_OPT_MASK = 0x7f"

text \<open>
  The sizes of the packed wire structures of pgm/packet.h. The source itself gives
  \<open>sizeof(struct pgm_opt_header)\<close> ("skip three bytes of header"); the others follow the
  PGM packet layout.
\<close>

definition sizeof_pgm_header :: nat where "sizeof_pgm_header = 16"
definition sizeof_pgm_data :: nat where "sizeof_pgm_data = 8"
definition sizeof_pgm_opt_length :: nat where "sizeof_pgm_opt_length = 4"
definition sizeof_pgm_opt_header :: nat where "sizeof_pgm_opt_header = 3"
definition sizeof_pgm_opt_fragment :: nat where "sizeof_pgm_opt_fragment = 13"

subsection \<open>Packets and buffers\<close>

datatype sockaddr = Sockaddr_in guint32 | Sockaddr_in6 "128 word"

record opt_fragment =
  opt_sqn :: guint32
  opt_frag_off :: guint32
  opt_frag_len :: guint32

text \<open>
  A packet buffer holding an ODATA or RDATA packet. Of \<open>struct pgm_sk_buff_t\<close> and the
  packet it holds, the record keeps the length from \<open>data\<close> to \<open>tail\<close>, the
  sequence number, the zero-padding flag, the header fields the send and repair paths
  write, the \<open>OPT_FRAGMENT\<close> option when the packet has one, and the payload. The GSI,
  the ports, the time stamp and the checksums are left out.
\<close>

record pgm_sk_buff =
  skb_len :: nat
  skb_sequence :: guint32
  skb_zero_padded :: bool
  pgm_type :: guint8
  pgm_options :: guint8
  pgm_tsdu_length :: guint16
  data_sqn :: guint32
  data_trail :: guint32
  pgm_opt_fragment :: "opt_fragment option"
  skb_tsdu :: "guint8 list"

text \<open>An NCF as \<open>send_ncf\<close> and \<open>send_ncf_list\<close> build it.\<close>

record pgm_ncf =
  ncf_type :: guint8
  ncf_options :: guint8
  ncf_tsdu_length :: guint16
  ncf_sqn :: guint32
  ncf_src_nla :: sockaddr
  ncf_grp_nla :: sockaddr
  ncf_opt_nak_list :: "guint32 list"

datatype pgm_packet = Data_packet pgm_sk_buff | Ncf_packet pgm_ncf

text \<open>
  One call of \<open>pgm_sendto\<close>: the packet offered to the socket, its length, the
  \<open>use_rate_limit\<close> and \<open>use_router_alert\<close> arguments.
\<close>

record sendto_call =
  sent_packet :: pgm_packet
  sent_len :: nat
  use_rate_limit :: bool
  use_router_alert :: bool

text \<open>
  What a \<open>sendto\<close> answers: the number of bytes written, \<open>-1\<close> with
  \<open>errno = EAGAIN\<close>, or \<open>-1\<close> with another \<open>errno\<close>.
\<close>

datatype sendto_result = Sent nat | Send_EAGAIN | Send_failed

subsection \<open>The transmit window\<close>

record retransmit_entry =
  rq_sqn :: guint32
  rq_is_parity :: bool
  rq_rs_h :: guint32

record pgm_txw =
  txw_capacity :: nat
  txw_trail :: guint32
  txw_lead :: guint32
  txw_pkts :: "pgm_sk_buff list"
  txw_retransmit_queue :: "retransmit_entry list"

subsection \<open>The transport\<close>

datatype pgm_pc =
    PGM_PC_SOURCE_BYTES_SENT
  | PGM_PC_SOURCE_DATA_BYTES_SENT
  | PGM_PC_SOURCE_DATA_MSGS_SENT
  | PGM_PC_SOURCE_SELECTIVE_BYTES_RETRANSMITTED
  | PGM_PC_SOURCE_SELECTIVE_MSGS_RETRANSMITTED
  | PGM_PC_SOURCE_SELECTIVE_NAKS_RECEIVED
  | PGM_PC_SOURCE_PARITY_NAKS_RECEIVED
  | PGM_PC_SOURCE_MALFORMED_NAKS
  | PGM_PC_SOURCE_PACKETS_DISCARDED
  | PGM_PC_SOURCE_SELECTIVE_NNAK_PACKETS_RECEIVED
  | PGM_PC_SOURCE_SELECTIVE_NNAKS_RECEIVED
  | PGM_PC_SOURCE_NNAK_ERRORS

text \<open>
  The resume state of a send that blocked in the middle of an APDU, the fields the
  \<open>STATE(x)\<close> macro reaches (\<open>unfolded_odata\<close>, a checksum, is left out).
  \<open>STATE(skb)\<close> points to the buffer that is also in the window; the send paths
  write nothing but its checksum slot after the insert, so the record keeps a copy.
\<close>

record pkt_dontwait_state =
  st_skb :: "pgm_sk_buff option"
  st_tsdu_length :: nat
  st_apdu_length :: nat
  st_data_bytes_offset :: nat
  st_first_sqn :: guint32
  st_vector_index :: nat
  st_vector_offset :: nat
  st_data_pkt_offset :: nat
  st_is_rate_limited :: bool

text \<open>
  A notification channel (\<open>pgm_notify_t\<close>): the wake-ups written and not yet read, and
  whether a write to it fails.
\<close>

record pgm_notify =
  pending :: nat
  broken :: bool

text \<open>
  The transport. \<open>spm_heartbeat_interval\<close> is a pointer to a \<open>g_malloc\<close>ed array:
  \<open>None\<close> is \<open>NULL\<close>, and a cell that was never written is \<open>None\<close>. The last two
  fields are the world outside: the results the next calls of \<open>sendto\<close> will give
  (full success once the list is used up), and the log of the calls made.
\<close>

record pgm_transport =
  is_bound :: bool
  is_open :: bool
  spm_heartbeat_interval :: "guint32 option list option"
  spm_heartbeat_state :: nat
  next_heartbeat_spm :: guint64
  next_poll :: guint64
  txw_sqns :: guint32
  use_ondemand_parity :: bool
  use_proactive_parity :: bool
  rs_n :: guint32
  rs_k :: guint32
  rs_proactive_h :: guint32
  tg_sqn_shift :: guint32
  max_tpdu :: nat
  max_tsdu :: nat
  max_tsdu_fragment :: nat
  iphdr_len :: nat
  send_addr :: sockaddr
  send_gsr_group :: sockaddr
  is_apdu_eagain :: bool
  state :: pkt_dontwait_state
  txw :: pgm_txw
  parity_buffer :: pgm_sk_buff
  cumulative_stats :: "pgm_pc \<Rightarrow> guint32"
  timer_notify :: pgm_notify
  rdata_notify :: pgm_notify
  sendto_results :: "sendto_result list"
  wire :: "sendto_call list"

subsection \<open>Collaborators outside pgm/source.c\<close>

definition stat_add :: "pgm_pc \<Rightarrow> guint32 \<Rightarrow> pgm_transport \<Rightarrow> pgm_transport" where
  "stat_add c n t = t\<lparr>cumulative_stats := (cumulative_stats t)(c := cumulative_stats t c + n)\<rparr>"

text \<open>A counter going up changes no other field of the transport.\<close>

lemma stat_add_simps [simp]:
  "is_bound (stat_add c n t) = is_bound t"
  "is_open (stat_add c n t) = is_open t"
  "spm_heartbeat_interval (stat_add c n t) = spm_heartbeat_interval t"
  "spm_heartbeat_state (stat_add c n t) = spm_heartbeat_state t"
  "next_heartbeat_spm (stat_add c n t) = next_heartbeat_spm t"
  "next_poll (stat_add c n t) = next_poll t"
  "txw_sqns (stat_add c n t) = txw_sqns t"
  "use_ondemand_parity (stat_add c n t) = use_ondemand_parity t"
  "use_proactive_parity (stat_add c n t) = use_proactive_parity t"
  "rs_n (stat_add c n t) = rs_n t"
  "rs_k (stat_add c n t) = rs_k t"
  "rs_proactive_h (stat_add c n t) = rs_proactive_h t"
  "tg_sqn_shift (stat_add c n t) = tg_sqn_shift t"
  "max_tpdu (stat_add c n t) = max_tpdu t"
  "max_tsdu (stat_add c n t) = max_tsdu t"
  "max_tsdu_fragment (stat_add c n t) = max_tsdu_fragment t"
  "iphdr_len (stat_add c n t) = iphdr_len t"
  "send_addr (stat_add c n t) = send_addr t"
  "send_gsr_group (stat_add c n t) = send_gsr_group t"
  "is_apdu_eagain (stat_add c n t) = is_apdu_eagain t"
  "state (stat_add c n t) = state t"
  "txw (stat_add c n t) = txw t"
  "parity_buffer (stat_add c n t) = parity_buffer t"
  "timer_notify (stat_add c n t) = timer_notify t"
  "rdata_notify (stat_add c n t) = rdata_notify t"
  "sendto_results (stat_add c n t) = sendto_results t"
  "wire (stat_add c n t) = wire t"
  "cumulative_stats (stat_add c n t) c' =
     (if c' = c then cumulative_stats t c + n else cumulative_stats t c')"
  by (simp_all add: stat_add_def)

text \<open>
  Modelled from the spec: \<open>pgm_sendto\<close> of pgm/net.c, "returns bytes written or
  -1/EAGAIN". The call is logged, and its result is the next one the world has ready;
  with none ready the whole packet is written.
\<close>

definition pgm_sendto ::
  "pgm_transport \<Rightarrow> bool \<Rightarrow> bool \<Rightarrow> pgm_packet \<Rightarrow> nat \<Rightarrow> sendto_result \<times> pgm_transport" where
  "pgm_sendto t rate_limited router_alert pkt len =
     (let call = \<lparr>sent_packet = pkt, sent_len = len, use_rate_limit = rate_limited,
                  use_router_alert = router_alert\<rparr>
      in case sendto_results t of
           [] \<Rightarrow> (Sent len, t\<lparr>wire := wire t @ [call]\<rparr>)
         | r # rs \<Rightarrow> (r, t\<lparr>sendto_results := rs, wire := wire t @ [call]\<rparr>))"

text \<open>
  Modelled from the spec: \<open>pgm_notify_send\<close> of pgm/notify.h, a non-blocking write
  of one wake-up that reports whether it was written.
\<close>

definition pgm_notify_send :: "pgm_notify \<Rightarrow> bool \<times> pgm_notify" where
  "pgm_notify_send n = (if broken n then (False, n) else (True, n\<lparr>pending := pending n + 1\<rparr>))"

text \<open>
  Modelled from the spec: the transmit window of pgm/txwi.c, a "fixed-size ring of
  buffered ODATA keyed by sequence number" where "adding past capacity evicts the trail"
  and "peek by SN" finds a packet.
\<close>

definition pgm_txw_next_lead :: "pgm_txw \<Rightarrow> guint32" where
  "pgm_txw_next_lead w = txw_lead w + 1"

definition pgm_txw_trail :: "pgm_txw \<Rightarrow> guint32" where
  "pgm_txw_trail w = txw_trail w"

definition pgm_txw_add :: "pgm_txw \<Rightarrow> pgm_sk_buff \<Rightarrow> pgm_txw" where
  "pgm_txw_add w skb =
     (let w1 = w\<lparr>txw_lead := txw_lead w + 1,
                 txw_pkts := txw_pkts w @ [skb\<lparr>skb_sequence := txw_lead w + 1\<rparr>]\<rparr>
      in if length (txw_pkts w1) > txw_capacity w
         then w1\<lparr>txw_trail := txw_trail w1 + 1, txw_pkts := tl (txw_pkts w1)\<rparr>
         else w1)"

definition pgm_txw_peek :: "pgm_txw \<Rightarrow> guint32 \<Rightarrow> pgm_sk_buff option" where
  "pgm_txw_peek w sqn = find (\<lambda>skb. skb_sequence skb = sqn) (txw_pkts w)"

text \<open>\<open>0xffffffff << tg_sqn_shift\<close>.\<close>

definition tg_sqn_mask_of :: "guint32 \<Rightarrow> guint32" where
  "tg_sqn_mask_of shift = push_bit (unat shift) (0xffffffff :: guint32)"

text \<open>
  Modelled from the spec: \<open>pgm_txw_retransmit_push\<close> of pgm/txwi.c. The retransmit
  queue is "an ordered list of (sqn, is_parity, rs_h) tuples", with "duplicates
  suppressed" and every queued number within \<open>[trail, lead]\<close>; the result counts the
  new entries. The spec does not say how a parity request is keyed: here it is queued
  under its transmission group, with the bits below the group as \<open>rs_h\<close>. No theorem
  of this file depends on that choice.
\<close>

definition pgm_txw_retransmit_push ::
  "pgm_txw \<Rightarrow> guint32 \<Rightarrow> bool \<Rightarrow> guint32 \<Rightarrow> nat \<times> pgm_txw" where
  "pgm_txw_retransmit_push w sqn is_parity shift =
     (let key = (if is_parity then sqn AND tg_sqn_mask_of shift else sqn);
          h = (if is_parity then sqn AND NOT (tg_sqn_mask_of shift) else 0);
          e = \<lparr>rq_sqn = key, rq_is_parity = is_parity, rq_rs_h = h\<rparr>
      in if txw_pkts w = [] then (0, w)
         else if \<not> key - txw_trail w \<le> txw_lead w - txw_trail w then (0, w)
         else if list_ex (\<lambda>q. rq_sqn q = key \<and> rq_is_parity q = is_parity) (txw_retransmit_queue w)
           then (0, w)
         else (1, w\<lparr>txw_retransmit_queue := txw_retransmit_queue w @ [e]\<rparr>))"

subsection \<open>NCF emission\<close>

text \<open>
  Address families as numbers, since \<open>send_ncf_list\<close> compares one with an AFI:
  \<open>AF_INET\<close> and \<open>AF_INET6\<close> of Linux, \<open>AFI_IP\<close> and \<open>AFI_IP6\<close> of PGM.
\<close>

definition AF_INET :: nat where "AF_INET = 2"
definition AF_INET6 :: nat where "AF_INET6 = 10"
definition AFI_IP :: nat where "AFI_IP = 1"
definition AFI_IP6 :: nat where "AFI_IP6 = 2"

fun pgm_sockaddr_family :: "sockaddr \<Rightarrow> nat" where
  "pgm_sockaddr_family (Sockaddr_in a) = AF_INET"
| "pgm_sockaddr_family (Sockaddr_in6 a) = AF_INET6"

definition sizeof_pgm_nak :: nat where "sizeof_pgm_nak = 20"
definition sizeof_pgm_nak6 :: nat where "sizeof_pgm_nak6 = 44"
definition sizeof_pgm_opt_nak_list :: nat where "sizeof_pgm_opt_nak_list = 1"

text \<open>
  \<open>send_ncf\<close>: the NCF for one sequence number. It returns 0, or \<open>-1\<close>
  (\<open>False\<close> here) when the socket did not take the whole packet.
\<close>

definition send_ncf ::
  "pgm_transport \<Rightarrow> sockaddr \<Rightarrow> sockaddr \<Rightarrow> guint32 \<Rightarrow> bool \<Rightarrow> bool \<times> pgm_transport" where
  "send_ncf transport nak_src_nla nak_grp_nla sequence_number is_parity =
     (let tpdu_length = sizeof_pgm_header + sizeof_pgm_nak
            + (if pgm_sockaddr_family nak_src_nla = AF_INET6
               then sizeof_pgm_nak6 - sizeof_pgm_nak else 0);
          ncf = \<lparr>ncf_type = PGM_NCF,
                 ncf_options = (if is_parity then PGM_OPT_PARITY else 0),
                 ncf_tsdu_length = 0,
                 ncf_sqn = sequence_number,
                 ncf_src_nla = nak_src_nla,
                 ncf_grp_nla = nak_grp_nla,
                 ncf_opt_nak_list = []\<rparr>;
          (sent, t1) = pgm_sendto transport False True (Ncf_packet ncf) tpdu_length
      in if sent \<noteq> Sent tpdu_length then (False, t1)
         else (True, stat_add PGM_PC_SOURCE_BYTES_SENT (of_nat tpdu_length) t1))"

text \<open>
  \<open>send_ncf_list\<close>: the NCF that carries \<open>sqn[1 .. len - 1]\<close> in an
  \<open>OPT_NAK_LIST\<close>. Its three assertions come first.
\<close>

definition send_ncf_list ::
  "pgm_transport \<Rightarrow> sockaddr \<Rightarrow> sockaddr \<Rightarrow> guint32 list \<Rightarrow> bool \<Rightarrow> (bool \<times> pgm_transport) outcome" where
  "send_ncf_list transport nak_src_nla nak_grp_nla sqn_list is_parity =
     (if \<not> length sqn_list > 1 then Crash AssertionFailed
      else if \<not> length sqn_list \<le> 63 then Crash AssertionFailed
      else if \<not> pgm_sockaddr_family nak_src_nla = pgm_sockaddr_family nak_grp_nla
        then Crash AssertionFailed
      else
        let tpdu_length = sizeof_pgm_header + sizeof_pgm_nak
              + sizeof_pgm_opt_length
              + sizeof_pgm_opt_header + sizeof_pgm_opt_nak_list
              + (length sqn_list - 1) * 4
              + (if pgm_sockaddr_family nak_src_nla = AFI_IP6
                 then sizeof_pgm_nak6 - sizeof_pgm_nak else 0);
            ncf = \<lparr>ncf_type = PGM_NCF,
                   ncf_options = (if is_parity
                     then PGM_OPT_PRESENT OR PGM_OPT_NETWORK OR PGM_OPT_PARITY
                     else PGM_OPT_PRESENT OR PGM_OPT_NETWORK),
                   ncf_tsdu_length = 0,
                   ncf_sqn = sqn_list ! 0,
                   ncf_src_nla = nak_src_nla,
                   ncf_grp_nla = nak_grp_nla,
                   ncf_opt_nak_list = tl sqn_list\<rparr>;
            (sent, t1) = pgm_sendto transport False True (Ncf_packet ncf) tpdu_length
        in if sent \<noteq> Sent tpdu_length then Done (False, t1)
           else Done (True, stat_add PGM_PC_SOURCE_BYTES_SENT (of_nat tpdu_length) t1))"

subsection \<open>NAK intake\<close>

text \<open>
  A NAK as \<open>on_nak\<close> gets it: the options byte of the PGM header, and of the body the
  sequence number, the two addresses as \<open>pgm_nla_to_sockaddr\<close> decodes them, and the
  bytes that follow the fixed part up to the end of the packet, where the options are.
\<close>

record pgm_header =
  h_type :: guint8
  h_options :: guint8

record pgm_nak =
  nak_sqn :: guint32
  nak_src_nla :: sockaddr
  nak_grp_nla :: sockaddr
  nak_opts :: "guint8 list"

text \<open>
  \<open>( opt_length - sizeof(struct pgm_opt_header) - sizeof(guint8) ) / sizeof(guint32)\<close>,
  computed in \<open>size_t\<close> (64 bits) and stored in a \<open>guint\<close>.
\<close>

definition nak_list_len_of :: "guint8 \<Rightarrow> guint32" where
  "nak_list_len_of opt_length =
     ucast (((ucast opt_length :: guint64) - of_nat sizeof_pgm_opt_header - 1) div 4)"

datatype nak_list_walk = Nak_list nat guint32 | No_nak_list | Bad_options | Walk_crash crash

text \<open>
  The \<open>do ... while\<close> over the options, from the option header at \<open>off\<close>: step over
  it by its \<open>opt_length\<close>; an \<open>OPT_NAK_LIST\<close> there ends the walk with the place of
  its first number and the list length; otherwise \<open>OPT_END\<close> ends it. An option of
  length 0 that is neither keeps the walk where it is for ever. A read past the last
  byte of the packet is \<open>OutOfBounds\<close>.
\<close>

function find_nak_list :: "guint8 list \<Rightarrow> nat \<Rightarrow> nak_list_walk" where
  "find_nak_list opts off =
     (if length opts \<le> off + 1 then Walk_crash OutOfBounds
      else
        let off' = off + unat (opts ! (off + 1)) in
        if length opts \<le> off' then Walk_crash OutOfBounds
        else if (opts ! off') AND PGM_OPT_MASK = PGM_OPT_NAK_LIST then
          (if length opts \<le> off' + 1 then Walk_crash OutOfBounds
           else Nak_list (off' + sizeof_pgm_opt_header + sizeof_pgm_opt_nak_list)
                  (nak_list_len_of (opts ! (off' + 1))))
        else if (opts ! off') AND PGM_OPT_END \<noteq> 0 then No_nak_list
        else if off' = off then Walk_crash Diverges
        else find_nak_list opts off')"
  by pat_completeness auto
termination
  by (relation "measure (\<lambda>(opts, off). length opts - off)") auto

declare find_nak_list.simps [simp del]

text \<open>\<open>g_ntohl\<close> of four bytes of the packet.\<close>

definition g_ntohl :: "guint8 list \<Rightarrow> guint32" where
  "g_ntohl bs = foldl (\<lambda>acc b. push_bit 8 acc OR ucast b) 0 bs"

text \<open>
  The loop that appends the listed numbers to \<open>sqn_list\<close>, whose array
  \<open>sqn_list.sqn\<close> has 63 cells (\<open>send_ncf_list\<close> asserts \<open>len <= 63\<close>). A store
  past the array and a read past the packet are \<open>OutOfBounds\<close>.
\<close>

function copy_nak_list ::
  "guint8 list \<Rightarrow> nat \<Rightarrow> nat \<Rightarrow> nat \<Rightarrow> guint32 list \<Rightarrow> guint32 list outcome" where
  "copy_nak_list opts pos i nak_list_len sqn_list =
     (if i < nak_list_len then
        (if length opts < pos + 4 then Crash OutOfBounds
         else if 63 \<le> length sqn_list then Crash OutOfBounds
         else copy_nak_list opts (pos + 4) (i + 1) nak_list_len
                (sqn_list @ [g_ntohl (take 4 (drop pos opts))]))
      else Done sqn_list)"
  by pat_completeness auto
termination
  by (relation "measure (\<lambda>(opts, pos, i, n, sqn_list). n - i)") auto

declare copy_nak_list.simps [simp del]

definition nak_malformed :: "pgm_transport \<Rightarrow> pgm_transport" where
  "nak_malformed t =
     stat_add PGM_PC_SOURCE_PACKETS_DISCARDED 1 (stat_add PGM_PC_SOURCE_MALFORMED_NAKS 1 t)"

text \<open>The loop of \<open>on_nak\<close> that queues the retransmit requests.\<close>

fun queue_retransmits ::
  "guint32 list \<Rightarrow> bool \<Rightarrow> (pgm_error + unit) option \<Rightarrow> pgm_transport
     \<Rightarrow> (pgm_error + unit) option \<times> pgm_transport" where
  "queue_retransmits [] is_parity retval t = (retval, t)"
| "queue_retransmits (sqn # sqns) is_parity retval t =
     (let (cnt, w) = pgm_txw_retransmit_push (txw t) sqn is_parity (tg_sqn_shift t);
          t1 = t\<lparr>txw := w\<rparr>
      in if cnt > 0 then
           (let (ok, n) = pgm_notify_send (rdata_notify t1);
                t2 = t1\<lparr>rdata_notify := n\<rparr>
            in queue_retransmits sqns is_parity
                 (if \<not> ok then Some (Inl InvalidArgument) else retval) t2)
         else queue_retransmits sqns is_parity retval t1)"

text \<open>
  The option checks of \<open>on_nak\<close>: with \<open>OPT_PRESENT\<close> the options must open with
  an \<open>OPT_LENGTH\<close> of four bytes, or the NAK is malformed; then the walk.
\<close>

definition check_nak_list :: "pgm_header \<Rightarrow> guint8 list \<Rightarrow> nak_list_walk" where
  "check_nak_list header opts =
     (if h_options header AND PGM_OPT_PRESENT \<noteq> 0 then
        (if length opts \<le> 0 then Walk_crash OutOfBounds
         else if opts ! 0 \<noteq> PGM_OPT_LENGTH then Bad_options
         else if length opts \<le> 1 then Walk_crash OutOfBounds
         else if unat (opts ! 1) \<noteq> sizeof_pgm_opt_length then Bad_options
         else find_nak_list opts 0)
      else No_nak_list)"

text \<open>
  The end of \<open>on_nak\<close>, once the NAK is accepted: the sequence list from the primary
  number and the \<open>nak_list_len\<close> listed ones, the NCF, the retransmit requests.
  \<open>retval\<close> holds the 0 that \<open>pgm_verify_nak\<close> returned.
\<close>

definition on_nak_reply ::
  "pgm_transport \<Rightarrow> pgm_nak \<Rightarrow> bool \<Rightarrow> nat \<Rightarrow> nat
     \<Rightarrow> ((pgm_error + unit) option \<times> pgm_transport) outcome" where
  "on_nak_reply transport nak is_parity pos nak_list_len =
     (case copy_nak_list (nak_opts nak) pos 0 nak_list_len [nak_sqn nak] of
        Crash c \<Rightarrow> Crash c
      | Done sqn_list \<Rightarrow>
          (case (if nak_list_len \<noteq> 0
                 then send_ncf_list transport (nak_src_nla nak) (nak_grp_nla nak) sqn_list is_parity
                 else Done (send_ncf transport (nak_src_nla nak) (nak_grp_nla nak)
                              (sqn_list ! 0) is_parity)) of
             Crash c \<Rightarrow> Crash c
           | Done (sent, t) \<Rightarrow> Done (queue_retransmits sqn_list is_parity (Some (Inr ())) t)))"

text \<open>
  \<open>on_nak\<close>. \<open>pgm_verify_nak\<close> (pgm/packet.c) is a parameter. The local
  \<open>retval\<close> is declared without a value after the first \<open>goto out\<close>: the result
  \<open>None\<close> is a return of that variable before anything was stored in it. The addresses
  are compared as \<open>pgm_sockaddr_cmp\<close> does, for equality.
\<close>

definition on_nak ::
  "(pgm_header \<Rightarrow> pgm_nak \<Rightarrow> pgm_error + unit) \<Rightarrow> pgm_transport \<Rightarrow> pgm_header \<Rightarrow> pgm_nak
     \<Rightarrow> ((pgm_error + unit) option \<times> pgm_transport) outcome" where
  "on_nak pgm_verify_nak transport header nak =
     (let is_parity = (h_options header AND PGM_OPT_PARITY \<noteq> 0) in
      if is_parity \<and> \<not> use_ondemand_parity transport then
        Done (None,
          stat_add PGM_PC_SOURCE_PACKETS_DISCARDED 1
            (stat_add PGM_PC_SOURCE_MALFORMED_NAKS 1
              (stat_add PGM_PC_SOURCE_PARITY_NAKS_RECEIVED 1 transport)))
      else
        let t1 = stat_add (if is_parity then PGM_PC_SOURCE_PARITY_NAKS_RECEIVED
                           else PGM_PC_SOURCE_SELECTIVE_NAKS_RECEIVED) 1 transport;
            retval = pgm_verify_nak header nak
        in
        if retval \<noteq> Inr () then Done (Some retval, nak_malformed t1)
        else if nak_src_nla nak \<noteq> send_addr t1 then
          Done (Some (Inl InvalidArgument), nak_malformed t1)
        else if nak_grp_nla nak \<noteq> send_gsr_group t1 then
          Done (Some (Inl InvalidArgument), nak_malformed t1)
        else
          (case check_nak_list header (nak_opts nak) of
             Bad_options \<Rightarrow> Done (Some (Inl InvalidArgument), nak_malformed t1)
           | Walk_crash c \<Rightarrow> Crash c
           | No_nak_list \<Rightarrow> on_nak_reply t1 nak is_parity 0 0
           | Nak_list pos n \<Rightarrow> on_nak_reply t1 nak is_parity pos (unat n)))"

subsection \<open>The heartbeat schedule\<close>

text \<open>\<open>transport->spm_heartbeat_interval[i]\<close>, read.\<close>

definition heartbeat_interval_at :: "pgm_transport \<Rightarrow> nat \<Rightarrow> guint32 outcome" where
  "heartbeat_interval_at t i =
     (case spm_heartbeat_interval t of
        None \<Rightarrow> Crash NullDereference
      | Some a \<Rightarrow>
          if length a \<le> i then Crash OutOfBounds
          else (case a ! i of None \<Rightarrow> Crash UninitialisedRead | Some v \<Rightarrow> Done v))"

text \<open>
  \<open>pgm_reset_heartbeat_spm\<close>. The clock read by \<open>pgm_time_update_now\<close> is the
  parameter \<open>now\<close>; the macro \<open>pgm_time_after\<close> of pgm/time.h is a parameter too.
  The result is 0, or \<open>-EINVAL\<close> when the wake-up could not be written.
\<close>

definition pgm_reset_heartbeat_spm ::
  "(guint64 \<Rightarrow> guint64 \<Rightarrow> bool) \<Rightarrow> guint64 \<Rightarrow> pgm_transport
     \<Rightarrow> ((pgm_error + unit) \<times> pgm_transport) outcome" where
  "pgm_reset_heartbeat_spm pgm_time_after now transport =
     (let t1 = transport\<lparr>spm_heartbeat_state := 1\<rparr> in
      case heartbeat_interval_at t1 (spm_heartbeat_state t1) of
        Crash c \<Rightarrow> Crash c
      | Done v \<Rightarrow>
          let t2 = t1\<lparr>next_heartbeat_spm := now + ucast v,
                      spm_heartbeat_state := spm_heartbeat_state t1 + 1\<rparr>
          in if pgm_time_after (next_poll t2) (next_heartbeat_spm t2) then
               (let t3 = t2\<lparr>next_poll := next_heartbeat_spm t2\<rparr>;
                    (ok, n) = pgm_notify_send (timer_notify t3)
                in Done (if \<not> ok then Inl InvalidArgument else Inr (),
                         t3\<lparr>timer_notify := n\<rparr>))
             else Done (Inr (), t2))"

text \<open>
  The heartbeat fields of two states of a transport compared: none of them has changed.
\<close>

definition heartbeat_kept :: "pgm_transport \<Rightarrow> pgm_transport \<Rightarrow> bool" where
  "heartbeat_kept t t' =
     (spm_heartbeat_interval t' = spm_heartbeat_interval t
      \<and> spm_heartbeat_state t' = spm_heartbeat_state t
      \<and> next_heartbeat_spm t' = next_heartbeat_spm t
      \<and> next_poll t' = next_poll t
      \<and> timer_notify t' = timer_notify t)"

text \<open>
  What a reset of the heartbeat at time \<open>now\<close> leaves behind, from \<open>t\<close> to \<open>t'\<close>:
  the schedule itself is as before, its state is at 2, state 1 having been used, and the
  next heartbeat is due \<open>spm_heartbeat_interval[1]\<close> after \<open>now\<close>.
\<close>

definition heartbeat_reset_to :: "guint64 \<Rightarrow> pgm_transport \<Rightarrow> pgm_transport \<Rightarrow> bool" where
  "heartbeat_reset_to now t t' =
     (case heartbeat_interval_at t 1 of
        Crash c \<Rightarrow> False
      | Done v \<Rightarrow>
          spm_heartbeat_interval t' = spm_heartbeat_interval t
          \<and> spm_heartbeat_state t' = 2
          \<and> next_heartbeat_spm t' = now + ucast v)"

text \<open>
  The timer thread prodded, from \<open>t\<close> to \<open>t'\<close>: if \<open>next_poll\<close> was after the new
  deadline it now is that deadline, and a wake-up was written to the timer channel, so
  that more wake-ups are pending than before, unless the channel takes no write; if
  \<open>next_poll\<close> was not after the deadline, it and the channel are as they were.
\<close>

definition timer_prodded ::
  "(guint64 \<Rightarrow> guint64 \<Rightarrow> bool) \<Rightarrow> pgm_transport \<Rightarrow> pgm_transport \<Rightarrow> bool" where
  "timer_prodded pgm_time_after t t' =
     (if pgm_time_after (next_poll t) (next_heartbeat_spm t')
      then next_poll t' = next_heartbeat_spm t'
           \<and> (if broken (timer_notify t) then timer_notify t' = timer_notify t
               else \<not> broken (timer_notify t')
                    \<and> pending (timer_notify t) < pending (timer_notify t'))
      else next_poll t' = next_poll t \<and> timer_notify t' = timer_notify t)"


subsection \<open>RDATA emission\<close>

text \<open>
  \<open>send_rdata\<close>, on the packet that \<open>data\<close> points to, which it changes in place:
  the result carries the packet as it is afterwards. The heartbeat schedule is reset
  here without \<open>pgm_reset_heartbeat_spm\<close> ("we are already in the timer thread, no need
  to prod timers"). The result is 0 (\<open>True\<close>) or \<open>-1\<close>.
\<close>

definition send_rdata ::
  "guint64 \<Rightarrow> pgm_transport \<Rightarrow> pgm_sk_buff \<Rightarrow> (bool \<times> pgm_sk_buff \<times> pgm_transport) outcome" where
  "send_rdata now transport skb =
     (let rdata = skb\<lparr>pgm_type := PGM_RDATA, data_trail := pgm_txw_trail (txw transport)\<rparr>;
          len = skb_len rdata;
          (sent, t1) = pgm_sendto transport True True (Data_packet rdata) len;
          t2 = t1\<lparr>spm_heartbeat_state := 1\<rparr>
      in case heartbeat_interval_at t2 (spm_heartbeat_state t2) of
           Crash c \<Rightarrow> Crash c
         | Done v \<Rightarrow>
             let t3 = t2\<lparr>next_heartbeat_spm := now + ucast v,
                         spm_heartbeat_state := spm_heartbeat_state t2 + 1\<rparr>
             in if sent \<noteq> Sent len then Done (False, rdata, t3)
                else Done (True, rdata,
                  stat_add PGM_PC_SOURCE_BYTES_SENT (of_nat (len + iphdr_len t3))
                    (stat_add PGM_PC_SOURCE_SELECTIVE_MSGS_RETRANSMITTED 1
                      (stat_add PGM_PC_SOURCE_SELECTIVE_BYTES_RETRANSMITTED
                         (ucast (pgm_tsdu_length rdata)) t3))))"

subsection \<open>The repair consumer\<close>

text \<open>
  Modelled from the spec: \<open>pgm_notify_read\<close>, \<open>pgm_txw_retransmit_try_peek\<close> and
  \<open>pgm_txw_retransmit_remove_head\<close>. The peek gives the head of the retransmit queue,
  "(skb, saved_unfolded_csum, is_parity, rs_h)", without the checksum here, and fails on
  an empty queue; the packet is the one the window holds under the entry's number.
\<close>

definition pgm_notify_read :: "pgm_notify \<Rightarrow> pgm_notify" where
  "pgm_notify_read n = n\<lparr>pending := pending n - 1\<rparr>"

definition pgm_txw_retransmit_try_peek ::
  "pgm_txw \<Rightarrow> (pgm_sk_buff option \<times> bool \<times> guint32) option" where
  "pgm_txw_retransmit_try_peek w =
     (case txw_retransmit_queue w of
        [] \<Rightarrow> None
      | e # es \<Rightarrow> Some (pgm_txw_peek w (rq_sqn e), rq_is_parity e, rq_rs_h e))"

definition pgm_txw_retransmit_remove_head :: "pgm_txw \<Rightarrow> pgm_txw" where
  "pgm_txw_retransmit_remove_head w = w\<lparr>txw_retransmit_queue := tl (txw_retransmit_queue w)\<rparr>"

text \<open>A packet of the window changed in place.\<close>

definition txw_modify :: "pgm_txw \<Rightarrow> guint32 \<Rightarrow> (pgm_sk_buff \<Rightarrow> pgm_sk_buff) \<Rightarrow> pgm_txw" where
  "txw_modify w sqn f =
     w\<lparr>txw_pkts := map (\<lambda>skb. if skb_sequence skb = sqn then f skb else skb) (txw_pkts w)\<rparr>"

text \<open>
  The Reed-Solomon encoder of pgm/reed_solomon.c, a parameter: \<open>rs_encode src j len\<close>
  is the parity block \<open>j\<close> of length \<open>len\<close> for the payloads \<open>src\<close>, and
  \<open>rs_encode_opt\<close> the same for the \<open>OPT_FRAGMENT\<close> options, where a packet without
  one counts as \<open>None\<close> (the source encodes a null option marked
  \<open>PGM_OP_ENCODED_NULL\<close>).
\<close>

record reed_solomon =
  rs_encode :: "guint8 list list \<Rightarrow> nat \<Rightarrow> nat \<Rightarrow> guint8 list"
  rs_encode_opt :: "opt_fragment option list \<Rightarrow> nat \<Rightarrow> opt_fragment"

text \<open>
  The first loop of the parity branch over the \<open>rs_k\<close> packets of the group, from
  packet \<open>i\<close> on: the parity length so far (a \<open>guint16\<close>), whether the lengths
  differ, whether a packet has options. A missing packet is a \<open>NULL\<close> from
  \<open>pgm_txw_peek\<close>, dereferenced.
\<close>

function parity_scan ::
  "pgm_txw \<Rightarrow> guint32 \<Rightarrow> nat \<Rightarrow> nat \<Rightarrow> guint16 \<Rightarrow> bool \<Rightarrow> bool \<Rightarrow> (guint16 \<times> bool \<times> bool) outcome" where
  "parity_scan w tg_sqn k i parity_length is_var_pktlen is_op_encoded =
     (if i < k then
        (case pgm_txw_peek w (tg_sqn + of_nat i) of
           None \<Rightarrow> Crash NullDereference
         | Some odata_skb \<Rightarrow>
             let odata_tsdu_length = pgm_tsdu_length odata_skb;
                 (pl, var) =
                   (if parity_length = 0 then (odata_tsdu_length, is_var_pktlen)
                    else if odata_tsdu_length \<noteq> parity_length then
                      (if odata_tsdu_length > parity_length then odata_tsdu_length
                       else parity_length, True)
                    else (parity_length, is_var_pktlen));
                 enc = (if pgm_options odata_skb AND PGM_OPT_PRESENT \<noteq> 0 then True
                        else is_op_encoded)
             in parity_scan w tg_sqn k (i + 1) pl var enc)
      else Done (parity_length, is_var_pktlen, is_op_encoded))"
  by pat_completeness auto
termination
  by (relation "measure (\<lambda>(w, tg_sqn, k, i, pl, var, enc). k - i)") auto

declare parity_scan.simps [simp del]

text \<open>
  The second loop, run when the lengths differ: each packet not yet padded is padded
  with zeros up to the parity length and gets its own length appended, once.
\<close>

function parity_pad :: "pgm_txw \<Rightarrow> guint32 \<Rightarrow> nat \<Rightarrow> nat \<Rightarrow> guint16 \<Rightarrow> pgm_txw outcome" where
  "parity_pad w tg_sqn k i parity_length =
     (if i < k then
        (case pgm_txw_peek w (tg_sqn + of_nat i) of
           None \<Rightarrow> Crash NullDereference
         | Some odata_skb \<Rightarrow>
             let odata_tsdu_length = pgm_tsdu_length odata_skb in
             if \<not> unat odata_tsdu_length = skb_len odata_skb then Crash AssertionFailed
             else if \<not> parity_length \<ge> odata_tsdu_length then Crash AssertionFailed
             else if \<not> skb_zero_padded odata_skb then
               parity_pad
                 (txw_modify w (tg_sqn + of_nat i)
                    (\<lambda>skb. skb\<lparr>skb_tsdu := take (unat odata_tsdu_length) (skb_tsdu skb)
                                   @ replicate (unat parity_length - unat odata_tsdu_length) 0
                                   @ [ucast odata_tsdu_length, ucast (drop_bit 8 odata_tsdu_length)],
                                 skb_zero_padded := True\<rparr>))
                 tg_sqn k (i + 1) parity_length
             else parity_pad w tg_sqn k (i + 1) parity_length)
      else Done w)"
  by pat_completeness auto
termination
  by (relation "measure (\<lambda>(w, tg_sqn, k, i, pl). k - i)") auto

declare parity_pad.simps [simp del]

text \<open>
  The parity branch of \<open>on_nak_notify\<close>: the parity packet for block \<open>rs_h\<close> of the
  group of \<open>r_skb\<close>, built in \<open>transport->parity_buffer\<close>.
\<close>

definition build_parity ::
  "reed_solomon \<Rightarrow> pgm_transport \<Rightarrow> pgm_sk_buff \<Rightarrow> guint32 \<Rightarrow> (pgm_sk_buff \<times> pgm_transport) outcome" where
  "build_parity rs transport r_skb rs_h =
     (let tg_sqn_mask = tg_sqn_mask_of (tg_sqn_shift transport);
          tg_sqn = skb_sequence r_skb AND tg_sqn_mask;
          k = unat (rs_k transport)
      in case parity_scan (txw transport) tg_sqn k 0 0 False False of
           Crash c \<Rightarrow> Crash c
         | Done (parity_length0, is_var_pktlen, is_op_encoded) \<Rightarrow>
            (case (if is_var_pktlen
                   then parity_pad (txw transport) tg_sqn k 0 parity_length0
                   else Done (txw transport)) of
               Crash c \<Rightarrow> Crash c
             | Done w \<Rightarrow>
                 let parity_length = (if is_var_pktlen then parity_length0 + 2 else parity_length0);
                     srcs = map (\<lambda>i. case pgm_txw_peek w (tg_sqn + of_nat i) of
                                        None \<Rightarrow> [] | Some skb \<Rightarrow> skb_tsdu skb) [0 ..< k];
                     opt_srcs = map (\<lambda>i. case pgm_txw_peek w (tg_sqn + of_nat i) of
                                        None \<Rightarrow> None | Some skb \<Rightarrow> pgm_opt_fragment skb) [0 ..< k];
                     opt_total_length = sizeof_pgm_opt_length + sizeof_pgm_opt_header
                                          + sizeof_pgm_opt_fragment;
                     p = (parity_buffer transport)
                           \<lparr>skb_len := sizeof_pgm_header + sizeof_pgm_data + unat parity_length
                                        + (if is_op_encoded then opt_total_length else 0),
                            pgm_options := PGM_OPT_PARITY
                                OR (if is_var_pktlen then PGM_OPT_VAR_PKTLEN else 0)
                                OR (if is_op_encoded then PGM_OPT_PRESENT else 0),
                            pgm_tsdu_length := parity_length,
                            data_sqn := tg_sqn OR rs_h,
                            pgm_opt_fragment :=
                              (if is_op_encoded then Some (rs_encode_opt rs opt_srcs (k + unat rs_h))
                               else None),
                            skb_tsdu := rs_encode rs srcs (k + unat rs_h) (unat parity_length)\<rparr>
                 in Done (p, transport\<lparr>txw := w, parity_buffer := p\<rparr>)))"

text \<open>
  \<open>on_nak_notify\<close>. One wake-up is read; if the retransmit queue has an entry,
  \<open>rs_h %= rs_n - rs_k\<close> is computed in \<open>guint\<close>, then the parity packet is built or
  the buffered packet is taken as it is, \<open>send_rdata\<close> sends it, and the entry leaves
  the queue. \<open>send_rdata\<close> writes into the packet it is given: the window's for a
  selective repair, the parity buffer for a parity repair.
\<close>

definition on_nak_notify ::
  "reed_solomon \<Rightarrow> guint64 \<Rightarrow> pgm_transport \<Rightarrow> pgm_transport outcome" where
  "on_nak_notify rs now transport =
     (let t0 = transport\<lparr>rdata_notify := pgm_notify_read (rdata_notify transport)\<rparr> in
      case pgm_txw_retransmit_try_peek (txw t0) of
        None \<Rightarrow> Done t0
      | Some (r_skb_ptr, is_parity, rs_h0) \<Rightarrow>
          if rs_n t0 - rs_k t0 = 0 then Crash DivisionByZero
          else
            let rs_h = rs_h0 mod (rs_n t0 - rs_k t0) in
            (case r_skb_ptr of
               None \<Rightarrow> Crash NullDereference
             | Some r_skb \<Rightarrow>
                 if is_parity then
                   (case build_parity rs t0 r_skb rs_h of
                      Crash c \<Rightarrow> Crash c
                    | Done (p, t1) \<Rightarrow>
                        (case send_rdata now t1 p of
                           Crash c \<Rightarrow> Crash c
                         | Done (ok, p', t2) \<Rightarrow>
                             Done (t2\<lparr>parity_buffer := p',
                                      txw := pgm_txw_retransmit_remove_head (txw t2)\<rparr>)))
                 else
                   (case send_rdata now t0 r_skb of
                      Crash c \<Rightarrow> Crash c
                    | Done (ok, r_skb', t2) \<Rightarrow>
                        Done (t2\<lparr>txw := pgm_txw_retransmit_remove_head
                                   (txw_modify (txw t2) (skb_sequence r_skb) (\<lambda>skb. r_skb'))\<rparr>))))"

subsection \<open>ODATA emission: one packet\<close>

text \<open>
  Of the \<open>flags\<close> of a send, the two bits the source looks at. The assertion
  \<open>g_assert( !(flags & MSG_WAITALL && !(flags & MSG_DONTWAIT)) )\<close> is \<open>flags_ok\<close>.
\<close>

record send_flags =
  msg_dontwait :: bool
  msg_waitall :: bool

definition flags_ok :: "send_flags \<Rightarrow> bool" where
  "flags_ok flags = (\<not> (msg_waitall flags \<and> \<not> msg_dontwait flags))"

text \<open>
  The values of \<open>errno\<close> that the source sets or tests, and any other value.
\<close>

datatype errno_value = EAGAIN | ECONNRESET | Errno_other

text \<open>
  What a send reads from outside the transport: the clock, the macro
  \<open>pgm_time_after\<close>, the answer of \<open>pgm_rate_check\<close> (pgm/rate_control.c) to a
  number of bytes, \<open>True\<close> for 0 and \<open>False\<close> for \<open>-1\<close>, which it returns with
  \<open>errno = EAGAIN\<close>, and \<open>errno\<close> as earlier calls left it. A send that returns
  \<open>-1\<close> has just set \<open>errno\<close>, and the result of the model says to what:
  \<open>ConnectionReset\<close> is \<open>ECONNRESET\<close>, \<open>WouldBlock\<close> and \<open>RateLimited\<close> are
  \<open>EAGAIN\<close>. A send that returns \<open>-EINVAL\<close> or \<open>-EMSGSIZE\<close> sets nothing:
  \<open>errno\<close> is then what any earlier call of the thread left, which \<open>w_errno i\<close>
  gives for the test that follows the send of \<open>vector[i]\<close> in
  \<open>pgm_transport_sendv\<close>, the one place where the source reads such a value.
\<close>

record world =
  w_now :: guint64
  w_time_after :: "guint64 \<Rightarrow> guint64 \<Rightarrow> bool"
  w_rate_check :: "nat \<Rightarrow> bool"
  w_errno :: "nat \<Rightarrow> errno_value"

text \<open>
  \<open>pgm_transport_pkt_offset\<close> and \<open>pgm_transport_max_tsdu\<close> of pgm/transport.h: the
  bytes in front of the payload, and the largest payload, without and with the
  \<open>OPT_FRAGMENT\<close> option.
\<close>

definition pgm_transport_pkt_offset :: "bool \<Rightarrow> nat" where
  "pgm_transport_pkt_offset can_fragment =
     (if can_fragment
      then sizeof_pgm_header + sizeof_pgm_data + sizeof_pgm_opt_length + sizeof_pgm_opt_header
             + sizeof_pgm_opt_fragment
      else sizeof_pgm_header + sizeof_pgm_data)"

definition pgm_transport_max_tsdu :: "pgm_transport \<Rightarrow> bool \<Rightarrow> nat" where
  "pgm_transport_max_tsdu t can_fragment = (if can_fragment then max_tsdu_fragment t else max_tsdu t)"

text \<open>\<open>pgm_schedule_proactive_nak\<close>.\<close>

definition pgm_schedule_proactive_nak ::
  "pgm_transport \<Rightarrow> guint32 \<Rightarrow> (pgm_error + unit) \<times> pgm_transport" where
  "pgm_schedule_proactive_nak transport nak_tg_sqn =
     (let (cnt, w) = pgm_txw_retransmit_push (txw transport)
                       (nak_tg_sqn OR rs_proactive_h transport) True (tg_sqn_shift transport);
          (ok, n) = pgm_notify_send (rdata_notify transport)
      in (if \<not> ok then Inl InvalidArgument else Inr (),
          transport\<lparr>txw := w, rdata_notify := n\<rparr>))"

text \<open>The check for the end of a transmission group that follows every ODATA.\<close>

definition end_of_transmission_group :: "pgm_transport \<Rightarrow> pgm_sk_buff \<Rightarrow> pgm_transport" where
  "end_of_transmission_group transport skb =
     (if use_proactive_parity transport then
        (let odata_sqn = data_sqn skb;
             tg_sqn_mask = tg_sqn_mask_of (tg_sqn_shift transport)
         in if (odata_sqn + 1) AND NOT tg_sqn_mask = 0
            then snd (pgm_schedule_proactive_nak transport (odata_sqn AND tg_sqn_mask))
            else transport)
      else transport)"

text \<open>An ODATA packet without options, as the single-packet paths stamp it.\<close>

definition odata_packet :: "pgm_transport \<Rightarrow> nat \<Rightarrow> guint8 list \<Rightarrow> pgm_sk_buff" where
  "odata_packet transport tsdu_length payload =
     \<lparr>skb_len = pgm_transport_pkt_offset False + tsdu_length,
      skb_sequence = 0,
      skb_zero_padded = False,
      pgm_type = PGM_ODATA,
      pgm_options = 0,
      pgm_tsdu_length = of_nat tsdu_length,
      data_sqn = pgm_txw_next_lead (txw transport),
      data_trail = pgm_txw_trail (txw transport),
      pgm_opt_fragment = None,
      skb_tsdu = payload\<rparr>"

text \<open>\<open>STATE(skb) = skb\<close> and \<open>pgm_txw_add (transport->txw, STATE(skb))\<close>.\<close>

definition admit :: "pgm_transport \<Rightarrow> pgm_sk_buff \<Rightarrow> pgm_transport" where
  "admit transport skb =
     transport\<lparr>state := (state transport)\<lparr>st_skb := Some skb\<rparr>,
                txw := pgm_txw_add (txw transport) skb\<rparr>"

text \<open>
  The bytes that a checksum-and-copy reads: \<open>len\<close> bytes at offset \<open>off\<close> of the
  buffer \<open>buf\<close> points to. A copy of no bytes reads nothing, also from \<open>NULL\<close>;
  otherwise \<open>NULL\<close> and a buffer that ends before the last byte stop the call.
\<close>

definition read_bytes :: "guint8 list option \<Rightarrow> nat \<Rightarrow> nat \<Rightarrow> guint8 list outcome" where
  "read_bytes buf off len =
     (if len = 0 then Done []
      else case buf of
             None \<Rightarrow> Crash NullDereference
           | Some bytes \<Rightarrow>
               if length bytes < off + len then Crash OutOfBounds
               else Done (take len (drop off bytes)))"

lemma read_bytes_nothing [simp]: "read_bytes buf off 0 = Done []"
  by (simp add: read_bytes_def)

text \<open>
  The three single-packet paths end alike, from the label \<open>retry_send\<close> on:
  \<open>STATE(skb)\<close> is offered to the socket; \<open>EAGAIN\<close> sets \<open>is_apdu_eagain\<close> and
  returns \<open>-1\<close>; any other answer clears it, resets the heartbeat, counts the packet
  if the socket took all of it, checks for the end of the group and returns the
  payload length.
\<close>

definition retry_send_one ::
  "world \<Rightarrow> pgm_transport \<Rightarrow> nat \<Rightarrow> ((pgm_error + nat) \<times> pgm_transport) outcome" where
  "retry_send_one w transport tsdu_length =
     (case st_skb (state transport) of
        None \<Rightarrow> Crash NullDereference
      | Some skb \<Rightarrow>
          let (sent, t1) = pgm_sendto transport True False (Data_packet skb) (skb_len skb) in
          if sent = Send_EAGAIN then Done (Inl WouldBlock, t1\<lparr>is_apdu_eagain := True\<rparr>)
          else
            (case pgm_reset_heartbeat_spm (w_time_after w) (w_now w)
                    (t1\<lparr>is_apdu_eagain := False\<rparr>) of
               Crash c \<Rightarrow> Crash c
             | Done (rv, t2) \<Rightarrow>
                 let t3 = (if sent = Sent (skb_len skb) then
                             stat_add PGM_PC_SOURCE_BYTES_SENT (of_nat (skb_len skb + iphdr_len t2))
                               (stat_add PGM_PC_SOURCE_DATA_MSGS_SENT 1
                                 (stat_add PGM_PC_SOURCE_DATA_BYTES_SENT (of_nat tsdu_length) t2))
                           else t2)
                 in Done (Inr tsdu_length, end_of_transmission_group t3 skb)))"

text \<open>\<open>pgm_transport_send_one_copy\<close>; \<open>tsdu\<close> is the buffer, \<open>None\<close> for \<open>NULL\<close>.\<close>

definition pgm_transport_send_one_copy ::
  "world \<Rightarrow> pgm_transport \<Rightarrow> guint8 list option \<Rightarrow> nat \<Rightarrow> send_flags
     \<Rightarrow> ((pgm_error + nat) \<times> pgm_transport) outcome" where
  "pgm_transport_send_one_copy w transport tsdu tsdu_length flags =
     (if tsdu_length \<noteq> 0 \<and> tsdu = None then Done (Inl InvalidArgument, transport)
      else if tsdu_length \<noteq> 0 \<and> \<not> tsdu_length \<le> max_tsdu transport
        then Done (Inl MessageSize, transport)
      else if \<not> flags_ok flags then Crash AssertionFailed
      else if is_apdu_eagain transport then retry_send_one w transport tsdu_length
      else
        (case read_bytes tsdu 0 tsdu_length of
           Crash c \<Rightarrow> Crash c
         | Done payload \<Rightarrow>
             retry_send_one w (admit transport (odata_packet transport tsdu_length payload))
               tsdu_length))"

text \<open>
  \<open>pgm_transport_send_one\<close>, for a buffer the caller filled: its \<open>len\<close> is the
  payload length, which the function keeps in a \<open>guint16\<close>. The function does not
  write the buffer's \<open>pgm_opt_fragment\<close> pointer, which stays as the caller left it.
\<close>

definition pgm_transport_send_one ::
  "world \<Rightarrow> pgm_transport \<Rightarrow> pgm_sk_buff option \<Rightarrow> send_flags
     \<Rightarrow> ((pgm_error + nat) \<times> pgm_transport) outcome" where
  "pgm_transport_send_one w transport skb_ptr flags =
     (case skb_ptr of
        None \<Rightarrow> Done (Inl InvalidArgument, transport)
      | Some skb \<Rightarrow>
          if \<not> skb_len skb \<le> max_tsdu transport then Done (Inl MessageSize, transport)
          else if \<not> flags_ok flags then Crash AssertionFailed
          else
            let tsdu_length = unat (of_nat (skb_len skb) :: guint16) in
            if is_apdu_eagain transport then retry_send_one w transport tsdu_length
            else
              retry_send_one w
                (admit transport
                   ((odata_packet transport tsdu_length (skb_tsdu skb))
                      \<lparr>skb_len := skb_len skb + pgm_transport_pkt_offset False,
                       pgm_opt_fragment := pgm_opt_fragment skb\<rparr>))
                tsdu_length)"

text \<open>
  A scatter/gather element, and \<open>vector[i]\<close> read from an array that the caller
  passes with \<open>count\<close>.
\<close>

record pgm_iovec =
  iov_base :: "guint8 list option"
  iov_len :: nat

text \<open>
  The checksum-and-copy of \<open>pgm_transport_send_onev\<close>, element by element from
  the first.
\<close>

fun copy_elements :: "pgm_iovec list \<Rightarrow> guint8 list outcome" where
  "copy_elements [] = Done []"
| "copy_elements (v # vs) =
     (case read_bytes (iov_base v) 0 (iov_len v) of
        Crash c \<Rightarrow> Crash c
      | Done bytes \<Rightarrow>
          (case copy_elements vs of
             Crash c \<Rightarrow> Crash c
           | Done rest \<Rightarrow> Done (bytes @ rest)))"

text \<open>The loop that adds up \<open>vector[i].iov_len\<close> for \<open>i\<close> from \<open>i\<close> to \<open>count\<close>.\<close>

function iov_total :: "pgm_iovec list \<Rightarrow> nat \<Rightarrow> nat \<Rightarrow> nat \<Rightarrow> nat outcome" where
  "iov_total vector count i sum_len =
     (if i < count then
        (if length vector \<le> i then Crash OutOfBounds
         else iov_total vector count (i + 1) (sum_len + iov_len (vector ! i)))
      else Done sum_len)"
  by pat_completeness auto
termination
  by (relation "measure (\<lambda>(vector, count, i, sum_len). count - i)") auto

declare iov_total.simps [simp del]

text \<open>\<open>pgm_transport_send_onev\<close>: one packet gathered from a vector.\<close>

definition pgm_transport_send_onev ::
  "world \<Rightarrow> pgm_transport \<Rightarrow> pgm_iovec list option \<Rightarrow> nat \<Rightarrow> send_flags
     \<Rightarrow> ((pgm_error + nat) \<times> pgm_transport) outcome" where
  "pgm_transport_send_onev w transport vector_ptr count flags =
     (if count \<noteq> 0 \<and> vector_ptr = None then Done (Inl InvalidArgument, transport)
      else if count = 0 then pgm_transport_send_one_copy w transport None 0 flags
      else if \<not> flags_ok flags then Crash AssertionFailed
      else if is_apdu_eagain transport
        then retry_send_one w transport (st_tsdu_length (state transport))
      else
        let vector = (case vector_ptr of None \<Rightarrow> [] | Some v \<Rightarrow> v) in
        (case iov_total vector count 0 0 of
           Crash c \<Rightarrow> Crash c
         | Done sum_len \<Rightarrow>
             let t1 = transport\<lparr>state := (state transport)\<lparr>st_tsdu_length := sum_len\<rparr>\<rparr> in
             if \<not> sum_len \<le> max_tsdu t1 then Done (Inl MessageSize, t1)
             else
               (case copy_elements (take count vector) of
                  Crash c \<Rightarrow> Crash c
                | Done payload \<Rightarrow>
                    retry_send_one w (admit t1 (odata_packet t1 sum_len payload)) sum_len)))"

subsection \<open>ODATA emission: fragmented APDUs\<close>

text \<open>
  The three counters local to a fragmenting send, \<open>bytes_sent\<close>, \<open>packets_sent\<close>
  and \<open>data_bytes_sent\<close>, which start at 0 on every call, a resumed one too, and are
  added to the cumulative statistics when the call ends.
\<close>

record send_counts =
  bytes_sent :: nat
  packets_sent :: nat
  data_bytes_sent :: nat

definition no_counts :: send_counts where
  "no_counts = \<lparr>bytes_sent = 0, packets_sent = 0, data_bytes_sent = 0\<rparr>"

definition add_counts :: "send_counts \<Rightarrow> pgm_transport \<Rightarrow> pgm_transport" where
  "add_counts cnt t =
     stat_add PGM_PC_SOURCE_DATA_BYTES_SENT (of_nat (data_bytes_sent cnt))
       (stat_add PGM_PC_SOURCE_DATA_MSGS_SENT (of_nat (packets_sent cnt))
         (stat_add PGM_PC_SOURCE_BYTES_SENT (of_nat (bytes_sent cnt)) t))"

text \<open>
  The \<open>do ... while\<close> that adds up the wire size of the packets of an APDU before
  the rate check. With a fragment size of 0 and bytes left it never ends.
\<close>

function apdu_wire_size :: "nat \<Rightarrow> nat \<Rightarrow> nat \<Rightarrow> nat \<Rightarrow> nat \<Rightarrow> nat \<Rightarrow> nat outcome" where
  "apdu_wire_size max_frag iphdr header_length apdu_length off tpdu_length =
     (let tsdu_length = min max_frag (apdu_length - off) in
      if off + tsdu_length < apdu_length then
        (if tsdu_length = 0 then Crash Diverges
         else apdu_wire_size max_frag iphdr header_length apdu_length (off + tsdu_length)
                (tpdu_length + iphdr + header_length + tsdu_length))
      else Done (tpdu_length + iphdr + header_length + tsdu_length))"
  by pat_completeness auto
termination
  by (relation "measure (\<lambda>(mf, ip, hl, apdu_length, off, tpdu). apdu_length - off)") auto

declare apdu_wire_size.simps [simp del]

text \<open>
  The rate check made once for the whole APDU when both \<open>MSG_DONTWAIT\<close> and
  \<open>MSG_WAITALL\<close> are set; \<open>STATE(is_rate_limited)\<close> tells the packets that it was
  made. The result \<open>False\<close> is the \<open>-1\<close> of \<open>pgm_rate_check\<close>.
\<close>

definition rate_precheck ::
  "world \<Rightarrow> pgm_transport \<Rightarrow> nat \<Rightarrow> send_flags \<Rightarrow> (bool \<times> pgm_transport) outcome" where
  "rate_precheck w transport apdu_length flags =
     (let t1 = transport\<lparr>state := (state transport)\<lparr>st_is_rate_limited := False\<rparr>\<rparr> in
      if msg_dontwait flags \<and> msg_waitall flags then
        (case apdu_wire_size (pgm_transport_max_tsdu t1 True) (iphdr_len t1)
                (pgm_transport_pkt_offset True) apdu_length 0 0 of
           Crash c \<Rightarrow> Crash c
         | Done tpdu_length \<Rightarrow>
             if \<not> w_rate_check w (tpdu_length - iphdr_len t1) then Done (False, t1)
             else Done (True, t1\<lparr>state := (state t1)\<lparr>st_is_rate_limited := True\<rparr>\<rparr>))
      else Done (True, t1))"

text \<open>
  An ODATA packet of \<open>len\<close> bytes with an \<open>OPT_FRAGMENT\<close>, stamped from the resume
  state: \<open>first_sqn\<close>, \<open>data_bytes_offset\<close> and the APDU length, each stored with
  \<open>g_htonl\<close>, in 32 bits.
\<close>

definition odata_fragment :: "pgm_transport \<Rightarrow> nat \<Rightarrow> nat \<Rightarrow> guint8 list \<Rightarrow> pgm_sk_buff" where
  "odata_fragment transport len apdu_length payload =
     \<lparr>skb_len = len,
      skb_sequence = 0,
      skb_zero_padded = False,
      pgm_type = PGM_ODATA,
      pgm_options = PGM_OPT_PRESENT,
      pgm_tsdu_length = of_nat (st_tsdu_length (state transport)),
      data_sqn = pgm_txw_next_lead (txw transport),
      data_trail = pgm_txw_trail (txw transport),
      pgm_opt_fragment = Some \<lparr>opt_sqn = st_first_sqn (state transport),
                               opt_frag_off = of_nat (st_data_bytes_offset (state transport)),
                               opt_frag_len = of_nat apdu_length\<rparr>,
      skb_tsdu = payload\<rparr>"

text \<open>
  A round of a fragmenting loop from its label \<open>retry_send\<close> on: \<open>STATE(skb)\<close> is
  offered to the socket; \<open>EAGAIN\<close> sets \<open>is_apdu_eagain\<close> and leaves the loop for
  \<open>blocked\<close> (the result \<open>True\<close>); otherwise the packet is counted if the socket
  took all of it, \<open>data_bytes_offset\<close> moves on by the payload length, and the end of
  the transmission group is checked.
\<close>

definition retry_send_fragment ::
  "pgm_transport \<Rightarrow> send_counts \<Rightarrow> (bool \<times> send_counts \<times> pgm_transport) outcome" where
  "retry_send_fragment transport cnt =
     (case st_skb (state transport) of
        None \<Rightarrow> Crash NullDereference
      | Some skb \<Rightarrow>
          let (sent, t1) = pgm_sendto transport (\<not> st_is_rate_limited (state transport)) False
                             (Data_packet skb) (skb_len skb) in
          if sent = Send_EAGAIN then Done (True, cnt, t1\<lparr>is_apdu_eagain := True\<rparr>)
          else
            let cnt1 = (if sent = Sent (skb_len skb) then
                          cnt\<lparr>bytes_sent := bytes_sent cnt + (skb_len skb + iphdr_len t1),
                              packets_sent := packets_sent cnt + 1,
                              data_bytes_sent := data_bytes_sent cnt + st_tsdu_length (state t1)\<rparr>
                        else cnt);
                t2 = t1\<lparr>state := (state t1)\<lparr>st_data_bytes_offset :=
                          st_data_bytes_offset (state t1) + st_tsdu_length (state t1)\<rparr>\<rparr>
            in Done (False, cnt1, end_of_transmission_group t2 skb))"

text \<open>
  One round of the loop of \<open>pgm_transport_send\<close>. A resumed call enters the first
  round at \<open>retry_send\<close>; otherwise the next fragment is cut from the buffer, stamped
  and added to the window.
\<close>

definition send_fragment_step ::
  "pgm_transport \<Rightarrow> guint8 list \<Rightarrow> nat \<Rightarrow> bool \<Rightarrow> send_counts
     \<Rightarrow> (bool \<times> send_counts \<times> pgm_transport) outcome" where
  "send_fragment_step transport apdu apdu_length resume cnt =
     (if resume then retry_send_fragment transport cnt
      else
        let t1 = transport\<lparr>state := (state transport)\<lparr>st_tsdu_length :=
                   min (pgm_transport_max_tsdu transport True)
                       (apdu_length - st_data_bytes_offset (state transport))\<rparr>\<rparr>
        in case read_bytes (Some apdu) (st_data_bytes_offset (state t1))
                  (st_tsdu_length (state t1)) of
             Crash c \<Rightarrow> Crash c
           | Done payload \<Rightarrow>
               retry_send_fragment
                 (admit t1
                    (odata_fragment t1
                       (pgm_transport_pkt_offset True + st_tsdu_length (state t1)) apdu_length
                       payload))
                 cnt)"

text \<open>
  What decreases round by round: the bytes left, then the answers the socket has ready,
  then the resumed entry.
\<close>

definition loop_measure :: "nat \<Rightarrow> bool \<Rightarrow> pgm_transport \<Rightarrow> nat" where
  "loop_measure apdu_length resume t =
     (apdu_length - st_data_bytes_offset (state t)) + length (sendto_results t)
       + (if resume then 1 else 0)"

lemma end_of_transmission_group_frame [simp]:
  "state (end_of_transmission_group t skb) = state t"
  "sendto_results (end_of_transmission_group t skb) = sendto_results t"
  "max_tsdu_fragment (end_of_transmission_group t skb) = max_tsdu_fragment t"
  "wire (end_of_transmission_group t skb) = wire t"
  by (simp_all add: end_of_transmission_group_def pgm_schedule_proactive_nak_def Let_def
      split: prod.splits)

lemma pgm_sendto_script:
  "pgm_sendto t rl ra pkt len = (r, t') \<Longrightarrow>
     state t' = state t \<and> max_tsdu_fragment t' = max_tsdu_fragment t
     \<and> sendto_results t' = tl (sendto_results t)"
  by (auto simp: pgm_sendto_def Let_def split: list.splits)

lemma retry_send_fragment_next:
  assumes "retry_send_fragment t cnt = Done (False, cnt', t')"
  shows "st_data_bytes_offset (state t')
           = st_data_bytes_offset (state t) + st_tsdu_length (state t)"
    and "sendto_results t' = tl (sendto_results t)"
    and "max_tsdu_fragment t' = max_tsdu_fragment t"
  using assms
  by (auto simp: retry_send_fragment_def Let_def split: option.splits prod.splits if_splits
      dest!: pgm_sendto_script)

lemma send_fragment_step_decreases:
  assumes step: "send_fragment_step t apdu apdu_length resume cnt = Done (False, cnt', t')"
    and more: "st_data_bytes_offset (state t') < apdu_length"
    and live: "\<not> (max_tsdu_fragment t' = 0 \<and> sendto_results t' = [])"
  shows "loop_measure apdu_length False t' < loop_measure apdu_length resume t"
proof (cases resume)
  case True
  with step have r: "retry_send_fragment t cnt = Done (False, cnt', t')"
    by (simp add: send_fragment_step_def)
  from retry_send_fragment_next [OF r] show ?thesis
    using True by (simp add: loop_measure_def)
next
  case False
  let ?len = "min (max_tsdu_fragment t) (apdu_length - st_data_bytes_offset (state t))"
  let ?t1 = "t\<lparr>state := (state t)\<lparr>st_tsdu_length := ?len\<rparr>\<rparr>"
  from step False obtain skb where
    r: "retry_send_fragment (admit ?t1 skb) cnt = Done (False, cnt', t')"
    by (auto simp: send_fragment_step_def Let_def pgm_transport_max_tsdu_def
        split: outcome.splits)
  from retry_send_fragment_next [OF r]
  have off: "st_data_bytes_offset (state t') = st_data_bytes_offset (state t) + ?len"
    and scr: "sendto_results t' = tl (sendto_results t)"
    and mf: "max_tsdu_fragment t' = max_tsdu_fragment t"
    by (simp_all add: admit_def)
  show ?thesis
  proof (cases "max_tsdu_fragment t = 0")
    case True
    with live mf scr have "sendto_results t \<noteq> []" by auto
    with scr off True show ?thesis
      using False by (cases "sendto_results t") (simp_all add: loop_measure_def)
  next
    case nz: False
    from more off have "0 < ?len" using nz by (simp add: min_def split: if_splits)
    with more off scr show ?thesis
      using False by (simp add: loop_measure_def)
  qed
qed


text \<open>
  The \<open>do ... while (STATE(data_bytes_offset) < apdu_length)\<close> of
  \<open>pgm_transport_send\<close>. With a fragment size of 0 the offset stands still; once the
  socket has no more answers ready it takes every packet, and the loop never ends.
\<close>

function send_apdu_loop ::
  "pgm_transport \<Rightarrow> guint8 list \<Rightarrow> nat \<Rightarrow> bool \<Rightarrow> send_counts
     \<Rightarrow> (bool \<times> send_counts \<times> pgm_transport) outcome" where
  "send_apdu_loop transport apdu apdu_length resume cnt =
     (case send_fragment_step transport apdu apdu_length resume cnt of
        Crash c \<Rightarrow> Crash c
      | Done (blocked, cnt', t') \<Rightarrow>
          if blocked then Done (True, cnt', t')
          else if st_data_bytes_offset (state t') < apdu_length then
            (if max_tsdu_fragment t' = 0 \<and> sendto_results t' = [] then Crash Diverges
             else send_apdu_loop t' apdu apdu_length False cnt')
          else Done (False, cnt', t'))"
  by pat_completeness auto
termination
  by (relation "measure (\<lambda>(t, apdu, apdu_length, resume, cnt). loop_measure apdu_length resume t)")
     (auto intro: send_fragment_step_decreases)

declare send_apdu_loop.simps [simp del]

text \<open>
  After a fragmenting loop. At \<open>blocked\<close>: the heartbeat is reset and the counters
  are added only if a packet went out, and the call returns \<open>-1\<close> with \<open>EAGAIN\<close>.
  Otherwise: the assertion of the call if it has one, \<open>is_apdu_eagain\<close> cleared, the
  heartbeat reset, the counters added, and the return value of the call.
\<close>

definition apdu_end ::
  "world \<Rightarrow> (bool \<times> send_counts \<times> pgm_transport) outcome \<Rightarrow> (pgm_transport \<Rightarrow> bool)
     \<Rightarrow> (send_counts \<Rightarrow> pgm_transport \<Rightarrow> nat)
     \<Rightarrow> ((pgm_error + nat) \<times> pgm_transport) outcome" where
  "apdu_end w looped asserted retval =
     (case looped of
        Crash c \<Rightarrow> Crash c
      | Done (blocked, cnt, t) \<Rightarrow>
          if blocked then
            (if bytes_sent cnt \<noteq> 0 then
               (case pgm_reset_heartbeat_spm (w_time_after w) (w_now w) t of
                  Crash c \<Rightarrow> Crash c
                | Done (rv, t1) \<Rightarrow> Done (Inl WouldBlock, add_counts cnt t1))
             else Done (Inl WouldBlock, t))
          else if \<not> asserted t then Crash AssertionFailed
          else
            (case pgm_reset_heartbeat_spm (w_time_after w) (w_now w)
                    (t\<lparr>is_apdu_eagain := False\<rparr>) of
               Crash c \<Rightarrow> Crash c
             | Done (rv, t1) \<Rightarrow> Done (Inr (retval cnt t1), add_counts cnt t1)))"

text \<open>
  \<open>pgm_transport_send\<close>. The transport is never \<open>NULL\<close> in the send paths of the
  model; \<open>txw_sqns * max_tsdu_fragment\<close> is computed in \<open>gsize\<close>.
\<close>

definition pgm_transport_send ::
  "world \<Rightarrow> pgm_transport \<Rightarrow> guint8 list option \<Rightarrow> nat \<Rightarrow> send_flags
     \<Rightarrow> ((pgm_error + nat) \<times> pgm_transport) outcome" where
  "pgm_transport_send w transport apdu apdu_length flags =
     (if \<not> is_open transport then Done (Inl ConnectionReset, transport)
      else if apdu_length < max_tsdu transport
        then pgm_transport_send_one_copy w transport apdu apdu_length flags
      else
        (case apdu of
           None \<Rightarrow> Done (Inl InvalidArgument, transport)
         | Some bytes \<Rightarrow>
             if \<not> apdu_length \<le> unat (txw_sqns transport) * pgm_transport_max_tsdu transport True
               then Done (Inl MessageSize, transport)
             else if \<not> flags_ok flags then Crash AssertionFailed
             else if is_apdu_eagain transport then
               apdu_end w (send_apdu_loop transport bytes apdu_length True no_counts)
                 (\<lambda>t. st_data_bytes_offset (state t) = apdu_length) (\<lambda>cnt t. apdu_length)
             else
               (case rate_precheck w transport apdu_length flags of
                  Crash c \<Rightarrow> Crash c
                | Done (ok, t1) \<Rightarrow>
                    if \<not> ok then Done (Inl RateLimited, t1)
                    else
                      let t2 = t1\<lparr>state := (state t1)\<lparr>st_data_bytes_offset := 0,
                                   st_first_sqn := pgm_txw_next_lead (txw t1)\<rparr>\<rparr>
                      in apdu_end w (send_apdu_loop t2 bytes apdu_length False no_counts)
                           (\<lambda>t. st_data_bytes_offset (state t) = apdu_length)
                           (\<lambda>cnt t. apdu_length))))"


text \<open>
  The scatter/gather copy of \<open>pgm_transport_sendv\<close> for one packet: from
  \<open>vector[vector_index]\<close> at \<open>vector_offset\<close> on, \<open>tsdu_length\<close> bytes are
  copied; the result is the place in the vector where the next packet starts, and the
  payload. The loop does not look at \<open>count\<close>. An element read past the end of the
  array, an offset past the element or a \<open>dst_length\<close> past the payload is
  \<open>OutOfBounds\<close>.
\<close>

function gather_tsdu ::
  "pgm_iovec list \<Rightarrow> nat \<Rightarrow> nat \<Rightarrow> nat \<Rightarrow> nat \<Rightarrow> guint8 list
     \<Rightarrow> (nat \<times> nat \<times> guint8 list) outcome" where
  "gather_tsdu vector tsdu_length vector_index vector_offset dst_length dst =
     (if length vector \<le> vector_index then Crash OutOfBounds
      else if iov_len (vector ! vector_index) < vector_offset \<or> tsdu_length < dst_length
        then Crash OutOfBounds
      else
        let src_length = iov_len (vector ! vector_index) - vector_offset;
            copy_length = min (tsdu_length - dst_length) src_length;
            vector_index1 = (if copy_length = src_length then vector_index + 1 else vector_index);
            vector_offset1 = (if copy_length = src_length then 0 else vector_offset + copy_length)
        in case read_bytes (iov_base (vector ! vector_index)) vector_offset copy_length of
             Crash c \<Rightarrow> Crash c
           | Done bytes \<Rightarrow>
               if dst_length + copy_length = tsdu_length
               then Done (vector_index1, vector_offset1, dst @ bytes)
               else gather_tsdu vector tsdu_length vector_index1 vector_offset1
                      (dst_length + copy_length) (dst @ bytes))"
  by pat_completeness auto
termination
  by (relation "measure (\<lambda>(vector, tsdu_length, vi, vo, dl, dst). length vector - vi)")
     (auto simp: min_def split: if_splits)

declare gather_tsdu.simps [simp del]


text \<open>One round of the one-APDU loop of \<open>pgm_transport_sendv\<close>.\<close>

definition sendv_fragment_step ::
  "pgm_transport \<Rightarrow> pgm_iovec list \<Rightarrow> nat \<Rightarrow> bool \<Rightarrow> send_counts
     \<Rightarrow> (bool \<times> send_counts \<times> pgm_transport) outcome" where
  "sendv_fragment_step transport vector count resume cnt =
     (if resume then retry_send_fragment transport cnt
      else
        let t1 = transport\<lparr>state := (state transport)\<lparr>st_tsdu_length :=
                   min (pgm_transport_max_tsdu transport True)
                       (st_apdu_length (state transport) - st_data_bytes_offset (state transport))\<rparr>\<rparr>
        in case gather_tsdu vector (st_tsdu_length (state t1))
                  (st_vector_index (state t1)) (st_vector_offset (state t1)) 0 [] of
             Crash c \<Rightarrow> Crash c
           | Done (vector_index, vector_offset, payload) \<Rightarrow>
               let skb = odata_fragment t1
                           (pgm_transport_pkt_offset True + st_tsdu_length (state t1))
                           (st_apdu_length (state t1)) payload;
                   t2 = t1\<lparr>state := (state t1)\<lparr>st_vector_index := vector_index,
                                                   st_vector_offset := vector_offset\<rparr>\<rparr>
               in retry_send_fragment (admit t2 skb) cnt)"

lemma retry_send_fragment_apdu_length:
  assumes "retry_send_fragment t cnt = Done (b, cnt', t')"
  shows "st_apdu_length (state t') = st_apdu_length (state t)"
  using assms
  by (auto simp: retry_send_fragment_def Let_def split: option.splits prod.splits if_splits
      dest!: pgm_sendto_script)

lemma sendv_fragment_step_decreases:
  assumes step: "sendv_fragment_step t vector count resume cnt = Done (False, cnt', t')"
    and more: "st_data_bytes_offset (state t') < st_apdu_length (state t')"
    and live: "\<not> (max_tsdu_fragment t' = 0 \<and> sendto_results t' = [])"
  shows "loop_measure (st_apdu_length (state t')) False t'
           < loop_measure (st_apdu_length (state t)) resume t"
proof (cases resume)
  case True
  with step have r: "retry_send_fragment t cnt = Done (False, cnt', t')"
    by (simp add: sendv_fragment_step_def)
  from retry_send_fragment_next [OF r] retry_send_fragment_apdu_length [OF r] show ?thesis
    using True by (simp add: loop_measure_def)
next
  case False
  let ?A = "st_apdu_length (state t)"
  let ?len = "min (max_tsdu_fragment t) (?A - st_data_bytes_offset (state t))"
  let ?t1 = "t\<lparr>state := (state t)\<lparr>st_tsdu_length := ?len\<rparr>\<rparr>"
  from step False obtain skb vi vo where
    r: "retry_send_fragment
          (admit (?t1\<lparr>state := (state ?t1)\<lparr>st_vector_index := vi, st_vector_offset := vo\<rparr>\<rparr>) skb)
          cnt = Done (False, cnt', t')"
    by (auto simp: sendv_fragment_step_def Let_def pgm_transport_max_tsdu_def
        split: outcome.splits)
  from retry_send_fragment_next [OF r] retry_send_fragment_apdu_length [OF r]
  have off: "st_data_bytes_offset (state t') = st_data_bytes_offset (state t) + ?len"
    and scr: "sendto_results t' = tl (sendto_results t)"
    and mf: "max_tsdu_fragment t' = max_tsdu_fragment t"
    and al: "st_apdu_length (state t') = ?A"
    by (simp_all add: admit_def)
  show ?thesis
  proof (cases "max_tsdu_fragment t = 0")
    case True
    with live mf scr have "sendto_results t \<noteq> []" by auto
    with scr off True al show ?thesis
      using False by (cases "sendto_results t") (simp_all add: loop_measure_def)
  next
    case nz: False
    from more off al have "0 < ?len" using nz by (simp add: min_def split: if_splits)
    with more off scr al show ?thesis
      using False by (simp add: loop_measure_def)
  qed
qed

text \<open>
  The \<open>do ... while (STATE(data_bytes_offset) < STATE(apdu_length))\<close> of
  \<open>pgm_transport_sendv\<close>.
\<close>

function sendv_apdu_loop ::
  "pgm_transport \<Rightarrow> pgm_iovec list \<Rightarrow> nat \<Rightarrow> bool \<Rightarrow> send_counts
     \<Rightarrow> (bool \<times> send_counts \<times> pgm_transport) outcome" where
  "sendv_apdu_loop transport vector count resume cnt =
     (case sendv_fragment_step transport vector count resume cnt of
        Crash c \<Rightarrow> Crash c
      | Done (blocked, cnt', t') \<Rightarrow>
          if blocked then Done (True, cnt', t')
          else if st_data_bytes_offset (state t') < st_apdu_length (state t') then
            (if max_tsdu_fragment t' = 0 \<and> sendto_results t' = [] then Crash Diverges
             else sendv_apdu_loop t' vector count False cnt')
          else Done (False, cnt', t'))"
  by pat_completeness auto
termination
  by (relation "measure (\<lambda>(t, vector, count, resume, cnt).
                  loop_measure (st_apdu_length (state t)) resume t)")
     (auto intro: sendv_fragment_step_decreases)

declare sendv_apdu_loop.simps [simp del]


lemma reset_heartbeat_state:
  "pgm_reset_heartbeat_spm after now t = Done (rv, t') \<Longrightarrow> state t' = state t"
  by (auto simp: pgm_reset_heartbeat_spm_def Let_def split: outcome.splits prod.splits if_splits)

lemma add_counts_state [simp]: "state (add_counts cnt t) = state t"
  by (simp add: add_counts_def)

lemma retry_send_one_state:
  "retry_send_one w t n = Done (r, t') \<Longrightarrow> state t' = state t"
  by (auto simp: retry_send_one_def Let_def
      split: option.splits prod.splits if_splits outcome.splits
      dest!: pgm_sendto_script reset_heartbeat_state)

lemma send_one_copy_pkt_offset:
  "pgm_transport_send_one_copy w t tsdu n flags = Done (r, t')
     \<Longrightarrow> st_data_pkt_offset (state t') = st_data_pkt_offset (state t)"
  by (auto simp: pgm_transport_send_one_copy_def admit_def split: if_splits outcome.splits
      dest!: retry_send_one_state)

lemma retry_send_fragment_frame:
  assumes "retry_send_fragment t cnt = Done (b, cnt', t')"
  shows "st_data_pkt_offset (state t') = st_data_pkt_offset (state t)"
    and "st_vector_index (state t') = st_vector_index (state t)"
  using assms
  by (auto simp: retry_send_fragment_def Let_def split: option.splits prod.splits if_splits
      dest!: pgm_sendto_script)

lemma send_fragment_step_pkt_offset:
  "send_fragment_step t apdu n resume cnt = Done (b, cnt', t')
     \<Longrightarrow> st_data_pkt_offset (state t') = st_data_pkt_offset (state t)"
  by (auto simp: send_fragment_step_def Let_def admit_def split: if_splits outcome.splits
      dest!: retry_send_fragment_frame(1))

lemma send_apdu_loop_pkt_offset:
  "send_apdu_loop t apdu n resume cnt = Done (b, cnt', t')
     \<Longrightarrow> st_data_pkt_offset (state t') = st_data_pkt_offset (state t)"
proof (induction t apdu n resume cnt rule: send_apdu_loop.induct)
  case (1 t apdu n resume cnt)
  from "1.prems" obtain b1 c1 t1 where
    step: "send_fragment_step t apdu n resume cnt = Done (b1, c1, t1)"
    by (subst (asm) send_apdu_loop.simps) (auto split: outcome.splits)
  note f = send_fragment_step_pkt_offset [OF step]
  show ?case
  proof (cases "\<not> b1 \<and> st_data_bytes_offset (state t1) < n
                \<and> \<not> (max_tsdu_fragment t1 = 0 \<and> sendto_results t1 = [])")
    case True
    with "1.prems" step have "send_apdu_loop t1 apdu n False c1 = Done (b, cnt', t')"
      by (subst (asm) send_apdu_loop.simps) auto
    with "1.IH" [OF step refl refl] True f show ?thesis by auto
  next
    case False
    with "1.prems" step f show ?thesis
      by (subst (asm) send_apdu_loop.simps) (auto split: if_splits)
  qed
qed

lemma apdu_end_state:
  "apdu_end w (Done (b, cnt, t)) asserted retval = Done (r, t') \<Longrightarrow> state t' = state t"
  by (auto simp: apdu_end_def split: if_splits outcome.splits dest!: reset_heartbeat_state)

lemma rate_precheck_pkt_offset:
  "rate_precheck w t n flags = Done (ok, t')
     \<Longrightarrow> st_data_pkt_offset (state t') = st_data_pkt_offset (state t)"
  by (auto simp: rate_precheck_def Let_def split: if_splits outcome.splits)

lemma pgm_transport_send_pkt_offset:
  assumes "pgm_transport_send w t apdu n flags = Done (r, t')"
  shows "st_data_pkt_offset (state t') = st_data_pkt_offset (state t)"
proof (cases "\<not> is_open t \<or> apdu = None \<or> n < max_tsdu t
     \<or> \<not> n \<le> unat (txw_sqns t) * pgm_transport_max_tsdu t True")
  case True
  with assms show ?thesis
    by (auto simp: pgm_transport_send_def split: if_splits option.splits
        dest!: send_one_copy_pkt_offset)
next
  case False
  then obtain bytes where b: "apdu = Some bytes" by auto
  show ?thesis
  proof (cases "is_apdu_eagain t")
    case True
    with assms False b obtain bl c1 t1 where
      l: "send_apdu_loop t bytes n True no_counts = Done (bl, c1, t1)"
      and e: "apdu_end w (Done (bl, c1, t1)) (\<lambda>t. st_data_bytes_offset (state t) = n)
               (\<lambda>cnt t. n) = Done (r, t')"
      by (cases "send_apdu_loop t bytes n True no_counts")
         (auto simp: pgm_transport_send_def apdu_end_def split: if_splits)
    from send_apdu_loop_pkt_offset [OF l] apdu_end_state [OF e] show ?thesis by simp
  next
    case ne: False
    show ?thesis
    proof (cases "rate_precheck w t n flags")
      case (Crash c)
      with assms False b ne show ?thesis
        by (auto simp: pgm_transport_send_def split: if_splits)
    next
      case (Done p)
      obtain ok t1 where p: "p = (ok, t1)" by (cases p)
      note rp = rate_precheck_pkt_offset [OF Done [unfolded p]]
      show ?thesis
      proof (cases ok)
        case False
        with assms \<open>\<not> (\<not> is_open t \<or> apdu = None \<or> n < max_tsdu t
           \<or> \<not> n \<le> unat (txw_sqns t) * pgm_transport_max_tsdu t True)\<close> b ne Done p rp
        show ?thesis by (auto simp: pgm_transport_send_def split: if_splits)
      next
        case True
        let ?t2 = "t1\<lparr>state := (state t1)\<lparr>st_data_bytes_offset := 0,
                     st_first_sqn := pgm_txw_next_lead (txw t1)\<rparr>\<rparr>"
        from assms \<open>\<not> (\<not> is_open t \<or> apdu = None \<or> n < max_tsdu t
           \<or> \<not> n \<le> unat (txw_sqns t) * pgm_transport_max_tsdu t True)\<close> b ne Done p True
        obtain bl c1 t3 where
          l: "send_apdu_loop ?t2 bytes n False no_counts = Done (bl, c1, t3)"
          and e: "apdu_end w (Done (bl, c1, t3)) (\<lambda>t. st_data_bytes_offset (state t) = n)
               (\<lambda>cnt t. n) = Done (r, t')"
          by (cases "send_apdu_loop ?t2 bytes n False no_counts")
             (auto simp: pgm_transport_send_def apdu_end_def Let_def split: if_splits)
        from send_apdu_loop_pkt_offset [OF l] apdu_end_state [OF e] rp show ?thesis by simp
      qed
    qed
  qed
qed


text \<open>
  \<open>errno\<close> when \<open>pgm_transport_send\<close> has returned from the send of
  \<open>vector[i]\<close>: what the call set, or what was there before it.
\<close>

definition errno_after_send :: "world \<Rightarrow> nat \<Rightarrow> pgm_error + nat \<Rightarrow> errno_value" where
  "errno_after_send w i sent =
     (case sent of
        Inl ConnectionReset \<Rightarrow> ECONNRESET
      | Inl WouldBlock \<Rightarrow> EAGAIN
      | Inl RateLimited \<Rightarrow> EAGAIN
      | Inl InvalidArgument \<Rightarrow> w_errno w i
      | Inl MessageSize \<Rightarrow> w_errno w i
      | Inr n \<Rightarrow> w_errno w i)"

text \<open>
  The loop of \<open>pgm_transport_sendv\<close> over a vector of APDUs, one
  \<open>pgm_transport_send\<close> each, from \<open>STATE(data_pkt_offset)\<close> on; a resumed call
  enters it at the call. The test is \<open>sent < 0 && errno == EAGAIN\<close>: a negative
  result with \<open>EAGAIN\<close> sets \<open>is_apdu_eagain\<close> and returns \<open>-1\<close>, also when
  the result is \<open>-EINVAL\<close> or \<open>-EMSGSIZE\<close> and the \<open>EAGAIN\<close> is an old one;
  any other result goes on to the next APDU, and an APDU counts if the call returned
  its length.
\<close>

function sendv_apdus_loop ::
  "world \<Rightarrow> pgm_transport \<Rightarrow> pgm_iovec list \<Rightarrow> nat \<Rightarrow> send_flags \<Rightarrow> bool \<Rightarrow> nat
     \<Rightarrow> ((pgm_error + nat) \<times> pgm_transport) outcome" where
  "sendv_apdus_loop w transport vector count flags resume bytes_so_far =
     (if \<not> resume \<and> \<not> st_data_pkt_offset (state transport) < count
        then Done (Inr bytes_so_far, transport\<lparr>is_apdu_eagain := False\<rparr>)
      else if length vector \<le> st_data_pkt_offset (state transport) then Crash OutOfBounds
      else
        (case pgm_transport_send w transport
                (iov_base (vector ! st_data_pkt_offset (state transport)))
                (iov_len (vector ! st_data_pkt_offset (state transport))) flags of
           Crash c \<Rightarrow> Crash c
         | Done (sent, t1) \<Rightarrow>
             if (case sent of Inl e \<Rightarrow> True | Inr n \<Rightarrow> False)
                \<and> errno_after_send w (st_data_pkt_offset (state transport)) sent = EAGAIN
               then Done (Inl WouldBlock, t1\<lparr>is_apdu_eagain := True\<rparr>)
             else
               sendv_apdus_loop w
                 (t1\<lparr>state := (state t1)\<lparr>st_data_pkt_offset :=
                        st_data_pkt_offset (state t1) + 1\<rparr>\<rparr>)
                 vector count flags False
                 (if sent = Inr (iov_len (vector ! st_data_pkt_offset (state transport)))
                  then bytes_so_far + iov_len (vector ! st_data_pkt_offset (state transport))
                  else bytes_so_far)))"
  by pat_completeness auto
termination
  by (relation "measure (\<lambda>(w, t, vector, count, flags, resume, dbs).
                  (count - st_data_pkt_offset (state t)) + (if resume then 1 else 0))")
     (auto dest!: pgm_transport_send_pkt_offset)

declare sendv_apdus_loop.simps [simp del]

text \<open>
  \<open>pgm_transport_sendv\<close>. The loop that adds up the wire size for its rate check
  keeps the offset in a \<open>guint\<close>: for an APDU of \<open>2^32\<close> bytes or more the
  offset, below \<open>2^32\<close>, never reaches the length, and the loop does not end.
\<close>

definition pgm_transport_sendv ::
  "world \<Rightarrow> pgm_transport \<Rightarrow> pgm_iovec list option \<Rightarrow> nat \<Rightarrow> send_flags \<Rightarrow> bool
     \<Rightarrow> ((pgm_error + nat) \<times> pgm_transport) outcome" where
  "pgm_transport_sendv w transport vector_ptr count flags is_one_apdu =
     (if \<not> is_open transport then Done (Inl ConnectionReset, transport)
      else if count = 0 then pgm_transport_send_one_copy w transport None count flags
      else
        (case vector_ptr of
           None \<Rightarrow> Done (Inl InvalidArgument, transport)
         | Some vector \<Rightarrow>
             if \<not> flags_ok flags then Crash AssertionFailed
             else if is_apdu_eagain transport then
               (if is_one_apdu then
                  (if st_apdu_length (state transport) < max_tsdu transport
                   then pgm_transport_send_onev w transport vector_ptr count flags
                   else apdu_end w (sendv_apdu_loop transport vector count True no_counts)
                          (\<lambda>t. st_data_bytes_offset (state t) = st_apdu_length (state t))
                          (\<lambda>cnt t. st_apdu_length (state t)))
                else sendv_apdus_loop w transport vector count flags True 0)
             else
               (case iov_total vector count 0 0 of
                  Crash c \<Rightarrow> Crash c
                | Done apdu_length \<Rightarrow>
                    let t1 = transport\<lparr>state := (state transport)\<lparr>st_apdu_length := apdu_length\<rparr>\<rparr>
                    in
                    if is_one_apdu \<and> apdu_length < max_tsdu t1
                      then pgm_transport_send_onev w t1 vector_ptr count flags
                    else if \<not> apdu_length \<le> unat (txw_sqns t1) * pgm_transport_max_tsdu t1 True
                      then Done (Inl MessageSize, t1)
                    else if msg_dontwait flags \<and> msg_waitall flags \<and> 2 ^ 32 \<le> apdu_length
                      then Crash Diverges
                    else
                      (case rate_precheck w t1 apdu_length flags of
                         Crash c \<Rightarrow> Crash c
                       | Done (ok, t2) \<Rightarrow>
                           if \<not> ok then Done (Inl RateLimited, t2)
                           else if \<not> is_one_apdu then
                             sendv_apdus_loop w
                               (t2\<lparr>state := (state t2)\<lparr>st_data_pkt_offset := 0\<rparr>\<rparr>)
                               vector count flags False 0
                           else
                             let t3 = t2\<lparr>state := (state t2)\<lparr>st_data_bytes_offset := 0,
                                          st_vector_index := 0, st_vector_offset := 0,
                                          st_first_sqn := pgm_txw_next_lead (txw t2)\<rparr>\<rparr>
                             in apdu_end w (sendv_apdu_loop t3 vector count False no_counts)
                                  (\<lambda>t. st_data_bytes_offset (state t) = st_apdu_length (state t))
                                  (\<lambda>cnt t. st_apdu_length (state t))))))"

text \<open>
  The two loops of \<open>pgm_transport_send_skbv\<close> that run before its packets: the wire
  size for the rate check, and for one APDU the sum of the lengths, which stops with
  \<open>False\<close> (\<open>-EMSGSIZE\<close>) at a buffer longer than a fragment.
\<close>

function skbv_wire_size ::
  "pgm_sk_buff list \<Rightarrow> nat \<Rightarrow> nat \<Rightarrow> nat \<Rightarrow> nat \<Rightarrow> nat outcome" where
  "skbv_wire_size vector count per_packet i total_tpdu_length =
     (if i < count then
        (if length vector \<le> i then Crash OutOfBounds
         else skbv_wire_size vector count per_packet (i + 1)
                (total_tpdu_length + per_packet + skb_len (vector ! i)))
      else Done total_tpdu_length)"
  by pat_completeness auto
termination
  by (relation "measure (\<lambda>(vector, count, per_packet, i, acc). count - i)") auto

declare skbv_wire_size.simps [simp del]

function skbv_apdu_length ::
  "pgm_sk_buff list \<Rightarrow> nat \<Rightarrow> nat \<Rightarrow> nat \<Rightarrow> nat \<Rightarrow> (bool \<times> nat) outcome" where
  "skbv_apdu_length vector count max_fragment i apdu_length =
     (if i < count then
        (if length vector \<le> i then Crash OutOfBounds
         else if \<not> skb_len (vector ! i) \<le> max_fragment then Done (False, apdu_length)
         else skbv_apdu_length vector count max_fragment (i + 1)
                (apdu_length + skb_len (vector ! i)))
      else Done (True, apdu_length))"
  by pat_completeness auto
termination
  by (relation "measure (\<lambda>(vector, count, max_fragment, i, acc). count - i)") auto

declare skbv_apdu_length.simps [simp del]

text \<open>
  One round of the loop of \<open>pgm_transport_send_skbv\<close> over the buffers the caller
  filled: the header goes in front of the payload, with an \<open>OPT_FRAGMENT\<close> stamped
  from the resume state if the vector is one APDU. Before the packet is added to the
  window its payload checksum is read from
  \<open>(guint8*)(STATE(skb)->pgm_opt_fragment + 1)\<close>, on both branches. The function
  sets that pointer only for one APDU; otherwise it is what the caller left in the
  buffer, and with \<open>NULL\<close> there and a payload to read the round stops at the
  read.
\<close>

definition skbv_step ::
  "pgm_transport \<Rightarrow> pgm_sk_buff list \<Rightarrow> bool \<Rightarrow> bool \<Rightarrow> send_counts
     \<Rightarrow> (bool \<times> send_counts \<times> pgm_transport) outcome" where
  "skbv_step transport vector is_one_apdu resume cnt =
     (if resume then retry_send_fragment transport cnt
      else if length vector \<le> st_vector_index (state transport) then Crash OutOfBounds
      else
        let v = vector ! st_vector_index (state transport);
            t1 = transport\<lparr>state := (state transport)\<lparr>st_tsdu_length := skb_len v\<rparr>\<rparr>;
            skb = (if is_one_apdu
                   then odata_fragment t1 (skb_len v + pgm_transport_pkt_offset True)
                          (st_apdu_length (state t1)) (skb_tsdu v)
                   else (odata_packet t1 (st_tsdu_length (state t1)) (skb_tsdu v))
                          \<lparr>skb_len := skb_len v + pgm_transport_pkt_offset False,
                           pgm_opt_fragment := pgm_opt_fragment v\<rparr>)
        in if pgm_opt_fragment skb = None \<and> st_tsdu_length (state t1) \<noteq> 0
           then Crash NullDereference
           else retry_send_fragment (admit t1 skb) cnt)"

lemma skbv_step_vector_index:
  "skbv_step t vector one resume cnt = Done (b, cnt', t')
     \<Longrightarrow> st_vector_index (state t') = st_vector_index (state t)"
  by (auto simp: skbv_step_def Let_def admit_def split: if_splits
      dest!: retry_send_fragment_frame(2))

text \<open>
  The \<open>for (STATE(vector_index) = 0; STATE(vector_index) < count; ...)\<close> of
  \<open>pgm_transport_send_skbv\<close>; a resumed call enters the first round at
  \<open>retry_send\<close>.
\<close>

function skbv_loop ::
  "pgm_transport \<Rightarrow> pgm_sk_buff list \<Rightarrow> nat \<Rightarrow> bool \<Rightarrow> bool \<Rightarrow> send_counts
     \<Rightarrow> (bool \<times> send_counts \<times> pgm_transport) outcome" where
  "skbv_loop transport vector count is_one_apdu resume cnt =
     (if \<not> resume \<and> \<not> st_vector_index (state transport) < count
        then Done (False, cnt, transport)
      else
        (case skbv_step transport vector is_one_apdu resume cnt of
           Crash c \<Rightarrow> Crash c
         | Done (blocked, cnt', t') \<Rightarrow>
             if blocked then Done (True, cnt', t')
             else skbv_loop
                    (t'\<lparr>state := (state t')\<lparr>st_vector_index := st_vector_index (state t') + 1\<rparr>\<rparr>)
                    vector count is_one_apdu False cnt'))"
  by pat_completeness auto
termination
  by (relation "measure (\<lambda>(t, vector, count, one, resume, cnt).
                  (count - st_vector_index (state t)) + (if resume then 1 else 0))")
     (auto dest!: skbv_step_vector_index)

declare skbv_loop.simps [simp del]

text \<open>
  \<open>pgm_transport_send_skbv\<close>. It returns \<open>data_bytes_sent\<close>; its closing
  assertion is compiled only with \<open>TRANSPORT_DEBUG\<close>.
\<close>

definition pgm_transport_send_skbv ::
  "world \<Rightarrow> pgm_transport \<Rightarrow> pgm_sk_buff list option \<Rightarrow> nat \<Rightarrow> send_flags \<Rightarrow> bool
     \<Rightarrow> ((pgm_error + nat) \<times> pgm_transport) outcome" where
  "pgm_transport_send_skbv w transport vector_ptr count flags is_one_apdu =
     (if \<not> is_open transport then Done (Inl ConnectionReset, transport)
      else if count = 0 then pgm_transport_send_one_copy w transport None count flags
      else
        (case vector_ptr of
           None \<Rightarrow> Done (Inl InvalidArgument, transport)
         | Some vector \<Rightarrow>
             if count = 1 then
               (if vector = [] then Crash OutOfBounds
                else pgm_transport_send_one w transport (Some (vector ! 0)) flags)
             else if \<not> flags_ok flags then Crash AssertionFailed
             else if is_apdu_eagain transport then
               apdu_end w (skbv_loop transport vector count is_one_apdu True no_counts)
                 (\<lambda>t. True) (\<lambda>cnt t. data_bytes_sent cnt)
             else
               let t1 = transport\<lparr>state := (state transport)\<lparr>st_is_rate_limited := False\<rparr>\<rparr> in
               (case (if msg_dontwait flags \<and> msg_waitall flags then
                        (case skbv_wire_size vector count
                                (iphdr_len t1 + pgm_transport_pkt_offset is_one_apdu) 0 0 of
                           Crash c \<Rightarrow> Crash c
                         | Done total_tpdu_length \<Rightarrow>
                             if \<not> w_rate_check w (total_tpdu_length - iphdr_len t1)
                               then Done (False, t1)
                             else Done (True,
                                    t1\<lparr>state := (state t1)\<lparr>st_is_rate_limited := True\<rparr>\<rparr>))
                      else Done (True, t1)) of
                  Crash c \<Rightarrow> Crash c
                | Done (ok, t2) \<Rightarrow>
                    if \<not> ok then Done (Inl RateLimited, t2)
                    else
                      (case (if is_one_apdu then
                               (case skbv_apdu_length vector count (max_tsdu_fragment t2) 0 0 of
                                  Crash c \<Rightarrow> Crash c
                                | Done (fits, apdu_length) \<Rightarrow>
                                    Done (fits,
                                      t2\<lparr>state := (state t2)\<lparr>st_apdu_length := apdu_length,
                                           st_first_sqn := pgm_txw_next_lead (txw t2)\<rparr>\<rparr>))
                             else Done (True, t2)) of
                         Crash c \<Rightarrow> Crash c
                       | Done (fits, t3) \<Rightarrow>
                           if \<not> fits then Done (Inl MessageSize, t3)
                           else
                             apdu_end w
                               (skbv_loop (t3\<lparr>state := (state t3)\<lparr>st_vector_index := 0\<rparr>\<rparr>)
                                  vector count is_one_apdu False no_counts)
                               (\<lambda>t. True) (\<lambda>cnt t. data_bytes_sent cnt)))))"


text \<open>
  The same with the statistics: between \<open>t\<close> and \<open>t'\<close> neither the heartbeat
  fields nor a counter has changed.
\<close>

definition send_kept :: "pgm_transport \<Rightarrow> pgm_transport \<Rightarrow> bool" where
  "send_kept t t' = (heartbeat_kept t t' \<and> cumulative_stats t' = cumulative_stats t)"

text \<open>
  Between \<open>t\<close> and \<open>t'\<close> an ODATA packet was counted as sent, which the send paths
  do for a packet that the socket took whole.
\<close>

definition odata_counted :: "pgm_transport \<Rightarrow> pgm_transport \<Rightarrow> bool" where
  "odata_counted t t' =
     (cumulative_stats t' PGM_PC_SOURCE_DATA_MSGS_SENT
        \<noteq> cumulative_stats t PGM_PC_SOURCE_DATA_MSGS_SENT)"

text \<open>
  The two ways a send call can end: with the heartbeat reset and the timer prodded, or
  with the heartbeat fields and the counters as they were.
\<close>

definition reset_or_kept :: "world \<Rightarrow> pgm_transport \<Rightarrow> pgm_transport \<Rightarrow> bool" where
  "reset_or_kept w t t' =
     ((heartbeat_reset_to (w_now w) t t' \<and> timer_prodded (w_time_after w) t t')
      \<or> send_kept t t')"

subsection \<open>Configuration setters\<close>

text \<open>The loop of \<open>pgm_transport_set_heartbeat_spm\<close> that rejects an interval of 0.\<close>

fun heartbeat_intervals_positive :: "guint32 list \<Rightarrow> bool" where
  "heartbeat_intervals_positive [] = True"
| "heartbeat_intervals_positive (x # xs) = (if x > 0 then heartbeat_intervals_positive xs else False)"

text \<open>\<open>memcpy (&dst[off], src, sizeof(guint) * length src)\<close> into an array of cells.\<close>

definition memcpy_cells :: "'a option list \<Rightarrow> nat \<Rightarrow> 'a list \<Rightarrow> 'a option list" where
  "memcpy_cells dst off src = take off dst @ map Some src @ drop (off + length src) dst"

text \<open>
  \<open>pgm_transport_set_heartbeat_spm\<close>. The array and its \<open>len\<close> are one list. The
  new array has \<open>len + 2\<close> cells, none written; the intervals are copied to cells
  \<open>1 .. len\<close>; then cell \<open>len\<close> and cell \<open>0\<close> are set to 0.
\<close>

definition pgm_transport_set_heartbeat_spm ::
  "pgm_transport option \<Rightarrow> guint32 list \<Rightarrow> (pgm_error + unit) \<times> pgm_transport option" where
  "pgm_transport_set_heartbeat_spm transport intervals =
     (let len = length intervals in
      case transport of
        None \<Rightarrow> (Inl InvalidArgument, None)
      | Some t \<Rightarrow>
          if is_bound t then (Inl InvalidArgument, transport)
          else if \<not> len > 0 then (Inl InvalidArgument, transport)
          else if \<not> heartbeat_intervals_positive intervals then (Inl InvalidArgument, transport)
          else
            let a0 = replicate (len + 2) None;
                a1 = memcpy_cells a0 1 intervals;
                a2 = a1[len := Some 0];
                a3 = a2[0 := Some 0]
            in (Inr (), Some (t\<lparr>spm_heartbeat_interval := Some a3\<rparr>)))"

text \<open>\<open>pgm_transport_set_txw_sqns\<close>, with its four guards in the order of the source.\<close>

definition pgm_transport_set_txw_sqns ::
  "pgm_transport option \<Rightarrow> guint32 \<Rightarrow> (pgm_error + unit) \<times> pgm_transport option" where
  "pgm_transport_set_txw_sqns transport sqns =
     (case transport of
        None \<Rightarrow> (Inl InvalidArgument, None)
      | Some t \<Rightarrow>
          if is_bound t then (Inl InvalidArgument, transport)
          else if \<not> sqns < (UINT32_MAX div 2) - 1 then (Inl InvalidArgument, transport)
          else if \<not> sqns > 0 then (Inl InvalidArgument, transport)
          else (Inr (), Some (t\<lparr>txw_sqns := sqns\<rparr>)))"

subsection \<open>A transport to run the model on\<close>

definition empty_skb :: pgm_sk_buff where
  "empty_skb = \<lparr>skb_len = 0, skb_sequence = 0, skb_zero_padded = False, pgm_type = 0,
     pgm_options = 0, pgm_tsdu_length = 0, data_sqn = 0, data_trail = 0,
     pgm_opt_fragment = None, skb_tsdu = []\<rparr>"

definition fresh_state :: pkt_dontwait_state where
  "fresh_state = \<lparr>st_skb = None, st_tsdu_length = 0, st_apdu_length = 0,
     st_data_bytes_offset = 0, st_first_sqn = 0, st_vector_index = 0, st_vector_offset = 0,
     st_data_pkt_offset = 0, st_is_rate_limited = False\<rparr>"

text \<open>
  An unbound transport as it is before any setter ran, with an IPv4 source address and
  group, an MTU of 1500 and a window of 32 packets that starts empty at sequence 0 (its
  lead is one before 0).
\<close>

definition fresh_transport :: pgm_transport where
  "fresh_transport = \<lparr>is_bound = False, is_open = False, spm_heartbeat_interval = None,
     spm_heartbeat_state = 0, next_heartbeat_spm = 0, next_poll = 0, txw_sqns = 32,
     use_ondemand_parity = False, use_proactive_parity = False, rs_n = 0, rs_k = 0,
     rs_proactive_h = 0, tg_sqn_shift = 0, max_tpdu = 1500, max_tsdu = 1456,
     max_tsdu_fragment = 1440, iphdr_len = 20, send_addr = Sockaddr_in 0x0A000001,
     send_gsr_group = Sockaddr_in 0xEF010101, is_apdu_eagain = False, state = fresh_state,
     txw = \<lparr>txw_capacity = 32, txw_trail = 0, txw_lead = - 1, txw_pkts = [],
       txw_retransmit_queue = []\<rparr>,
     parity_buffer = empty_skb, cumulative_stats = (\<lambda>_. 0),
     timer_notify = \<lparr>pending = 0, broken = False\<rparr>,
     rdata_notify = \<lparr>pending = 0, broken = False\<rparr>,
     sendto_results = [], wire = []\<rparr>"

text \<open>The same transport bound and open, with one heartbeat interval of 100 ms.\<close>

definition open_transport :: pgm_transport where
  "open_transport = fresh_transport\<lparr>is_bound := True, is_open := True,
     spm_heartbeat_interval := Some [Some 0, Some 100000, Some 0]\<rparr>"

text \<open>
  NAKs from the transport's own address and group for sequence number 5: one without
  options, one whose \<open>OPT_NAK_LIST\<close> of length 8 lists sequence number 7, and one whose
  \<open>OPT_NAK_LIST\<close> declares the length 0.
\<close>

definition plain_nak :: pgm_nak where
  "plain_nak = \<lparr>nak_sqn = 5, nak_src_nla = Sockaddr_in 0x0A000001,
     nak_grp_nla = Sockaddr_in 0xEF010101, nak_opts = []\<rparr>"

definition listed_nak :: pgm_nak where
  "listed_nak = plain_nak\<lparr>nak_opts := [0x00, 0x04, 0x00, 0x0C, 0x82, 0x08, 0x00, 0x00,
     0x00, 0x00, 0x00, 0x07]\<rparr>"

definition short_list_nak :: pgm_nak where
  "short_list_nak = plain_nak\<lparr>nak_opts := [0x00, 0x04, 0x00, 0x07, 0x82, 0x00, 0x00]\<rparr>"

text \<open>A \<open>pgm_verify_nak\<close> that accepts every packet.\<close>

definition verify_ok :: "pgm_header \<Rightarrow> pgm_nak \<Rightarrow> pgm_error + unit" where
  "verify_ok header nak = Inr ()"

text \<open>
  The open transport with one packet of 100 bytes in its window, sequence number 0,
  and a selective repair of it queued.
\<close>

definition buffered_skb :: pgm_sk_buff where
  "buffered_skb = \<lparr>skb_len = 124, skb_sequence = 0, skb_zero_padded = False,
     pgm_type = PGM_ODATA, pgm_options = 0, pgm_tsdu_length = 100, data_sqn = 0, data_trail = 0,
     pgm_opt_fragment = None, skb_tsdu = replicate 100 0\<rparr>"

definition repair_transport :: pgm_transport where
  "repair_transport = open_transport\<lparr>next_poll := 1000000000,
     txw := \<lparr>txw_capacity = 32, txw_trail = 0, txw_lead = 0, txw_pkts = [buffered_skb],
       txw_retransmit_queue = [\<lparr>rq_sqn = 0, rq_is_parity = False, rq_rs_h = 0\<rparr>]\<rparr>,
     rdata_notify := \<lparr>pending = 1, broken = False\<rparr>\<rparr>"

text \<open>An encoder that gives blocks of zeros, and a \<open>pgm_time_after\<close>: later on the clock.\<close>

definition zero_rs :: reed_solomon where
  "zero_rs = \<lparr>rs_encode = (\<lambda>src j len. replicate len 0),
     rs_encode_opt = (\<lambda>src j. \<lparr>opt_sqn = 0, opt_frag_off = 0, opt_frag_len = 0\<rparr>)\<rparr>"

definition later :: "guint64 \<Rightarrow> guint64 \<Rightarrow> bool" where
  "later a b = (b < a)"

text \<open>
  A world at time 0 whose rate check always passes and whose \<open>errno\<close> holds no old
  \<open>EAGAIN\<close>, a send without flags, and a buffer of 100 bytes as a caller of
  \<open>pgm_transport_send_skbv\<close> fills it.
\<close>

definition quiet_world :: world where
  "quiet_world = \<lparr>w_now = 0, w_time_after = later, w_rate_check = (\<lambda>n. True),
     w_errno = (\<lambda>i. Errno_other)\<rparr>"

definition blocking :: send_flags where
  "blocking = \<lparr>msg_dontwait = False, msg_waitall = False\<rparr>"

definition payload_skb :: pgm_sk_buff where
  "payload_skb = empty_skb\<lparr>skb_len := 100, skb_tsdu := replicate 100 0\<rparr>"

text \<open>The \<open>OPT_FRAGMENT\<close> options of the packets offered to the socket, in order.\<close>

definition sent_fragments :: "pgm_transport \<Rightarrow> opt_fragment option list" where
  "sent_fragments t =
     map (\<lambda>call. case sent_packet call of
                    Data_packet skb \<Rightarrow> pgm_opt_fragment skb
                  | Ncf_packet ncf \<Rightarrow> None) (wire t)"

text \<open>
  The open transport after \<open>pgm_transport_send\<close> of 4000 bytes of zeros: three
  fragments of 1440, 1440 and 1120 bytes are in the window and were sent.
\<close>

definition first_apdu_fragment :: "guint32 \<Rightarrow> guint32 \<Rightarrow> nat \<Rightarrow> nat \<Rightarrow> pgm_sk_buff" where
  "first_apdu_fragment sequence sqn off len =
     \<lparr>skb_len = 44 + len, skb_sequence = sequence, skb_zero_padded = False,
      pgm_type = PGM_ODATA, pgm_options = PGM_OPT_PRESENT, pgm_tsdu_length = of_nat len,
      data_sqn = sqn, data_trail = 0,
      pgm_opt_fragment = Some \<lparr>opt_sqn = 0, opt_frag_off = of_nat off, opt_frag_len = 4000\<rparr>,
      skb_tsdu = replicate len 0\<rparr>"

definition first_apdu_call :: "guint32 \<Rightarrow> nat \<Rightarrow> nat \<Rightarrow> sendto_call" where
  "first_apdu_call sqn off len =
     \<lparr>sent_packet = Data_packet (first_apdu_fragment 0 sqn off len), sent_len = 44 + len,
      use_rate_limit = True, use_router_alert = False\<rparr>"

definition after_first_apdu :: pgm_transport where
  "after_first_apdu =
     stat_add PGM_PC_SOURCE_DATA_BYTES_SENT 4000
       (stat_add PGM_PC_SOURCE_DATA_MSGS_SENT 3
         (stat_add PGM_PC_SOURCE_BYTES_SENT 4192
           (open_transport\<lparr>spm_heartbeat_state := 2, next_heartbeat_spm := 100000,
              state := fresh_state\<lparr>st_skb := Some (first_apdu_fragment 0 2 2880 1120),
                         st_tsdu_length := 1120, st_data_bytes_offset := 4000\<rparr>,
              txw := \<lparr>txw_capacity = 32, txw_trail = 0, txw_lead = 2,
                       txw_pkts = [first_apdu_fragment 0 0 0 1440,
                                   first_apdu_fragment 1 1 1440 1440,
                                   first_apdu_fragment 2 2 2880 1120],
                       txw_retransmit_queue = []\<rparr>,
              wire := [first_apdu_call 0 0 1440, first_apdu_call 1 1440 1440,
                       first_apdu_call 2 2880 1120]\<rparr>)))"

text \<open>
  A vector of two APDUs of 100 bytes, a send with \<open>MSG_DONTWAIT\<close>, and the payload
  lengths in the headers of the packets offered to the socket, in order.
\<close>

definition two_apdus :: "pgm_iovec list" where
  "two_apdus = [\<lparr>iov_base = Some (replicate 100 0), iov_len = 100\<rparr>,
                \<lparr>iov_base = Some (replicate 100 0), iov_len = 100\<rparr>]"

definition nonblocking :: send_flags where
  "nonblocking = \<lparr>msg_dontwait = True, msg_waitall = False\<rparr>"

definition sent_tsdu_lengths :: "pgm_transport \<Rightarrow> guint16 list" where
  "sent_tsdu_lengths t =
     map (\<lambda>call. case sent_packet call of
                    Data_packet skb \<Rightarrow> pgm_tsdu_length skb
                  | Ncf_packet ncf \<Rightarrow> 0) (wire t)"

text \<open>
  The open transport after a \<open>pgm_transport_send\<close> of 100 bytes that the socket
  answered with \<open>EAGAIN\<close>: the packet is in the window and in \<open>STATE(skb)\<close>, and
  \<open>is_apdu_eagain\<close> is set.
\<close>

definition blocked_transport :: pgm_transport where
  "blocked_transport =
     open_transport\<lparr>is_apdu_eagain := True,
       state := fresh_state\<lparr>st_skb := Some buffered_skb\<rparr>,
       txw := \<lparr>txw_capacity = 32, txw_trail = 0, txw_lead = 0, txw_pkts = [buffered_skb],
                txw_retransmit_queue = []\<rparr>,
       wire := [\<lparr>sent_packet = Data_packet buffered_skb, sent_len = 124,
                 use_rate_limit = True, use_router_alert = False\<rparr>]\<rparr>"

text \<open>
  The transport with the queued repair, with a socket that takes one fragment of 1440
  bytes and answers the next with \<open>EAGAIN\<close>.
\<close>

definition choked_transport :: pgm_transport where
  "choked_transport = repair_transport\<lparr>sendto_results := [Sent 1484, Send_EAGAIN]\<rparr>"

section \<open>Theorems\<close>

subsection \<open>The window size setter\<close>

lemma txw_sqns_bound: "(UINT32_MAX div 2) - 1 = (2147483646 :: guint32)"
  by (simp add: UINT32_MAX_def)

text \<open>
  C6, as amended. On an unbound transport \<open>pgm_transport_set_txw_sqns\<close> returns 0 and
  stores the value exactly for \<open>0 < sqns < 2^31 - 2\<close>, the guard being
  \<open>sqns < (UINT32_MAX / 2) - 1\<close>; on a bound transport or for any other value it returns
  \<open>-EINVAL\<close> and leaves the transport as it was.
\<close>

theorem set_txw_sqns_range:
  "pgm_transport_set_txw_sqns (Some t) sqns =
     (if \<not> is_bound t \<and> 0 < unat sqns \<and> unat sqns < 2 ^ 31 - 2
      then (Inr (), Some (t\<lparr>txw_sqns := sqns\<rparr>))
      else (Inl InvalidArgument, Some t))"
proof -
  have lt: "sqns < 2147483646 \<longleftrightarrow> unat sqns < 2 ^ 31 - 2"
    by (simp add: word_less_nat_alt)
  have pos: "0 < sqns \<longleftrightarrow> 0 < unat sqns"
    by (simp add: word_less_nat_alt)
  show ?thesis
    unfolding pgm_transport_set_txw_sqns_def txw_sqns_bound
    using lt pos by auto
qed

theorem set_txw_sqns_range_witness:
  "pgm_transport_set_txw_sqns (Some fresh_transport) 1000
     = (Inr (), Some (fresh_transport\<lparr>txw_sqns := 1000\<rparr>))
   \<and> pgm_transport_set_txw_sqns (Some fresh_transport) 0
     = (Inl InvalidArgument, Some fresh_transport)"
  using set_txw_sqns_range [of fresh_transport 1000] set_txw_sqns_range [of fresh_transport 0]
  by (simp add: fresh_transport_def)

text \<open>
  C6 as stated fails at \<open>sqns = 2^31 - 2\<close>: the value is positive and below
  \<open>2^31 - 1\<close>, the transport is unbound, and the setter returns \<open>-EINVAL\<close>.
\<close>

theorem set_txw_sqns_counterexample:
  "\<not> is_bound fresh_transport \<and> 0 < unat (2147483646 :: guint32)
   \<and> unat (2147483646 :: guint32) < 2 ^ 31 - 1
   \<and> pgm_transport_set_txw_sqns (Some fresh_transport) 2147483646
       = (Inl InvalidArgument, Some fresh_transport)"
  by (simp add: pgm_transport_set_txw_sqns_def txw_sqns_bound fresh_transport_def)

subsection \<open>The heartbeat schedule setter\<close>

text \<open>
  C3, at one interval of 100 microseconds: the stored array is \<open>[0, 0, unwritten]\<close>.
  The interval is overwritten by the 0 stored at index \<open>len\<close>, and the cell after it, at
  index \<open>len + 1\<close>, is never written.
\<close>

theorem set_heartbeat_spm_overwrites_last:
  "pgm_transport_set_heartbeat_spm (Some fresh_transport) [100]
     = (Inr (), Some (fresh_transport\<lparr>spm_heartbeat_interval := Some [Some 0, Some 0, None]\<rparr>))"
  by (simp add: pgm_transport_set_heartbeat_spm_def memcpy_cells_def fresh_transport_def)

subsection \<open>NAK intake: a parity NAK without on-demand parity\<close>

text \<open>
  C4, as the code has it. A NAK with \<open>OPT_PARITY\<close> on a transport without on-demand
  parity leaves \<open>on_nak\<close> at once: the three counters go up by one, nothing is sent and
  nothing is queued. But the value returned is that of the local \<open>retval\<close>, which was
  never assigned (\<open>None\<close>), and not \<open>-EINVAL\<close>.
\<close>

theorem on_nak_parity_without_ondemand:
  assumes "h_options header AND PGM_OPT_PARITY \<noteq> 0" and "\<not> use_ondemand_parity t"
  shows "on_nak vfy t header nak =
      Done (None, stat_add PGM_PC_SOURCE_PACKETS_DISCARDED 1
            (stat_add PGM_PC_SOURCE_MALFORMED_NAKS 1
              (stat_add PGM_PC_SOURCE_PARITY_NAKS_RECEIVED 1 t)))"
  using assms by (simp add: on_nak_def)

theorem on_nak_parity_without_ondemand_witness:
  "h_options \<lparr>h_type = 0x08, h_options = 0x80\<rparr> AND PGM_OPT_PARITY \<noteq> 0
   \<and> \<not> use_ondemand_parity open_transport
   \<and> on_nak verify_ok open_transport \<lparr>h_type = 0x08, h_options = 0x80\<rparr> plain_nak =
      Done (None, stat_add PGM_PC_SOURCE_PACKETS_DISCARDED 1
            (stat_add PGM_PC_SOURCE_MALFORMED_NAKS 1
              (stat_add PGM_PC_SOURCE_PARITY_NAKS_RECEIVED 1 open_transport)))"
proof -
  have p: "h_options \<lparr>h_type = 0x08, h_options = 0x80\<rparr> AND PGM_OPT_PARITY \<noteq> 0"
    by (simp add: PGM_OPT_PARITY_def)
  have o: "\<not> use_ondemand_parity open_transport"
    by (simp add: open_transport_def fresh_transport_def)
  show ?thesis
    using p o on_nak_parity_without_ondemand [OF p o, of verify_ok plain_nak] by simp
qed

lemma on_nak_discard_effects:
  assumes "t' = stat_add PGM_PC_SOURCE_PACKETS_DISCARDED 1
            (stat_add PGM_PC_SOURCE_MALFORMED_NAKS 1
              (stat_add PGM_PC_SOURCE_PARITY_NAKS_RECEIVED 1 t))"
  shows "cumulative_stats t' PGM_PC_SOURCE_PARITY_NAKS_RECEIVED
           = cumulative_stats t PGM_PC_SOURCE_PARITY_NAKS_RECEIVED + 1"
    and "cumulative_stats t' PGM_PC_SOURCE_MALFORMED_NAKS
           = cumulative_stats t PGM_PC_SOURCE_MALFORMED_NAKS + 1"
    and "cumulative_stats t' PGM_PC_SOURCE_PACKETS_DISCARDED
           = cumulative_stats t PGM_PC_SOURCE_PACKETS_DISCARDED + 1"
    and "wire t' = wire t"
    and "txw t' = txw t"
  using assms by simp_all

subsection \<open>NAK intake: the length of the sequence list\<close>

text \<open>
  An \<open>OPT_NAK_LIST\<close> of at least four bytes lists at most 62 numbers; a shorter one
  makes the unsigned subtraction wrap.
\<close>

lemma nak_list_len_small: "4 \<le> l \<Longrightarrow> nak_list_len_of l \<le> 62"
proof -
  assume a: "4 \<le> l"
  have l4: "4 \<le> unat l" using a by (simp add: word_le_nat_alt)
  have lb: "unat l < 256" using unsigned_less [of l, where 'a = nat] by simp
  have u: "unat (ucast l :: guint64) = unat l"
    using lb by (simp add: unsigned_ucast_eq take_bit_eq_mod)
  have le4: "(4 :: guint64) \<le> ucast l"
    using l4 u by (simp add: word_le_nat_alt)
  have s: "unat ((ucast l :: guint64) - 4) = unat l - 4"
    using unat_sub [OF le4] u by simp
  have d: "unat (((ucast l :: guint64) - 4) div 4) = (unat l - 4) div 4"
    using s by (simp add: unat_div)
  have e: "unat (ucast (((ucast l :: guint64) - 4) div 4) :: guint32) = (unat l - 4) div 4"
    using d lb by (simp add: unsigned_ucast_eq take_bit_eq_mod)
  have "(unat l - 4) div 4 \<le> 62" using lb by simp
  then show ?thesis
    using e by (simp add: nak_list_len_of_def sizeof_pgm_opt_header_def word_le_nat_alt)
qed

lemma nak_list_len_wraps:
  "nak_list_len_of 0 = 4294967295" "nak_list_len_of 1 = 4294967295"
  "nak_list_len_of 2 = 4294967295" "nak_list_len_of 3 = 4294967295"
  by (simp_all add: nak_list_len_of_def sizeof_pgm_opt_header_def)

text \<open>
  A list longer than the array has room for never gets stored: the loop ends in an
  access out of bounds, past the packet or past \<open>sqn_list.sqn[62]\<close>.
\<close>

lemma copy_nak_list_overrun:
  "63 < length sqn_list + (n - i) \<Longrightarrow> length sqn_list \<le> 63
     \<Longrightarrow> copy_nak_list opts pos i n sqn_list = Crash OutOfBounds"
proof (induction opts pos i n sqn_list rule: copy_nak_list.induct)
  case (1 opts pos i n sqn_list)
  have lt: "i < n" using "1.prems" by simp
  show ?case
  proof (cases "length opts < pos + 4 \<or> 63 \<le> length sqn_list")
    case True
    with lt show ?thesis by (subst copy_nak_list.simps) auto
  next
    case False
    with lt "1.prems" have
      "copy_nak_list opts (pos + 4) (i + 1) n (sqn_list @ [g_ntohl (take 4 (drop pos opts))])
         = Crash OutOfBounds"
      by (intro "1.IH") auto
    with lt False show ?thesis by (subst copy_nak_list.simps) auto
  qed
qed

text \<open>
  C7, at a NAK whose \<open>OPT_NAK_LIST\<close> option declares the length 0: the list length
  computed is \<open>2^32 - 1\<close>, not at most 62, and \<open>on_nak\<close> ends in an access out of
  bounds instead of a list of at most 63 numbers.
\<close>

theorem on_nak_short_nak_list:
  "check_nak_list \<lparr>h_type = 0x08, h_options = 0x01\<rparr> (nak_opts short_list_nak)
     = Nak_list 8 4294967295
   \<and> on_nak verify_ok open_transport \<lparr>h_type = 0x08, h_options = 0x01\<rparr> short_list_nak
     = Crash OutOfBounds"
proof -
  have walk: "check_nak_list \<lparr>h_type = 0x08, h_options = 0x01\<rparr> (nak_opts short_list_nak)
     = Nak_list 8 4294967295"
    by (simp add: short_list_nak_def plain_nak_def check_nak_list_def
        PGM_OPT_PRESENT_def PGM_OPT_LENGTH_def PGM_OPT_MASK_def PGM_OPT_NAK_LIST_def
        sizeof_pgm_opt_length_def sizeof_pgm_opt_header_def sizeof_pgm_opt_nak_list_def
        nak_list_len_of_def find_nak_list.simps)
  have copy: "copy_nak_list (nak_opts short_list_nak) 8 0 4294967295 [nak_sqn short_list_nak]
     = Crash OutOfBounds"
    by (rule copy_nak_list_overrun) simp_all
  have reply: "on_nak_reply t short_list_nak False 8 4294967295 = Crash OutOfBounds" for t
    unfolding on_nak_reply_def copy by simp
  have addr: "nak_src_nla short_list_nak = send_addr open_transport"
     "nak_grp_nla short_list_nak = send_gsr_group open_transport"
    by (simp_all add: open_transport_def fresh_transport_def short_list_nak_def plain_nak_def)
  have "on_nak verify_ok open_transport \<lparr>h_type = 0x08, h_options = 0x01\<rparr> short_list_nak
     = Crash OutOfBounds"
    unfolding on_nak_def Let_def walk
    by (simp add: reply verify_ok_def PGM_OPT_PARITY_def stat_add_def addr)
  with walk show ?thesis by simp
qed

subsection \<open>NCF options\<close>

lemma pgm_sendto_wire:
  "pgm_sendto t rl ra pkt len = (r, t') \<Longrightarrow>
     wire t' = wire t @ [\<lparr>sent_packet = pkt, sent_len = len, use_rate_limit = rl,
                          use_router_alert = ra\<rparr>]"
  by (auto simp: pgm_sendto_def Let_def split: list.splits)

lemma queue_retransmits_wire:
  "queue_retransmits sqns par rv t = (rv', t') \<Longrightarrow> wire t' = wire t"
proof (induction sqns arbitrary: rv t)
  case Nil
  then show ?case by simp
next
  case (Cons sqn sqns)
  then show ?case
    by (auto simp: Let_def split: prod.splits if_splits)
qed

text \<open>The options byte of an NCF, by variant and by kind of NAK.\<close>

definition ncf_options_of :: "bool \<Rightarrow> bool \<Rightarrow> guint8" where
  "ncf_options_of listed par =
     (if listed then (if par then PGM_OPT_PRESENT OR PGM_OPT_NETWORK OR PGM_OPT_PARITY
                      else PGM_OPT_PRESENT OR PGM_OPT_NETWORK)
      else (if par then PGM_OPT_PARITY else 0))"

lemma send_ncf_wire:
  "send_ncf t src grp sqn par = (r, t') \<Longrightarrow>
   \<exists>call ncf. wire t' = wire t @ [call] \<and> sent_packet call = Ncf_packet ncf
      \<and> ncf_options ncf = ncf_options_of False par \<and> ncf_opt_nak_list ncf = []"
  by (auto simp: send_ncf_def Let_def ncf_options_of_def split: prod.splits if_splits
      dest!: pgm_sendto_wire)

lemma send_ncf_list_wire:
  "send_ncf_list t src grp sqns par = Done (r, t') \<Longrightarrow>
   \<exists>call ncf. wire t' = wire t @ [call] \<and> sent_packet call = Ncf_packet ncf
      \<and> ncf_options ncf = ncf_options_of True par \<and> ncf_opt_nak_list ncf \<noteq> []"
  by (cases sqns; cases "tl sqns")
     (auto simp: send_ncf_list_def Let_def ncf_options_of_def split: prod.splits if_splits
      dest!: pgm_sendto_wire)

lemma on_nak_reply_wire:
  assumes "on_nak_reply t nak par pos n = Done (rv, t')"
  shows "\<exists>call ncf. wire t' = wire t @ [call] \<and> sent_packet call = Ncf_packet ncf
      \<and> ncf_options ncf = ncf_options_of (ncf_opt_nak_list ncf \<noteq> []) par"
proof (cases "n = 0")
  case True
  with assms obtain sl r t1 where
    s: "send_ncf t (nak_src_nla nak) (nak_grp_nla nak) (sl ! 0) par = (r, t1)"
    and q: "queue_retransmits sl par (Some (Inr ())) t1 = (rv, t')"
    by (auto simp: on_nak_reply_def simp del: queue_retransmits.simps copy_nak_list.simps
          split: outcome.splits prod.splits)
  from send_ncf_wire [OF s] queue_retransmits_wire [OF q] show ?thesis by auto
next
  case False
  with assms obtain sl r t1 where
    s: "send_ncf_list t (nak_src_nla nak) (nak_grp_nla nak) sl par = Done (r, t1)"
    and q: "queue_retransmits sl par (Some (Inr ())) t1 = (rv, t')"
    by (auto simp: on_nak_reply_def simp del: queue_retransmits.simps copy_nak_list.simps
          split: outcome.splits prod.splits)
  from send_ncf_list_wire [OF s] queue_retransmits_wire [OF q] show ?thesis by auto
qed

lemma on_nak_wire:
  assumes "on_nak vfy t header nak = Done (rv, t')"
  shows "wire t' = wire t \<or>
     (\<exists>call ncf. wire t' = wire t @ [call] \<and> sent_packet call = Ncf_packet ncf
        \<and> ncf_options ncf = ncf_options_of (ncf_opt_nak_list ncf \<noteq> [])
             (h_options header AND PGM_OPT_PARITY \<noteq> 0))"
  using assms
  by (auto simp: on_nak_def Let_def nak_malformed_def split: if_splits nak_list_walk.splits
       dest!: on_nak_reply_wire)

text \<open>
  C8. Every NCF that a call of \<open>on_nak\<close> hands to the socket has \<open>OPT_PARITY\<close> set
  exactly when the NAK's header has it set. Its other option bits are none when it
  carries no list (\<open>send_ncf\<close>), and \<open>OPT_PRESENT\<close> and \<open>OPT_NETWORK\<close> and no more when
  it carries one (\<open>send_ncf_list\<close>).
\<close>

theorem on_nak_ncf_options:
  assumes run: "on_nak vfy t header nak = Done (rv, t')"
    and sent: "call \<in> set (drop (length (wire t)) (wire t'))"
    and ncf: "sent_packet call = Ncf_packet ncf"
  shows "(ncf_options ncf AND PGM_OPT_PARITY \<noteq> 0) = (h_options header AND PGM_OPT_PARITY \<noteq> 0)
       \<and> ncf_options ncf AND NOT PGM_OPT_PARITY
           = (if ncf_opt_nak_list ncf = [] then 0 else PGM_OPT_PRESENT OR PGM_OPT_NETWORK)"
proof -
  from on_nak_wire [OF run] sent ncf
  have o: "ncf_options ncf
       = ncf_options_of (ncf_opt_nak_list ncf \<noteq> []) (h_options header AND PGM_OPT_PARITY \<noteq> 0)"
    by auto
  show ?thesis
    unfolding o ncf_options_of_def PGM_OPT_PARITY_def PGM_OPT_PRESENT_def PGM_OPT_NETWORK_def
    by simp
qed

text \<open>
  A parity NAK that lists a second number, on a transport with on-demand parity: one NCF
  with a list goes out, its options are \<open>0x83\<close>.
\<close>

lemma listed_nak_run:
  "\<exists>rv t'. on_nak verify_ok (open_transport\<lparr>use_ondemand_parity := True\<rparr>)
        \<lparr>h_type = 0x08, h_options = 0x81\<rparr> listed_nak = Done (rv, t')
     \<and> wire t' = [\<lparr>sent_packet = Ncf_packet \<lparr>ncf_type = 0x0A, ncf_options = 0x83,
            ncf_tsdu_length = 0, ncf_sqn = 5, ncf_src_nla = Sockaddr_in 0x0A000001,
            ncf_grp_nla = Sockaddr_in 0xEF010101, ncf_opt_nak_list = [7]\<rparr>,
          sent_len = 72, use_rate_limit = False, use_router_alert = True\<rparr>]"
  by (simp add: on_nak_def open_transport_def fresh_transport_def listed_nak_def plain_nak_def
      verify_ok_def check_nak_list_def on_nak_reply_def send_ncf_list_def pgm_sendto_def
      PGM_OPT_PARITY_def PGM_OPT_PRESENT_def PGM_OPT_LENGTH_def PGM_OPT_MASK_def
      PGM_OPT_NAK_LIST_def PGM_OPT_END_def PGM_OPT_NETWORK_def PGM_NCF_def
      sizeof_pgm_opt_length_def sizeof_pgm_opt_header_def sizeof_pgm_opt_nak_list_def
      sizeof_pgm_header_def sizeof_pgm_nak_def sizeof_pgm_nak6_def AF_INET_def AFI_IP6_def
      nak_list_len_of_def g_ntohl_def pgm_txw_retransmit_push_def Let_def stat_add_def
      find_nak_list.simps copy_nak_list.simps)

theorem on_nak_ncf_options_witness:
  "\<exists>rv t' call ncf.
     on_nak verify_ok (open_transport\<lparr>use_ondemand_parity := True\<rparr>)
        \<lparr>h_type = 0x08, h_options = 0x81\<rparr> listed_nak = Done (rv, t')
     \<and> call \<in> set (drop (length (wire (open_transport\<lparr>use_ondemand_parity := True\<rparr>))) (wire t'))
     \<and> sent_packet call = Ncf_packet ncf
     \<and> ncf_opt_nak_list ncf = [7]
     \<and> (ncf_options ncf AND PGM_OPT_PARITY \<noteq> 0)
     \<and> ncf_options ncf AND NOT PGM_OPT_PARITY = PGM_OPT_PRESENT OR PGM_OPT_NETWORK"
proof -
  let ?t = "open_transport\<lparr>use_ondemand_parity := True\<rparr>"
  let ?h = "\<lparr>h_type = 0x08, h_options = 0x81\<rparr>"
  let ?ncf = "\<lparr>ncf_type = 0x0A, ncf_options = 0x83,
            ncf_tsdu_length = 0, ncf_sqn = 5, ncf_src_nla = Sockaddr_in 0x0A000001,
            ncf_grp_nla = Sockaddr_in 0xEF010101, ncf_opt_nak_list = [7]\<rparr>"
  let ?call = "\<lparr>sent_packet = Ncf_packet ?ncf,
          sent_len = 72, use_rate_limit = False, use_router_alert = True\<rparr>"
  from listed_nak_run obtain rv t' where
    run: "on_nak verify_ok ?t ?h listed_nak = Done (rv, t')" and w: "wire t' = [?call]"
    by blast
  have w0: "wire ?t = []" by (simp add: open_transport_def fresh_transport_def)
  have sent: "?call \<in> set (drop (length (wire ?t)) (wire t'))" using w w0 by simp
  have ncf: "sent_packet ?call = Ncf_packet ?ncf" by simp
  have par: "h_options ?h AND PGM_OPT_PARITY \<noteq> 0" by (simp add: PGM_OPT_PARITY_def)
  from on_nak_ncf_options [OF run sent ncf] par
  have "(ncf_options ?ncf AND PGM_OPT_PARITY \<noteq> 0)
       \<and> ncf_options ?ncf AND NOT PGM_OPT_PARITY = PGM_OPT_PRESENT OR PGM_OPT_NETWORK"
    by simp
  with run sent ncf show ?thesis
    by (intro exI [of _ rv] exI [of _ t'] exI [of _ ?call] exI [of _ ?ncf]) simp
qed

subsection \<open>Running the send paths\<close>

text \<open>The definitions that a run of a send path on the transports above unfolds.\<close>

lemmas send_defs =
  pgm_transport_send_skbv_def pgm_transport_send_def pgm_transport_send_one_copy_def
  skbv_loop.simps skbv_step_def retry_send_fragment_def admit_def odata_packet_def
  odata_fragment_def apdu_end_def pgm_reset_heartbeat_spm_def heartbeat_interval_at_def
  pgm_sendto_def pgm_txw_add_def pgm_txw_next_lead_def pgm_txw_trail_def
  end_of_transmission_group_def pgm_transport_pkt_offset_def pgm_transport_max_tsdu_def
  add_counts_def no_counts_def flags_ok_def pgm_notify_send_def
  sizeof_pgm_header_def sizeof_pgm_data_def sizeof_pgm_opt_length_def sizeof_pgm_opt_header_def
  sizeof_pgm_opt_fragment_def read_bytes_def
  open_transport_def fresh_transport_def fresh_state_def empty_skb_def payload_skb_def
  quiet_world_def blocking_def later_def Let_def

lemma outcome_run:
  "is_Done x \<Longrightarrow> fst (result x) = r \<Longrightarrow> x = Done (r, snd (result x))"
  by (cases x) auto

subsection \<open>The heartbeat reset after ODATA and RDATA\<close>

lemma pgm_sendto_frame:
  "pgm_sendto t rl ra pkt len = (r, t') \<Longrightarrow>
     spm_heartbeat_interval t' = spm_heartbeat_interval t \<and> next_poll t' = next_poll t
     \<and> timer_notify t' = timer_notify t \<and> txw t' = txw t \<and> iphdr_len t' = iphdr_len t"
  by (auto simp: pgm_sendto_def Let_def split: list.splits)

lemma reset_heartbeat_effect:
  assumes sched: "spm_heartbeat_interval t = Some a" "1 < length a" "a ! 1 = Some v"
  shows "\<exists>rv t'. pgm_reset_heartbeat_spm after now t = Done (rv, t')
            \<and> spm_heartbeat_state t' = 2
            \<and> next_heartbeat_spm t' = now + ucast v
            \<and> (if after (next_poll t) (now + ucast v)
               then next_poll t' = now + ucast v
                    \<and> timer_notify t' = snd (pgm_notify_send (timer_notify t))
               else next_poll t' = next_poll t \<and> timer_notify t' = timer_notify t)"
proof -
  have h: "heartbeat_interval_at (t\<lparr>spm_heartbeat_state := 1\<rparr>) 1 = Done v"
    using sched by (simp add: heartbeat_interval_at_def)
  show ?thesis
    using h by (simp add: pgm_reset_heartbeat_spm_def Let_def split: prod.splits)
qed

lemma send_rdata_effect:
  assumes sched: "spm_heartbeat_interval t = Some a" "1 < length a" "a ! 1 = Some v"
  shows "\<exists>ok skb' t'. send_rdata now t skb = Done (ok, skb', t')
            \<and> spm_heartbeat_state t' = 2
            \<and> next_heartbeat_spm t' = now + ucast v
            \<and> next_poll t' = next_poll t \<and> timer_notify t' = timer_notify t"
proof -
  obtain sent t1 where s: "pgm_sendto t True True
       (Data_packet (skb\<lparr>pgm_type := PGM_RDATA, data_trail := pgm_txw_trail (txw t)\<rparr>)) (skb_len skb) = (sent, t1)"
    by (cases "pgm_sendto t True True
       (Data_packet (skb\<lparr>pgm_type := PGM_RDATA, data_trail := pgm_txw_trail (txw t)\<rparr>)) (skb_len skb)")
  from pgm_sendto_frame [OF s] sched
  have h: "heartbeat_interval_at (t1\<lparr>spm_heartbeat_state := 1\<rparr>) 1 = Done v"
    by (simp add: heartbeat_interval_at_def)
  show ?thesis
    using h s pgm_sendto_frame [OF s] by (auto simp: send_rdata_def Let_def)
qed

text \<open>
  The fragmenting loops, the rate check and the socket leave the heartbeat fields alone.
\<close>

lemma heartbeat_kept_refl [simp]: "heartbeat_kept t t"
  by (simp add: heartbeat_kept_def)

lemma heartbeat_kept_trans:
  "heartbeat_kept t t1 \<Longrightarrow> heartbeat_kept t1 t2 \<Longrightarrow> heartbeat_kept t t2"
  by (simp add: heartbeat_kept_def)

lemma heartbeat_kept_updates [simp]:
  "heartbeat_kept t (t'\<lparr>state := s\<rparr>) = heartbeat_kept t t'"
  "heartbeat_kept t (t'\<lparr>is_apdu_eagain := e\<rparr>) = heartbeat_kept t t'"
  "heartbeat_kept t (t'\<lparr>txw := x\<rparr>) = heartbeat_kept t t'"
  "heartbeat_kept t (stat_add c n t') = heartbeat_kept t t'"
  "heartbeat_kept t (add_counts cnt t') = heartbeat_kept t t'"
  "heartbeat_kept (t\<lparr>state := s\<rparr>) t' = heartbeat_kept t t'"
  "heartbeat_kept (t\<lparr>is_apdu_eagain := e\<rparr>) t' = heartbeat_kept t t'"
  "heartbeat_kept (t\<lparr>txw := x\<rparr>) t' = heartbeat_kept t t'"
  by (simp_all add: heartbeat_kept_def add_counts_def)

lemma heartbeat_kept_admit [simp]:
  "heartbeat_kept t (admit t' skb) = heartbeat_kept t t'"
  "heartbeat_kept (admit t skb) t' = heartbeat_kept t t'"
  by (simp_all add: admit_def)

lemma pgm_sendto_heartbeat:
  "pgm_sendto t rl ra pkt len = (r, t') \<Longrightarrow> heartbeat_kept t t'"
  by (auto simp: pgm_sendto_def heartbeat_kept_def Let_def split: list.splits)

lemma end_of_transmission_group_heartbeat [simp]:
  "heartbeat_kept t (end_of_transmission_group t' skb) = heartbeat_kept t t'"
  by (simp add: end_of_transmission_group_def pgm_schedule_proactive_nak_def Let_def
      heartbeat_kept_def split: prod.splits)

lemma send_kept_refl [simp]: "send_kept t t"
  by (simp add: send_kept_def)

lemma send_kept_trans:
  "send_kept t t1 \<Longrightarrow> send_kept t1 t2 \<Longrightarrow> send_kept t t2"
  by (auto simp: send_kept_def intro: heartbeat_kept_trans)

lemma send_kept_updates [simp]:
  "send_kept t (t'\<lparr>state := s\<rparr>) = send_kept t t'"
  "send_kept t (t'\<lparr>is_apdu_eagain := e\<rparr>) = send_kept t t'"
  "send_kept t (t'\<lparr>txw := x\<rparr>) = send_kept t t'"
  "send_kept (t\<lparr>state := s\<rparr>) t' = send_kept t t'"
  "send_kept (t\<lparr>is_apdu_eagain := e\<rparr>) t' = send_kept t t'"
  "send_kept (t\<lparr>txw := x\<rparr>) t' = send_kept t t'"
  "send_kept t (admit t' skb) = send_kept t t'"
  "send_kept (admit t skb) t' = send_kept t t'"
  by (simp_all add: send_kept_def admit_def)

lemma pgm_sendto_kept:
  "pgm_sendto t rl ra pkt len = (r, t') \<Longrightarrow> send_kept t t'"
  by (auto simp: pgm_sendto_def send_kept_def heartbeat_kept_def Let_def split: list.splits)

lemma end_of_transmission_group_kept [simp]:
  "send_kept t (end_of_transmission_group t' skb) = send_kept t t'"
  by (simp add: end_of_transmission_group_def pgm_schedule_proactive_nak_def Let_def
      send_kept_def heartbeat_kept_def split: prod.splits)

lemma retry_send_fragment_kept:
  "retry_send_fragment t cnt = Done (b, cnt', t') \<Longrightarrow> send_kept t t'"
  by (auto simp: retry_send_fragment_def Let_def split: option.splits prod.splits if_splits
      dest!: pgm_sendto_kept)

lemma send_fragment_step_kept:
  "send_fragment_step t apdu n resume cnt = Done (b, cnt', t') \<Longrightarrow> send_kept t t'"
  by (auto simp: send_fragment_step_def Let_def split: if_splits outcome.splits
      dest!: retry_send_fragment_kept)

lemma sendv_fragment_step_kept:
  "sendv_fragment_step t vector count resume cnt = Done (b, cnt', t') \<Longrightarrow> send_kept t t'"
  by (auto simp: sendv_fragment_step_def Let_def split: if_splits outcome.splits
      dest!: retry_send_fragment_kept)

lemma skbv_step_kept:
  "skbv_step t vector one resume cnt = Done (b, cnt', t') \<Longrightarrow> send_kept t t'"
  by (auto simp: skbv_step_def Let_def split: if_splits
      dest!: retry_send_fragment_kept)

lemma send_apdu_loop_kept:
  "send_apdu_loop t apdu n resume cnt = Done (b, cnt', t') \<Longrightarrow> send_kept t t'"
proof (induction t apdu n resume cnt rule: send_apdu_loop.induct)
  case (1 t apdu n resume cnt)
  from "1.prems" obtain b1 c1 t1 where
    step: "send_fragment_step t apdu n resume cnt = Done (b1, c1, t1)"
    by (subst (asm) send_apdu_loop.simps) (auto split: outcome.splits)
  note f = send_fragment_step_kept [OF step]
  show ?case
  proof (cases "\<not> b1 \<and> st_data_bytes_offset (state t1) < n
                \<and> \<not> (max_tsdu_fragment t1 = 0 \<and> sendto_results t1 = [])")
    case True
    with "1.prems" step have "send_apdu_loop t1 apdu n False c1 = Done (b, cnt', t')"
      by (subst (asm) send_apdu_loop.simps) auto
    with "1.IH" [OF step refl refl] True f show ?thesis
      by (auto intro: send_kept_trans)
  next
    case False
    with "1.prems" step f show ?thesis
      by (subst (asm) send_apdu_loop.simps) (auto split: if_splits)
  qed
qed

lemma sendv_apdu_loop_kept:
  "sendv_apdu_loop t vector count resume cnt = Done (b, cnt', t') \<Longrightarrow> send_kept t t'"
proof (induction t vector count resume cnt rule: sendv_apdu_loop.induct)
  case (1 t vector count resume cnt)
  from "1.prems" obtain b1 c1 t1 where
    step: "sendv_fragment_step t vector count resume cnt = Done (b1, c1, t1)"
    by (subst (asm) sendv_apdu_loop.simps) (auto split: outcome.splits)
  note f = sendv_fragment_step_kept [OF step]
  show ?case
  proof (cases "\<not> b1 \<and> st_data_bytes_offset (state t1) < st_apdu_length (state t1)
                \<and> \<not> (max_tsdu_fragment t1 = 0 \<and> sendto_results t1 = [])")
    case True
    with "1.prems" step have "sendv_apdu_loop t1 vector count False c1 = Done (b, cnt', t')"
      by (subst (asm) sendv_apdu_loop.simps) auto
    with "1.IH" [OF step refl refl] True f show ?thesis
      by (auto intro: send_kept_trans)
  next
    case False
    with "1.prems" step f show ?thesis
      by (subst (asm) sendv_apdu_loop.simps) (auto split: if_splits)
  qed
qed

lemma skbv_loop_kept:
  "skbv_loop t vector count one resume cnt = Done (b, cnt', t') \<Longrightarrow> send_kept t t'"
proof (induction t vector count one resume cnt rule: skbv_loop.induct)
  case (1 t vector count one resume cnt)
  show ?case
  proof (cases "\<not> resume \<and> \<not> st_vector_index (state t) < count")
    case True
    with "1.prems" show ?thesis
      by (subst (asm) skbv_loop.simps) auto
  next
    case False
    with "1.prems" obtain b1 c1 t1 where
      step: "skbv_step t vector one resume cnt = Done (b1, c1, t1)"
      by (subst (asm) skbv_loop.simps) (auto split: outcome.splits)
    note f = skbv_step_kept [OF step]
    show ?thesis
    proof (cases b1)
      case True
      with "1.prems" step False f show ?thesis
        by (subst (asm) skbv_loop.simps) auto
    next
      case nb: False
      let ?t2 = "t1\<lparr>state := (state t1)\<lparr>st_vector_index := st_vector_index (state t1) + 1\<rparr>\<rparr>"
      from "1.prems" step False nb
      have "skbv_loop ?t2 vector count one False c1 = Done (b, cnt', t')"
        by (subst (asm) skbv_loop.simps) auto
      from "1.IH" [OF False step refl refl nb this] f show ?thesis
        by (auto dest: send_kept_trans)
    qed
  qed
qed

lemma rate_precheck_kept:
  "rate_precheck w t n flags = Done (ok, t') \<Longrightarrow> send_kept t t'"
  by (auto simp: rate_precheck_def Let_def split: if_splits outcome.splits)

lemma send_apdu_loop_heartbeat:
  "send_apdu_loop t apdu n resume cnt = Done (b, cnt', t') \<Longrightarrow> heartbeat_kept t t'"
  by (drule send_apdu_loop_kept) (simp add: send_kept_def)

lemma sendv_apdu_loop_heartbeat:
  "sendv_apdu_loop t vector count resume cnt = Done (b, cnt', t') \<Longrightarrow> heartbeat_kept t t'"
  by (drule sendv_apdu_loop_kept) (simp add: send_kept_def)

lemma skbv_loop_heartbeat:
  "skbv_loop t vector count one resume cnt = Done (b, cnt', t') \<Longrightarrow> heartbeat_kept t t'"
  by (drule skbv_loop_kept) (simp add: send_kept_def)

lemma rate_precheck_heartbeat:
  "rate_precheck w t n flags = Done (ok, t') \<Longrightarrow> heartbeat_kept t t'"
  by (drule rate_precheck_kept) (simp add: send_kept_def)

lemma heartbeat_interval_at_kept:
  "spm_heartbeat_interval t' = spm_heartbeat_interval t
     \<Longrightarrow> heartbeat_interval_at t' = heartbeat_interval_at t"
  by (rule ext) (simp add: heartbeat_interval_at_def)

lemma heartbeat_interval_at_state [simp]:
  "heartbeat_interval_at (t\<lparr>spm_heartbeat_state := s\<rparr>) = heartbeat_interval_at t"
  by (rule ext) (simp add: heartbeat_interval_at_def)

lemma reset_heartbeat_rearms:
  assumes "pgm_reset_heartbeat_spm after now t = Done (rv, t')"
  shows "heartbeat_reset_to now t t' \<and> timer_prodded after t t'"
proof (cases "heartbeat_interval_at t 1")
  case (Crash c)
  with assms show ?thesis
    by (simp add: pgm_reset_heartbeat_spm_def Let_def)
next
  case (Done v)
  with assms show ?thesis
    by (auto simp: pgm_reset_heartbeat_spm_def Let_def heartbeat_reset_to_def
        timer_prodded_def pgm_notify_send_def split: if_splits prod.splits)
qed

text \<open>The reset seen from a state with the same heartbeat fields, and from a later one.\<close>

lemma heartbeat_reset_to_iff:
  "heartbeat_reset_to now t t' =
     (\<exists>v. heartbeat_interval_at t (Suc 0) = Done v
          \<and> spm_heartbeat_interval t' = spm_heartbeat_interval t
          \<and> spm_heartbeat_state t' = 2
          \<and> next_heartbeat_spm t' = now + ucast v)"
  by (cases "heartbeat_interval_at t (Suc 0)") (simp_all add: heartbeat_reset_to_def)

lemma rearmed_between:
  assumes before: "heartbeat_kept t0 t"
    and reset: "heartbeat_reset_to now t t1" "timer_prodded after t t1"
    and afterwards: "heartbeat_kept t1 t'"
  shows "heartbeat_reset_to now t0 t' \<and> timer_prodded after t0 t'"
proof -
  from before have s: "spm_heartbeat_interval t = spm_heartbeat_interval t0"
    and p: "next_poll t = next_poll t0" and n: "timer_notify t = timer_notify t0"
    by (simp_all add: heartbeat_kept_def)
  from afterwards have s': "spm_heartbeat_interval t' = spm_heartbeat_interval t1"
    and h': "spm_heartbeat_state t' = spm_heartbeat_state t1"
    and d': "next_heartbeat_spm t' = next_heartbeat_spm t1"
    and p': "next_poll t' = next_poll t1" and n': "timer_notify t' = timer_notify t1"
    by (simp_all add: heartbeat_kept_def)
  have i: "heartbeat_interval_at t (Suc 0) = heartbeat_interval_at t0 (Suc 0)"
    using s by (simp add: heartbeat_interval_at_def)
  from reset(1) have "heartbeat_reset_to now t0 t'"
    unfolding heartbeat_reset_to_iff s' h' d' i s .
  moreover from reset(2) have "timer_prodded after t0 t'"
    unfolding timer_prodded_def p' n' d' p n .
  ultimately show ?thesis by simp
qed

lemma rearmed_twice:
  assumes first: "heartbeat_reset_to now t t1" "timer_prodded after t t1"
    and second: "heartbeat_reset_to now t1 t'" "timer_prodded after t1 t'"
  shows "heartbeat_reset_to now t t' \<and> timer_prodded after t t'"
proof -
  from first(1) obtain v where v: "heartbeat_interval_at t (Suc 0) = Done v"
    and s: "spm_heartbeat_interval t1 = spm_heartbeat_interval t"
    and d: "next_heartbeat_spm t1 = now + ucast v"
    unfolding heartbeat_reset_to_iff by blast
  have i: "heartbeat_interval_at t1 (Suc 0) = heartbeat_interval_at t (Suc 0)"
    using s by (simp add: heartbeat_interval_at_def)
  from second(1) have r: "heartbeat_reset_to now t t'"
    unfolding heartbeat_reset_to_iff i s .
  from r v have d': "next_heartbeat_spm t' = now + ucast v"
    unfolding heartbeat_reset_to_iff by simp
  from first(2) second(2) have "timer_prodded after t t'"
    unfolding timer_prodded_def d d'
    by (simp split: if_splits)
  with r show ?thesis by simp
qed

lemma retry_send_one_rearms:
  assumes "retry_send_one w t n = Done (Inr k, t')"
  shows "heartbeat_reset_to (w_now w) t t' \<and> timer_prodded (w_time_after w) t t'"
proof -
  from assms obtain skb where skb: "st_skb (state t) = Some skb"
    by (auto simp: retry_send_one_def split: option.splits)
  obtain sent t1 where s: "pgm_sendto t True False (Data_packet skb) (skb_len skb) = (sent, t1)"
    by (cases "pgm_sendto t True False (Data_packet skb) (skb_len skb)")
  from assms skb s obtain rv t2 where
    r: "pgm_reset_heartbeat_spm (w_time_after w) (w_now w) (t1\<lparr>is_apdu_eagain := False\<rparr>)
          = Done (rv, t2)"
    and k: "heartbeat_kept t2 t'"
    by (auto simp: retry_send_one_def Let_def split: if_splits outcome.splits)
  have b: "heartbeat_kept t (t1\<lparr>is_apdu_eagain := False\<rparr>)"
    using pgm_sendto_heartbeat [OF s] by simp
  from reset_heartbeat_rearms [OF r] have
    "heartbeat_reset_to (w_now w) (t1\<lparr>is_apdu_eagain := False\<rparr>) t2"
    "timer_prodded (w_time_after w) (t1\<lparr>is_apdu_eagain := False\<rparr>) t2"
    by simp_all
  from rearmed_between [OF b this k] show ?thesis .
qed

lemma apdu_end_rearms:
  assumes "apdu_end w (Done (b, cnt, t)) asserted retval = Done (Inr k, t')"
  shows "heartbeat_reset_to (w_now w) t t' \<and> timer_prodded (w_time_after w) t t'"
proof -
  from assms obtain rv t1 where
    r: "pgm_reset_heartbeat_spm (w_time_after w) (w_now w) (t\<lparr>is_apdu_eagain := False\<rparr>)
          = Done (rv, t1)"
    and k: "heartbeat_kept t1 t'"
    by (auto simp: apdu_end_def split: if_splits outcome.splits)
  have b: "heartbeat_kept t (t\<lparr>is_apdu_eagain := False\<rparr>)" by simp
  from reset_heartbeat_rearms [OF r] have
    "heartbeat_reset_to (w_now w) (t\<lparr>is_apdu_eagain := False\<rparr>) t1"
    "timer_prodded (w_time_after w) (t\<lparr>is_apdu_eagain := False\<rparr>) t1"
    by simp_all
  from rearmed_between [OF b this k] show ?thesis .
qed

lemma send_one_copy_rearms:
  assumes "pgm_transport_send_one_copy w t tsdu n flags = Done (Inr k, t')"
  shows "heartbeat_reset_to (w_now w) t t' \<and> timer_prodded (w_time_after w) t t'"
proof (cases "is_apdu_eagain t")
  case True
  with assms have "retry_send_one w t n = Done (Inr k, t')"
    by (auto simp: pgm_transport_send_one_copy_def split: if_splits)
  from retry_send_one_rearms [OF this] show ?thesis .
next
  case False
  with assms obtain skb where r: "retry_send_one w (admit t skb) n = Done (Inr k, t')"
    by (auto simp: pgm_transport_send_one_copy_def split: if_splits outcome.splits)
  have "heartbeat_kept t (admit t skb)" by simp
  from rearmed_between [OF this _ _ heartbeat_kept_refl] retry_send_one_rearms [OF r]
  show ?thesis by blast
qed

lemma send_one_rearms:
  assumes "pgm_transport_send_one w t skb_ptr flags = Done (Inr k, t')"
  shows "heartbeat_reset_to (w_now w) t t' \<and> timer_prodded (w_time_after w) t t'"
proof -
  from assms obtain t0 n where r: "retry_send_one w t0 n = Done (Inr k, t')"
    and b: "heartbeat_kept t t0"
    by (auto simp: pgm_transport_send_one_def Let_def split: option.splits if_splits)
  from rearmed_between [OF b _ _ heartbeat_kept_refl] retry_send_one_rearms [OF r]
  show ?thesis by blast
qed

lemma send_onev_rearms:
  assumes "pgm_transport_send_onev w t vector_ptr count flags = Done (Inr k, t')"
  shows "heartbeat_reset_to (w_now w) t t' \<and> timer_prodded (w_time_after w) t t'"
proof (cases "count = 0")
  case True
  with assms have "pgm_transport_send_one_copy w t None 0 flags = Done (Inr k, t')"
    by (auto simp: pgm_transport_send_onev_def split: if_splits)
  from send_one_copy_rearms [OF this] show ?thesis .
next
  case False
  with assms obtain t0 n where r: "retry_send_one w t0 n = Done (Inr k, t')"
    and b: "heartbeat_kept t t0"
    by (auto simp: pgm_transport_send_onev_def Let_def split: if_splits outcome.splits)
  from rearmed_between [OF b _ _ heartbeat_kept_refl] retry_send_one_rearms [OF r]
  show ?thesis by blast
qed


lemma pgm_transport_send_rearms:
  assumes run: "pgm_transport_send w t apdu n flags = Done (Inr k, t')"
  shows "heartbeat_reset_to (w_now w) t t' \<and> timer_prodded (w_time_after w) t t'"
proof (cases "n < max_tsdu t")
  case True
  with run have "pgm_transport_send_one_copy w t apdu n flags = Done (Inr k, t')"
    by (auto simp: pgm_transport_send_def split: if_splits)
  from send_one_copy_rearms [OF this] show ?thesis .
next
  case False
  with run obtain t0 looped where
    e: "apdu_end w looped (\<lambda>t. st_data_bytes_offset (state t) = n) (\<lambda>cnt t. n)
          = Done (Inr k, t')"
    and l: "looped = send_apdu_loop t0 (the apdu) n (is_apdu_eagain t) no_counts"
    and b: "heartbeat_kept t t0"
    by (auto simp: pgm_transport_send_def Let_def
        split: if_splits option.splits outcome.splits prod.splits
        dest!: rate_precheck_heartbeat)
  from e obtain bl c1 t1 where d: "looped = Done (bl, c1, t1)"
    by (cases looped) (auto simp: apdu_end_def)
  from send_apdu_loop_heartbeat [OF d [unfolded l]] b have b1: "heartbeat_kept t t1"
    by (rule heartbeat_kept_trans [rotated])
  from rearmed_between [OF b1 _ _ heartbeat_kept_refl] apdu_end_rearms [OF e [unfolded d]]
  show ?thesis by blast
qed

lemma pgm_transport_send_refused:
  assumes run: "pgm_transport_send w t apdu n flags = Done (Inl e, t')"
    and e: "e = InvalidArgument \<or> e = MessageSize \<or> e = ConnectionReset"
  shows "t' = t"
proof -
  have one: "\<And>t0 m. retry_send_one w t0 m \<noteq> Done (Inl e, t')"
    using e
    by (auto simp: retry_send_one_def Let_def
        split: option.splits prod.splits if_splits outcome.splits)
  have fin: "\<And>looped a r. apdu_end w looped a r \<noteq> Done (Inl e, t')"
    using e by (auto simp: apdu_end_def split: outcome.splits prod.splits if_splits)
  from run e one fin show ?thesis
    by (auto simp: pgm_transport_send_def pgm_transport_send_one_copy_def Let_def
        split: if_splits option.splits outcome.splits prod.splits)
qed


lemma rate_precheck_wire:
  "rate_precheck w t n flags = Done (ok, t') \<Longrightarrow> wire t' = wire t"
  by (auto simp: rate_precheck_def Let_def split: if_splits outcome.splits)

lemma sendv_apdus_loop_rearms:
  "sendv_apdus_loop w t vector count flags resume acc = Done (Inr k, t')
     \<Longrightarrow> (heartbeat_kept t t' \<and> wire t' = wire t)
         \<or> (heartbeat_reset_to (w_now w) t t' \<and> timer_prodded (w_time_after w) t t')"
proof (induction w t vector count flags resume acc rule: sendv_apdus_loop.induct)
  case (1 w t vector count flags resume acc)
  let ?i = "st_data_pkt_offset (state t)"
  show ?case
  proof (cases "\<not> resume \<and> \<not> ?i < count")
    case True
    with "1.prems" show ?thesis
      by (subst (asm) sendv_apdus_loop.simps) auto
  next
    case False
    with "1.prems" have inb: "\<not> length vector \<le> ?i"
      by (subst (asm) sendv_apdus_loop.simps) (auto split: if_splits)
    from "1.prems" False inb obtain sent t1 where
      call: "pgm_transport_send w t (iov_base (vector ! ?i)) (iov_len (vector ! ?i)) flags
               = Done (sent, t1)"
      by (subst (asm) sendv_apdus_loop.simps) (auto split: outcome.splits)
    let ?blocked = "(case sent of Inl e \<Rightarrow> True | Inr n \<Rightarrow> False)
                      \<and> errno_after_send w ?i sent = EAGAIN"
    let ?t2 = "t1\<lparr>state := (state t1)\<lparr>st_data_pkt_offset := st_data_pkt_offset (state t1) + 1\<rparr>\<rparr>"
    let ?acc = "if sent = Inr (iov_len (vector ! ?i)) then acc + iov_len (vector ! ?i) else acc"
    from "1.prems" False inb call have nb: "\<not> ?blocked"
      by (subst (asm) sendv_apdus_loop.simps) (auto split: if_splits)
    from "1.prems" False inb call nb
    have rest: "sendv_apdus_loop w ?t2 vector count flags False ?acc = Done (Inr k, t')"
      by (subst (asm) sendv_apdus_loop.simps) (simp split: if_splits)
    from "1.IH" [OF False inb call refl nb rest]
    have ih: "(heartbeat_kept ?t2 t' \<and> wire t' = wire ?t2)
         \<or> (heartbeat_reset_to (w_now w) ?t2 t' \<and> timer_prodded (w_time_after w) ?t2 t')" .
    have k12: "heartbeat_kept t1 ?t2" by simp
    show ?thesis
    proof (cases sent)
      case (Inr m)
      from pgm_transport_send_rearms [OF call [unfolded Inr]]
      have r1: "heartbeat_reset_to (w_now w) t t1" "timer_prodded (w_time_after w) t t1"
        by simp_all
      from ih show ?thesis
      proof
        assume "heartbeat_kept ?t2 t' \<and> wire t' = wire ?t2"
        then have "heartbeat_kept t1 t'" using k12 by (auto intro: heartbeat_kept_trans)
        from rearmed_between [OF heartbeat_kept_refl r1 this] show ?thesis by simp
      next
        assume a: "heartbeat_reset_to (w_now w) ?t2 t' \<and> timer_prodded (w_time_after w) ?t2 t'"
        from rearmed_between [OF k12 _ _ heartbeat_kept_refl] a
        have "heartbeat_reset_to (w_now w) t1 t' \<and> timer_prodded (w_time_after w) t1 t'"
          by blast
        with rearmed_twice [OF r1] show ?thesis by blast
      qed
    next
      case (Inl e)
      with nb have "e = InvalidArgument \<or> e = MessageSize \<or> e = ConnectionReset"
        by (cases e) (simp_all add: errno_after_send_def)
      from pgm_transport_send_refused [OF call [unfolded Inl] this] have same: "t1 = t" .
      have k: "heartbeat_kept t ?t2" using same by simp
      have wr: "wire ?t2 = wire t" using same by simp
      from ih show ?thesis
      proof
        assume "heartbeat_kept ?t2 t' \<and> wire t' = wire ?t2"
        with k wr show ?thesis by (auto intro: heartbeat_kept_trans)
      next
        assume a: "heartbeat_reset_to (w_now w) ?t2 t' \<and> timer_prodded (w_time_after w) ?t2 t'"
        from rearmed_between [OF k _ _ heartbeat_kept_refl] a show ?thesis by blast
      qed
    qed
  qed
qed


lemma rate_precheck_frame:
  "rate_precheck w t n flags = Done (ok, t') \<Longrightarrow> heartbeat_kept t t' \<and> wire t' = wire t"
  by (simp add: rate_precheck_heartbeat rate_precheck_wire)

lemma sendv_apdu_end_rearms:
  assumes b: "heartbeat_kept t t0"
    and e: "apdu_end w (sendv_apdu_loop t0 vector count resume no_counts) asserted retval
              = Done (Inr k, t')"
  shows "heartbeat_reset_to (w_now w) t t' \<and> timer_prodded (w_time_after w) t t'"
proof -
  from e obtain bl c1 t1 where
    d: "sendv_apdu_loop t0 vector count resume no_counts = Done (bl, c1, t1)"
    by (cases "sendv_apdu_loop t0 vector count resume no_counts") (auto simp: apdu_end_def)
  from sendv_apdu_loop_heartbeat [OF d] b
  have b1: "heartbeat_kept t t1" by (rule heartbeat_kept_trans [rotated])
  from rearmed_between [OF b1 _ _ heartbeat_kept_refl] apdu_end_rearms [OF e [unfolded d]]
  show ?thesis by blast
qed

lemma pgm_transport_sendv_one_apdu_rearms:
  assumes run: "pgm_transport_sendv w t vector_ptr count flags True = Done (Inr k, t')"
  shows "heartbeat_reset_to (w_now w) t t' \<and> timer_prodded (w_time_after w) t t'"
proof (cases "count = 0")
  case True
  with run have "pgm_transport_send_one_copy w t None count flags = Done (Inr k, t')"
    by (auto simp: pgm_transport_sendv_def split: if_splits)
  from send_one_copy_rearms [OF this] show ?thesis .
next
  case nz: False
  from run nz obtain vector where v: "vector_ptr = Some vector"
    by (cases vector_ptr) (auto simp: pgm_transport_sendv_def split: if_splits)
  show ?thesis
  proof (cases "is_apdu_eagain t")
    case True
    show ?thesis
    proof (cases "st_apdu_length (state t) < max_tsdu t")
      case short: True
      with run nz v True
      have "pgm_transport_send_onev w t vector_ptr count flags = Done (Inr k, t')"
        by (auto simp: pgm_transport_sendv_def split: if_splits)
      from send_onev_rearms [OF this] show ?thesis .
    next
      case False
      with run nz v True
      have "apdu_end w (sendv_apdu_loop t vector count True no_counts)
              (\<lambda>t. st_data_bytes_offset (state t) = st_apdu_length (state t))
              (\<lambda>cnt t. st_apdu_length (state t)) = Done (Inr k, t')"
        by (auto simp: pgm_transport_sendv_def split: if_splits)
      from sendv_apdu_end_rearms [OF heartbeat_kept_refl this] show ?thesis .
    qed
  next
    case ne: False
    from run nz v ne obtain al where al: "iov_total vector count 0 0 = Done al"
      by (cases "iov_total vector count 0 0")
         (auto simp: pgm_transport_sendv_def split: if_splits)
    let ?t1 = "t\<lparr>state := (state t)\<lparr>st_apdu_length := al\<rparr>\<rparr>"
    show ?thesis
    proof (cases "al < max_tsdu t")
      case True
      with run nz v ne al
      have r: "pgm_transport_send_onev w ?t1 vector_ptr count flags = Done (Inr k, t')"
        by (auto simp: pgm_transport_sendv_def Let_def split: if_splits)
      have "heartbeat_kept t ?t1" by simp
      from rearmed_between [OF this _ _ heartbeat_kept_refl] send_onev_rearms [OF r]
      show ?thesis by blast
    next
      case False
      with run nz v ne al obtain t2 where
        p: "rate_precheck w ?t1 al flags = Done (True, t2)"
        and e: "apdu_end w
                 (sendv_apdu_loop
                    (t2\<lparr>state := (state t2)\<lparr>st_data_bytes_offset := 0,
                          st_vector_index := 0, st_vector_offset := 0,
                          st_first_sqn := pgm_txw_next_lead (txw t2)\<rparr>\<rparr>)
                    vector count False no_counts)
                 (\<lambda>t. st_data_bytes_offset (state t) = st_apdu_length (state t))
                 (\<lambda>cnt t. st_apdu_length (state t)) = Done (Inr k, t')"
        by (auto simp: pgm_transport_sendv_def Let_def
            split: if_splits outcome.splits prod.splits)
      from rate_precheck_heartbeat [OF p]
      have "heartbeat_kept t
              (t2\<lparr>state := (state t2)\<lparr>st_data_bytes_offset := 0,
                    st_vector_index := 0, st_vector_offset := 0,
                    st_first_sqn := pgm_txw_next_lead (txw t2)\<rparr>\<rparr>)"
        by simp
      from sendv_apdu_end_rearms [OF this e] show ?thesis .
    qed
  qed
qed

lemma sendv_apdus_loop_from:
  assumes b: "heartbeat_kept t t0" and wr: "wire t0 = wire t"
    and l: "sendv_apdus_loop w t0 vector count flags resume 0 = Done (Inr k, t')"
  shows "(heartbeat_kept t t' \<and> wire t' = wire t)
         \<or> (heartbeat_reset_to (w_now w) t t' \<and> timer_prodded (w_time_after w) t t')"
  using sendv_apdus_loop_rearms [OF l]
proof
  assume "heartbeat_kept t0 t' \<and> wire t' = wire t0"
  with b wr show ?thesis by (auto intro: heartbeat_kept_trans)
next
  assume a: "heartbeat_reset_to (w_now w) t0 t' \<and> timer_prodded (w_time_after w) t0 t'"
  from rearmed_between [OF b _ _ heartbeat_kept_refl] a show ?thesis by blast
qed

lemma pgm_transport_sendv_apdus_rearms:
  assumes run: "pgm_transport_sendv w t vector_ptr count flags False = Done (Inr k, t')"
  shows "(heartbeat_kept t t' \<and> wire t' = wire t)
         \<or> (heartbeat_reset_to (w_now w) t t' \<and> timer_prodded (w_time_after w) t t')"
proof (cases "count = 0")
  case True
  with run have "pgm_transport_send_one_copy w t None count flags = Done (Inr k, t')"
    by (auto simp: pgm_transport_sendv_def split: if_splits)
  from send_one_copy_rearms [OF this] show ?thesis by simp
next
  case nz: False
  from run nz obtain vector where v: "vector_ptr = Some vector"
    by (cases vector_ptr) (auto simp: pgm_transport_sendv_def split: if_splits)
  show ?thesis
  proof (cases "is_apdu_eagain t")
    case True
    with run nz v
    have "sendv_apdus_loop w t vector count flags True 0 = Done (Inr k, t')"
      by (auto simp: pgm_transport_sendv_def split: if_splits)
    from sendv_apdus_loop_from [OF heartbeat_kept_refl refl this] show ?thesis .
  next
    case ne: False
    from run nz v ne obtain al where al: "iov_total vector count 0 0 = Done al"
      by (cases "iov_total vector count 0 0")
         (auto simp: pgm_transport_sendv_def split: if_splits)
    let ?t1 = "t\<lparr>state := (state t)\<lparr>st_apdu_length := al\<rparr>\<rparr>"
    from run nz v ne al obtain t2 where
      p: "rate_precheck w ?t1 al flags = Done (True, t2)"
      and l: "sendv_apdus_loop w (t2\<lparr>state := (state t2)\<lparr>st_data_pkt_offset := 0\<rparr>\<rparr>)
                vector count flags False 0 = Done (Inr k, t')"
      by (auto simp: pgm_transport_sendv_def Let_def
          split: if_splits outcome.splits prod.splits)
    from rate_precheck_frame [OF p]
    have "heartbeat_kept t (t2\<lparr>state := (state t2)\<lparr>st_data_pkt_offset := 0\<rparr>\<rparr>)"
      and "wire (t2\<lparr>state := (state t2)\<lparr>st_data_pkt_offset := 0\<rparr>\<rparr>) = wire t"
      by simp_all
    from sendv_apdus_loop_from [OF this l] show ?thesis .
  qed
qed

lemma skbv_apdu_end_rearms:
  assumes b: "heartbeat_kept t t0"
    and e: "apdu_end w (skbv_loop t0 vector count one resume no_counts) asserted retval
              = Done (Inr k, t')"
  shows "heartbeat_reset_to (w_now w) t t' \<and> timer_prodded (w_time_after w) t t'"
proof -
  from e obtain bl c1 t1 where
    d: "skbv_loop t0 vector count one resume no_counts = Done (bl, c1, t1)"
    by (cases "skbv_loop t0 vector count one resume no_counts") (auto simp: apdu_end_def)
  from skbv_loop_heartbeat [OF d] b
  have b1: "heartbeat_kept t t1" by (rule heartbeat_kept_trans [rotated])
  from rearmed_between [OF b1 _ _ heartbeat_kept_refl] apdu_end_rearms [OF e [unfolded d]]
  show ?thesis by blast
qed

lemma pgm_transport_send_skbv_rearms:
  assumes run: "pgm_transport_send_skbv w t vector_ptr count flags one = Done (Inr k, t')"
  shows "heartbeat_reset_to (w_now w) t t' \<and> timer_prodded (w_time_after w) t t'"
proof (cases "count = 0")
  case True
  with run have "pgm_transport_send_one_copy w t None count flags = Done (Inr k, t')"
    by (auto simp: pgm_transport_send_skbv_def split: if_splits)
  from send_one_copy_rearms [OF this] show ?thesis .
next
  case nz: False
  from run nz obtain vector where v: "vector_ptr = Some vector"
    by (cases vector_ptr) (auto simp: pgm_transport_send_skbv_def split: if_splits)
  show ?thesis
  proof (cases "count = 1")
    case True
    with run v have "pgm_transport_send_one w t (Some (vector ! 0)) flags = Done (Inr k, t')"
      by (auto simp: pgm_transport_send_skbv_def split: if_splits)
    from send_one_rearms [OF this] show ?thesis .
  next
    case many: False
    show ?thesis
    proof (cases "is_apdu_eagain t")
      case True
      with run nz v many
      have "apdu_end w (skbv_loop t vector count one True no_counts)
              (\<lambda>t. True) (\<lambda>cnt t. data_bytes_sent cnt) = Done (Inr k, t')"
        by (auto simp: pgm_transport_send_skbv_def split: if_splits)
      from skbv_apdu_end_rearms [OF heartbeat_kept_refl this] show ?thesis .
    next
      case False
      with run nz v many
      have "\<exists>s. apdu_end w (skbv_loop (t\<lparr>state := s\<rparr>) vector count one False no_counts)
              (\<lambda>t. True) (\<lambda>cnt t. data_bytes_sent cnt) = Done (Inr k, t')"
        by (auto simp: pgm_transport_send_skbv_def Let_def
            split: if_splits outcome.splits prod.splits)
      then obtain s where
        e: "apdu_end w (skbv_loop (t\<lparr>state := s\<rparr>) vector count one False no_counts)
              (\<lambda>t. True) (\<lambda>cnt t. data_bytes_sent cnt) = Done (Inr k, t')"
        by blast
      have "heartbeat_kept t (t\<lparr>state := s\<rparr>)" by simp
      from skbv_apdu_end_rearms [OF this e] show ?thesis .
    qed
  qed
qed

text \<open>Every return of a send: the heartbeat was reset, or nothing was counted.\<close>

lemma rearmed_or_kept_from:
  assumes b: "send_kept t t0"
    and r: "(heartbeat_reset_to now t0 t' \<and> timer_prodded after t0 t') \<or> send_kept t0 t'"
  shows "(heartbeat_reset_to now t t' \<and> timer_prodded after t t') \<or> send_kept t t'"
  using r
proof
  assume a: "heartbeat_reset_to now t0 t' \<and> timer_prodded after t0 t'"
  from b have "heartbeat_kept t t0" by (simp add: send_kept_def)
  from rearmed_between [OF this _ _ heartbeat_kept_refl] a show ?thesis by blast
next
  assume "send_kept t0 t'"
  with b show ?thesis by (auto intro: send_kept_trans)
qed

lemma retry_send_one_outcome:
  assumes "retry_send_one w t n = Done (r, t')"
  shows "(heartbeat_reset_to (w_now w) t t' \<and> timer_prodded (w_time_after w) t t')
         \<or> send_kept t t'"
proof (cases r)
  case (Inr k)
  with assms retry_send_one_rearms show ?thesis by blast
next
  case (Inl e)
  with assms have "send_kept t t'"
    by (auto simp: retry_send_one_def Let_def
        split: option.splits prod.splits if_splits outcome.splits dest!: pgm_sendto_kept)
  then show ?thesis by simp
qed

lemma apdu_end_outcome:
  assumes "apdu_end w (Done (b, cnt, t)) asserted retval = Done (r, t')"
  shows "(heartbeat_reset_to (w_now w) t t' \<and> timer_prodded (w_time_after w) t t')
         \<or> send_kept t t'"
proof (cases b)
  case False
  with assms obtain k where "r = Inr k"
    by (auto simp: apdu_end_def split: if_splits outcome.splits)
  with assms apdu_end_rearms show ?thesis by blast
next
  case True
  show ?thesis
  proof (cases "bytes_sent cnt = 0")
    case True
    with assms \<open>b\<close> show ?thesis by (simp add: apdu_end_def)
  next
    case False
    with assms \<open>b\<close> obtain rv t1 where
      r: "pgm_reset_heartbeat_spm (w_time_after w) (w_now w) t = Done (rv, t1)"
      and k: "heartbeat_kept t1 t'"
      by (auto simp: apdu_end_def split: outcome.splits)
    from reset_heartbeat_rearms [OF r] have
      "heartbeat_reset_to (w_now w) t t1" "timer_prodded (w_time_after w) t t1"
      by simp_all
    from rearmed_between [OF heartbeat_kept_refl this k] show ?thesis by simp
  qed
qed

lemma reset_or_kept_refl [simp]: "reset_or_kept w t t"
  by (simp add: reset_or_kept_def)

lemma retry_send_one_from:
  "retry_send_one w t0 n = Done (r, t') \<Longrightarrow> send_kept t t0 \<Longrightarrow> reset_or_kept w t t'"
  unfolding reset_or_kept_def
  by (rule rearmed_or_kept_from [OF _ retry_send_one_outcome])

lemma send_one_copy_outcome:
  assumes "pgm_transport_send_one_copy w t tsdu n flags = Done (r, t')"
  shows "reset_or_kept w t t'"
  using assms
  by (auto simp: pgm_transport_send_one_copy_def split: if_splits outcome.splits
      elim!: retry_send_one_from)

lemma send_one_outcome:
  assumes "pgm_transport_send_one w t skb_ptr flags = Done (r, t')"
  shows "reset_or_kept w t t'"
  using assms
  by (auto simp: pgm_transport_send_one_def Let_def split: option.splits if_splits
      elim!: retry_send_one_from)


lemma send_one_copy_from:
  "pgm_transport_send_one_copy w t0 tsdu n flags = Done (r, t') \<Longrightarrow> send_kept t t0
     \<Longrightarrow> reset_or_kept w t t'"
  using send_one_copy_outcome [of w t0 tsdu n flags r t'] rearmed_or_kept_from [of t t0]
  by (auto simp: reset_or_kept_def)

lemma send_onev_outcome:
  assumes "pgm_transport_send_onev w t vector_ptr count flags = Done (r, t')"
  shows "reset_or_kept w t t'"
  using assms
  by (auto simp: pgm_transport_send_onev_def Let_def split: if_splits outcome.splits
      elim!: retry_send_one_from send_one_copy_from)
     (simp add: reset_or_kept_def)

lemma send_onev_from:
  "pgm_transport_send_onev w t0 vector_ptr count flags = Done (r, t') \<Longrightarrow> send_kept t t0
     \<Longrightarrow> reset_or_kept w t t'"
  using send_onev_outcome [of w t0 vector_ptr count flags r t'] rearmed_or_kept_from [of t t0]
  by (auto simp: reset_or_kept_def)

lemma send_apdu_end_from:
  assumes e: "apdu_end w (send_apdu_loop t0 apdu n resume no_counts) asserted retval
                = Done (r, t')"
    and b: "send_kept t t0"
  shows "reset_or_kept w t t'"
proof -
  from e obtain bl c1 t1 where
    d: "send_apdu_loop t0 apdu n resume no_counts = Done (bl, c1, t1)"
    by (cases "send_apdu_loop t0 apdu n resume no_counts") (auto simp: apdu_end_def)
  from send_apdu_loop_kept [OF d] b have b1: "send_kept t t1"
    by (rule send_kept_trans [rotated])
  from rearmed_or_kept_from [OF b1 apdu_end_outcome [OF e [unfolded d]]] show ?thesis
    by (simp add: reset_or_kept_def)
qed

lemma sendv_apdu_end_from:
  assumes e: "apdu_end w (sendv_apdu_loop t0 vector count resume no_counts) asserted retval
                = Done (r, t')"
    and b: "send_kept t t0"
  shows "reset_or_kept w t t'"
proof -
  from e obtain bl c1 t1 where
    d: "sendv_apdu_loop t0 vector count resume no_counts = Done (bl, c1, t1)"
    by (cases "sendv_apdu_loop t0 vector count resume no_counts") (auto simp: apdu_end_def)
  from sendv_apdu_loop_kept [OF d] b have b1: "send_kept t t1"
    by (rule send_kept_trans [rotated])
  from rearmed_or_kept_from [OF b1 apdu_end_outcome [OF e [unfolded d]]] show ?thesis
    by (simp add: reset_or_kept_def)
qed

lemma skbv_apdu_end_from:
  assumes e: "apdu_end w (skbv_loop t0 vector count one resume no_counts) asserted retval
                = Done (r, t')"
    and b: "send_kept t t0"
  shows "reset_or_kept w t t'"
proof -
  from e obtain bl c1 t1 where
    d: "skbv_loop t0 vector count one resume no_counts = Done (bl, c1, t1)"
    by (cases "skbv_loop t0 vector count one resume no_counts") (auto simp: apdu_end_def)
  from skbv_loop_kept [OF d] b have b1: "send_kept t t1"
    by (rule send_kept_trans [rotated])
  from rearmed_or_kept_from [OF b1 apdu_end_outcome [OF e [unfolded d]]] show ?thesis
    by (simp add: reset_or_kept_def)
qed

lemma send_kept_reset_or_kept: "send_kept t t' \<Longrightarrow> reset_or_kept w t t'"
  by (simp add: reset_or_kept_def)

lemma pgm_transport_send_outcome:
  assumes run: "pgm_transport_send w t apdu n flags = Done (r, t')"
  shows "reset_or_kept w t t'"
  using run
  by (auto simp: pgm_transport_send_def Let_def
      split: if_splits option.splits outcome.splits prod.splits
      elim!: send_one_copy_from send_apdu_end_from
      dest!: rate_precheck_kept intro: send_kept_reset_or_kept)

lemma pgm_transport_send_skbv_outcome:
  assumes run: "pgm_transport_send_skbv w t vector_ptr count flags one = Done (r, t')"
  shows "reset_or_kept w t t'"
  using run
  by (auto simp: pgm_transport_send_skbv_def Let_def send_one_outcome
      split: if_splits option.splits outcome.splits prod.splits
      elim!: send_one_copy_from skbv_apdu_end_from
      intro: send_kept_reset_or_kept)


lemma reset_or_kept_trans:
  assumes a: "reset_or_kept w t t1" and b: "reset_or_kept w t1 t'"
  shows "reset_or_kept w t t'"
proof (cases "send_kept t t1")
  case True
  from rearmed_or_kept_from [OF True b [unfolded reset_or_kept_def]] show ?thesis
    by (simp add: reset_or_kept_def)
next
  case False
  with a have r1: "heartbeat_reset_to (w_now w) t t1" "timer_prodded (w_time_after w) t t1"
    by (simp_all add: reset_or_kept_def)
  show ?thesis
  proof (cases "send_kept t1 t'")
    case True
    then have "heartbeat_kept t1 t'" by (simp add: send_kept_def)
    from rearmed_between [OF heartbeat_kept_refl r1 this] show ?thesis
      by (simp add: reset_or_kept_def)
  next
    case False
    with b have "heartbeat_reset_to (w_now w) t1 t'" "timer_prodded (w_time_after w) t1 t'"
      by (simp_all add: reset_or_kept_def)
    from rearmed_twice [OF r1 this] show ?thesis by (simp add: reset_or_kept_def)
  qed
qed

lemma sendv_apdus_loop_outcome:
  "sendv_apdus_loop w t vector count flags resume acc = Done (r, t')
     \<Longrightarrow> reset_or_kept w t t'"
proof (induction w t vector count flags resume acc rule: sendv_apdus_loop.induct)
  case (1 w t vector count flags resume acc)
  let ?i = "st_data_pkt_offset (state t)"
  show ?case
  proof (cases "\<not> resume \<and> \<not> ?i < count")
    case True
    with "1.prems" show ?thesis
      by (subst (asm) sendv_apdus_loop.simps) (auto simp: reset_or_kept_def)
  next
    case False
    with "1.prems" have inb: "\<not> length vector \<le> ?i"
      by (subst (asm) sendv_apdus_loop.simps) (auto split: if_splits)
    from "1.prems" False inb obtain sent t1 where
      call: "pgm_transport_send w t (iov_base (vector ! ?i)) (iov_len (vector ! ?i)) flags
               = Done (sent, t1)"
      by (subst (asm) sendv_apdus_loop.simps) (auto split: outcome.splits)
    note c = pgm_transport_send_outcome [OF call]
    let ?blocked = "(case sent of Inl e \<Rightarrow> True | Inr n \<Rightarrow> False)
                      \<and> errno_after_send w ?i sent = EAGAIN"
    let ?t2 = "t1\<lparr>state := (state t1)\<lparr>st_data_pkt_offset := st_data_pkt_offset (state t1) + 1\<rparr>\<rparr>"
    let ?acc = "if sent = Inr (iov_len (vector ! ?i)) then acc + iov_len (vector ! ?i) else acc"
    show ?thesis
    proof (cases ?blocked)
      case True
      with "1.prems" False inb call have "t' = t1\<lparr>is_apdu_eagain := True\<rparr>"
        by (subst (asm) sendv_apdus_loop.simps) (auto split: if_splits)
      then have "reset_or_kept w t1 t'" by (simp add: reset_or_kept_def)
      from reset_or_kept_trans [OF c this] show ?thesis .
    next
      case nb: False
      from "1.prems" False inb call nb
      have rest: "sendv_apdus_loop w ?t2 vector count flags False ?acc = Done (r, t')"
        by (subst (asm) sendv_apdus_loop.simps) (simp split: if_splits)
      from "1.IH" [OF False inb call refl nb rest] have ih: "reset_or_kept w ?t2 t'" .
      have "reset_or_kept w t1 ?t2" by (simp add: reset_or_kept_def)
      from reset_or_kept_trans [OF c reset_or_kept_trans [OF this ih]] show ?thesis .
    qed
  qed
qed

lemma sendv_apdus_loop_outcome_from:
  "sendv_apdus_loop w t0 vector count flags resume acc = Done (r, t') \<Longrightarrow> send_kept t t0
     \<Longrightarrow> reset_or_kept w t t'"
  using sendv_apdus_loop_outcome [of w t0 vector count flags resume acc r t']
    reset_or_kept_trans [of w t t0 t']
  by (simp add: send_kept_reset_or_kept)

lemma pgm_transport_sendv_outcome:
  assumes run: "pgm_transport_sendv w t vector_ptr count flags one = Done (r, t')"
  shows "reset_or_kept w t t'"
  using run
  by (auto simp: pgm_transport_sendv_def Let_def
      split: if_splits option.splits outcome.splits prod.splits
      elim!: send_one_copy_from send_onev_from sendv_apdu_end_from sendv_apdus_loop_outcome_from
      dest!: rate_precheck_kept intro: send_kept_reset_or_kept)

lemma counted_not_kept:
  "odata_counted t t' \<Longrightarrow> reset_or_kept w t t'
     \<Longrightarrow> heartbeat_reset_to (w_now w) t t' \<and> timer_prodded (w_time_after w) t t'"
  by (auto simp: odata_counted_def reset_or_kept_def send_kept_def)

lemma send_rdata_rearms:
  assumes run: "send_rdata now t skb = Done (ok, skb', t')"
  shows "heartbeat_reset_to now t t' \<and> next_poll t' = next_poll t
         \<and> timer_notify t' = timer_notify t"
proof -
  let ?rdata = "skb\<lparr>pgm_type := PGM_RDATA, data_trail := pgm_txw_trail (txw t)\<rparr>"
  obtain sent t1 where s: "pgm_sendto t True True (Data_packet ?rdata) (skb_len skb) = (sent, t1)"
    by (cases "pgm_sendto t True True (Data_packet ?rdata) (skb_len skb)")
  from pgm_sendto_heartbeat [OF s] have k: "spm_heartbeat_interval t1 = spm_heartbeat_interval t"
    "next_poll t1 = next_poll t" "timer_notify t1 = timer_notify t"
    by (simp_all add: heartbeat_kept_def)
  have i: "heartbeat_interval_at t1 (Suc 0) = heartbeat_interval_at t (Suc 0)"
    using k(1) by (simp add: heartbeat_interval_at_def)
  from run s show ?thesis
    unfolding heartbeat_reset_to_iff
    by (auto simp: send_rdata_def Let_def i k split: outcome.splits if_splits)
qed


text \<open>
  Runs on the transport whose \<open>next_poll\<close> is 1000 s away: a send of 4000 bytes, a
  vector of two APDUs, and two buffers as one APDU.
\<close>

lemma repair_send_run:
  "is_Done (pgm_transport_send quiet_world repair_transport (Some (replicate 4000 0)) 4000 blocking)
   \<and> fst (result (pgm_transport_send quiet_world repair_transport (Some (replicate 4000 0)) 4000 blocking)) = Inr 4000"
  by (simp add: send_defs send_apdu_loop.simps send_fragment_step_def
      rate_precheck_def stat_add_def repair_transport_def buffered_skb_def)

lemma repair_sendv_run:
  "is_Done (pgm_transport_sendv quiet_world repair_transport (Some two_apdus) 2 blocking False)
   \<and> fst (result (pgm_transport_sendv quiet_world repair_transport (Some two_apdus) 2 blocking False)) = Inr 200
   \<and> length (wire (snd (result (pgm_transport_sendv quiet_world repair_transport (Some two_apdus) 2 blocking False)))) = 2"
  by (simp add: send_defs pgm_transport_sendv_def sendv_apdus_loop.simps iov_total.simps
      retry_send_one_def errno_after_send_def two_apdus_def
      rate_precheck_def stat_add_def repair_transport_def buffered_skb_def)

lemma repair_skbv_run:
  "is_Done (pgm_transport_send_skbv quiet_world repair_transport (Some [payload_skb, payload_skb]) 2 blocking True)
   \<and> fst (result (pgm_transport_send_skbv quiet_world repair_transport (Some [payload_skb, payload_skb]) 2 blocking True)) = Inr 200"
  by (simp add: send_defs skbv_apdu_length.simps stat_add_def repair_transport_def buffered_skb_def)


lemma choked_send_run:
  "is_Done (pgm_transport_send quiet_world choked_transport (Some (replicate 4000 0)) 4000 nonblocking)
   \<and> fst (result (pgm_transport_send quiet_world choked_transport (Some (replicate 4000 0)) 4000 nonblocking)) = Inl WouldBlock
   \<and> odata_counted choked_transport
        (snd (result (pgm_transport_send quiet_world choked_transport (Some (replicate 4000 0)) 4000 nonblocking)))"
  by (simp add: send_defs send_apdu_loop.simps send_fragment_step_def nonblocking_def
      rate_precheck_def stat_add_def repair_transport_def buffered_skb_def choked_transport_def
      odata_counted_def)

lemma repair_transport_rearmed:
  assumes "heartbeat_reset_to 0 repair_transport t'"
  shows "spm_heartbeat_state t' = 2 \<and> next_heartbeat_spm t' = 100000"
    and "timer_prodded later repair_transport t'
           \<Longrightarrow> next_poll t' = 100000 \<and> 0 < pending (timer_notify t')"
    and "next_poll t' = next_poll repair_transport \<and> timer_notify t' = timer_notify repair_transport
           \<Longrightarrow> next_poll t' = 1000000000 \<and> timer_notify t' = \<lparr>pending = 0, broken = False\<rparr>"
proof -
  have i: "heartbeat_interval_at repair_transport (Suc 0) = Done 100000"
    by (simp add: heartbeat_interval_at_def repair_transport_def open_transport_def)
  from assms show d: "spm_heartbeat_state t' = 2 \<and> next_heartbeat_spm t' = 100000"
    unfolding heartbeat_reset_to_iff i by simp
  have p: "next_poll repair_transport = 1000000000"
    and n: "timer_notify repair_transport = \<lparr>pending = 0, broken = False\<rparr>"
    by (simp_all add: repair_transport_def open_transport_def fresh_transport_def)
  show "next_poll t' = 100000 \<and> 0 < pending (timer_notify t')"
    if "timer_prodded later repair_transport t'"
    using that d by (simp add: timer_prodded_def p n later_def)
  show "next_poll t' = 1000000000 \<and> timer_notify t' = \<lparr>pending = 0, broken = False\<rparr>"
    if "next_poll t' = next_poll repair_transport \<and> timer_notify t' = timer_notify repair_transport"
    using that by (simp add: p n)
qed

lemma choked_transport_rearmed:
  assumes "heartbeat_reset_to 0 choked_transport t'"
    and "timer_prodded later choked_transport t'"
  shows "spm_heartbeat_state t' = 2 \<and> next_heartbeat_spm t' = 100000
         \<and> next_poll t' = 100000 \<and> 0 < pending (timer_notify t')"
proof -
  have i: "heartbeat_interval_at choked_transport (Suc 0) = Done 100000"
    by (simp add: heartbeat_interval_at_def choked_transport_def repair_transport_def
        open_transport_def)
  from assms(1) have d: "spm_heartbeat_state t' = 2 \<and> next_heartbeat_spm t' = 100000"
    unfolding heartbeat_reset_to_iff i by simp
  have p: "next_poll choked_transport = 1000000000"
    and n: "timer_notify choked_transport = \<lparr>pending = 0, broken = False\<rparr>"
    by (simp_all add: choked_transport_def repair_transport_def open_transport_def
        fresh_transport_def)
  from assms(2) d show ?thesis
    by (simp add: timer_prodded_def p n later_def)
qed



subsection \<open>The divisor in the repair consumer\<close>

lemma heartbeat_interval_at_no_div:
  "heartbeat_interval_at t i \<noteq> Crash DivisionByZero"
  by (simp add: heartbeat_interval_at_def split: option.splits)

lemma send_rdata_no_div: "send_rdata now t skb \<noteq> Crash DivisionByZero"
  using heartbeat_interval_at_no_div
  by (auto simp: send_rdata_def Let_def split: prod.splits outcome.splits)

lemma parity_scan_no_div:
  "parity_scan w tg k i pl var enc \<noteq> Crash DivisionByZero"
proof (induction w tg k i pl var enc rule: parity_scan.induct)
  case (1 w tg k i pl var enc)
  show ?case
  proof (cases "i < k")
    case False
    then show ?thesis by (subst parity_scan.simps) simp
  next
    case True
    show ?thesis
    proof (cases "pgm_txw_peek w (tg + of_nat i)")
      case None
      with True show ?thesis by (subst parity_scan.simps) simp
    next
      case (Some skb)
      with True "1.IH" [OF True Some] show ?thesis
        by (subst parity_scan.simps) (simp add: Let_def split: prod.splits)
    qed
  qed
qed


lemma parity_pad_no_div:
  "parity_pad w tg k i pl \<noteq> Crash DivisionByZero"
proof (induction w tg k i pl rule: parity_pad.induct)
  case (1 w tg k i pl)
  show ?case
  proof (cases "i < k")
    case False
    then show ?thesis by (subst parity_pad.simps) simp
  next
    case True
    show ?thesis
    proof (cases "pgm_txw_peek w (tg + of_nat i)")
      case None
      with True show ?thesis by (subst parity_pad.simps) simp
    next
      case (Some skb)
      with True "1.IH" [OF True Some] show ?thesis
        by (subst parity_pad.simps) (simp add: Let_def)
    qed
  qed
qed

lemma build_parity_no_div: "build_parity rs t r h \<noteq> Crash DivisionByZero"
proof -
  have "build_parity rs t r h = Crash c \<Longrightarrow> c \<noteq> DivisionByZero" for c
    using parity_scan_no_div parity_pad_no_div
    unfolding build_parity_def Let_def
    by (auto split: outcome.splits prod.splits if_splits)
  then show ?thesis by blast
qed

text \<open>
  A selective repair runs to its end whenever the two Reed-Solomon parameters differ
  and the heartbeat schedule can be read.
\<close>

lemma on_nak_notify_selective_runs:
  assumes peek: "pgm_txw_retransmit_try_peek (txw t) = Some (Some r, False, h)"
    and ne: "rs_n t \<noteq> rs_k t"
    and sched: "spm_heartbeat_interval t = Some a" "1 < length a" "a ! 1 = Some v"
  shows "is_Done (on_nak_notify rs now t)"
proof -
  let ?t0 = "t\<lparr>rdata_notify := pgm_notify_read (rdata_notify t)\<rparr>"
  have s0: "spm_heartbeat_interval ?t0 = Some a" using sched by simp
  from send_rdata_effect [OF s0 sched(2,3), of now r]
  obtain ok skb' t' where "send_rdata now ?t0 r = Done (ok, skb', t')" by blast
  with peek ne show ?thesis
    by (simp add: on_nak_notify_def Let_def)
qed

text \<open>
  C10, as amended. When the retransmit queue has an entry, \<open>on_nak_notify\<close> divides
  by zero exactly when \<open>rs_n = rs_k\<close>, whether the entry is a parity request or a
  selective one: the modulus is taken before the branch, in unsigned arithmetic.
\<close>

theorem on_nak_notify_divisor:
  assumes peek: "pgm_txw_retransmit_try_peek (txw t) = Some (r, is_parity, h)"
  shows "(on_nak_notify rs now t = Crash DivisionByZero) = (rs_n t = rs_k t)"
proof (cases "rs_n t = rs_k t")
  case True
  with peek show ?thesis by (simp add: on_nak_notify_def Let_def)
next
  case False
  have "on_nak_notify rs now t \<noteq> Crash DivisionByZero"
    using peek False send_rdata_no_div build_parity_no_div
    unfolding on_nak_notify_def Let_def
    by (auto split: option.splits outcome.splits prod.splits)
  with False show ?thesis by simp
qed


theorem on_nak_notify_divisor_witness:
  "pgm_txw_retransmit_try_peek (txw repair_transport) = Some (Some buffered_skb, False, 0)
   \<and> rs_n repair_transport = rs_k repair_transport
   \<and> on_nak_notify zero_rs 0 repair_transport = Crash DivisionByZero"
proof -
  have p: "pgm_txw_retransmit_try_peek (txw repair_transport) = Some (Some buffered_skb, False, 0)"
    by (simp add: pgm_txw_retransmit_try_peek_def pgm_txw_peek_def repair_transport_def
        buffered_skb_def)
  have e: "rs_n repair_transport = rs_k repair_transport"
    by (simp add: repair_transport_def open_transport_def fresh_transport_def)
  show ?thesis
    using p e on_nak_notify_divisor [OF p, of zero_rs 0] by simp
qed

text \<open>
  C10 as stated fails at \<open>rs_n = 1\<close>, \<open>rs_k = 2\<close>: \<open>rs_n > rs_k\<close> does not hold,
  the difference wraps to \<open>2^32 - 1\<close>, and the selective repair at the head of the queue
  runs to its end.
\<close>

theorem on_nak_notify_divisor_counterexample:
  "\<not> rs_k (repair_transport\<lparr>rs_n := 1, rs_k := 2\<rparr>) < rs_n (repair_transport\<lparr>rs_n := 1, rs_k := 2\<rparr>)
   \<and> pgm_txw_retransmit_try_peek (txw (repair_transport\<lparr>rs_n := 1, rs_k := 2\<rparr>))
       = Some (Some buffered_skb, False, 0)
   \<and> is_Done (on_nak_notify zero_rs 0 (repair_transport\<lparr>rs_n := 1, rs_k := 2\<rparr>))"
proof -
  let ?t = "repair_transport\<lparr>rs_n := 1, rs_k := 2\<rparr>"
  have p: "pgm_txw_retransmit_try_peek (txw ?t) = Some (Some buffered_skb, False, 0)"
    by (simp add: pgm_txw_retransmit_try_peek_def pgm_txw_peek_def repair_transport_def
        buffered_skb_def)
  have ne: "rs_n ?t \<noteq> rs_k ?t" by simp
  have a: "spm_heartbeat_interval ?t = Some [Some 0, Some 100000, Some 0]"
    by (simp add: repair_transport_def open_transport_def)
  have "is_Done (on_nak_notify zero_rs 0 ?t)"
    by (rule on_nak_notify_selective_runs [OF p ne a]) simp_all
  with p show ?thesis by simp
qed

subsection \<open>The send paths, run\<close>

text \<open>
  A send of 4000 bytes on the open transport: three fragments with offsets 0, 1440 and
  2880, and \<open>data_bytes_offset\<close> is left at 4000.
\<close>

lemma first_apdu_run:
  "pgm_transport_send quiet_world open_transport (Some (replicate 4000 0)) 4000 blocking
     = Done (Inr 4000, after_first_apdu)"
  by (simp add: send_defs send_apdu_loop.simps send_fragment_step_def
      rate_precheck_def stat_add_def after_first_apdu_def first_apdu_fragment_def
      first_apdu_call_def)

text \<open>
  C1, at \<open>pgm_transport_send_skbv\<close> of two buffers of 100 bytes as one APDU, after
  the send of 4000 bytes: the two fragments carry the offsets 4000 and 4100, not 0 and
  100. The function never sets \<open>STATE(data_bytes_offset)\<close> to 0.
\<close>

theorem send_skbv_stale_frag_off:
  "is_Done (pgm_transport_send_skbv quiet_world after_first_apdu
       (Some [payload_skb, payload_skb]) 2 blocking True)
   \<and> fst (result (pgm_transport_send_skbv quiet_world after_first_apdu
       (Some [payload_skb, payload_skb]) 2 blocking True)) = Inr 200
   \<and> drop 3 (sent_fragments (snd (result (pgm_transport_send_skbv quiet_world after_first_apdu
       (Some [payload_skb, payload_skb]) 2 blocking True))))
       = [Some \<lparr>opt_sqn = 3, opt_frag_off = 4000, opt_frag_len = 200\<rparr>,
          Some \<lparr>opt_sqn = 3, opt_frag_off = 4100, opt_frag_len = 200\<rparr>]"
  by (simp add: send_defs sent_fragments_def skbv_apdu_length.simps stat_add_def
      after_first_apdu_def first_apdu_fragment_def first_apdu_call_def)


text \<open>
  C2, at \<open>pgm_transport_send_skbv\<close> of two buffers of 100 bytes as one APDU when
  the socket takes the first packet, 144 bytes, and fails, not with \<open>EAGAIN\<close>, on
  the second: both packets are in the window, 200 bytes, and the call returns 100.
\<close>

theorem send_skbv_returns_sent_bytes:
  "is_Done (pgm_transport_send_skbv quiet_world
       (open_transport\<lparr>sendto_results := [Sent 144, Send_failed]\<rparr>)
       (Some [payload_skb, payload_skb]) 2 blocking True)
   \<and> fst (result (pgm_transport_send_skbv quiet_world
       (open_transport\<lparr>sendto_results := [Sent 144, Send_failed]\<rparr>)
       (Some [payload_skb, payload_skb]) 2 blocking True)) = Inr 100
   \<and> map pgm_tsdu_length (txw_pkts (txw (snd (result (pgm_transport_send_skbv quiet_world
       (open_transport\<lparr>sendto_results := [Sent 144, Send_failed]\<rparr>)
       (Some [payload_skb, payload_skb]) 2 blocking True))))) = [100, 100]
   \<and> map sent_len (wire (snd (result (pgm_transport_send_skbv quiet_world
       (open_transport\<lparr>sendto_results := [Sent 144, Send_failed]\<rparr>)
       (Some [payload_skb, payload_skb]) 2 blocking True)))) = [144, 144]"
  by (simp add: send_defs skbv_apdu_length.simps)


subsection \<open>A send of no bytes\<close>

lemma reset_heartbeat_frame:
  "pgm_reset_heartbeat_spm after now t = Done (rv, t') \<Longrightarrow>
     wire t' = wire t \<and> txw t' = txw t \<and> use_proactive_parity t' = use_proactive_parity t
     \<and> iphdr_len t' = iphdr_len t"
  by (auto simp: pgm_reset_heartbeat_spm_def Let_def split: outcome.splits prod.splits if_splits)

lemma end_of_transmission_group_pkts [simp]:
  "txw_pkts (txw (end_of_transmission_group t skb)) = txw_pkts (txw t)"
  by (simp add: end_of_transmission_group_def pgm_schedule_proactive_nak_def
      pgm_txw_retransmit_push_def Let_def split: prod.splits)

lemma send_one_copy_zero:
  assumes ne: "\<not> is_apdu_eagain t" and fl: "flags_ok flags"
    and sched: "spm_heartbeat_interval t = Some a" "1 < length a" "a ! 1 = Some v"
    and sock: "sendto_results t = [] \<or> hd (sendto_results t) \<noteq> Send_EAGAIN"
  shows "\<exists>t'. pgm_transport_send_one_copy w t tsdu 0 flags = Done (Inr 0, t')
          \<and> wire t' = wire t @ [\<lparr>sent_packet = Data_packet (odata_packet t 0 []),
                 sent_len = pgm_transport_pkt_offset False,
                 use_rate_limit = True, use_router_alert = False\<rparr>]
          \<and> txw_pkts (txw t') = txw_pkts (pgm_txw_add (txw t) (odata_packet t 0 []))"
proof -
  let ?skb = "odata_packet t 0 []"
  let ?t0 = "admit t ?skb"
  obtain sent t1 where s: "pgm_sendto ?t0 True False (Data_packet ?skb) (skb_len ?skb) = (sent, t1)"
    by (cases "pgm_sendto ?t0 True False (Data_packet ?skb) (skb_len ?skb)")
  have ns: "sent \<noteq> Send_EAGAIN"
    using s sock by (auto simp: pgm_sendto_def admit_def Let_def split: list.splits)
  have w1: "wire t1 = wire t @ [\<lparr>sent_packet = Data_packet ?skb, sent_len = skb_len ?skb,
                 use_rate_limit = True, use_router_alert = False\<rparr>]"
    using pgm_sendto_wire [OF s] by (simp add: admit_def)
  have x1: "txw t1 = pgm_txw_add (txw t) ?skb"
    using pgm_sendto_frame [OF s] by (simp add: admit_def)
  have h1: "spm_heartbeat_interval (t1\<lparr>is_apdu_eagain := False\<rparr>) = Some a"
    using pgm_sendto_frame [OF s] sched by (simp add: admit_def)
  from reset_heartbeat_effect [OF h1 sched(2,3), of "w_time_after w" "w_now w"]
  obtain rv t2 where r: "pgm_reset_heartbeat_spm (w_time_after w) (w_now w)
        (t1\<lparr>is_apdu_eagain := False\<rparr>) = Done (rv, t2)"
    by blast
  note f = reset_heartbeat_frame [OF r]
  have len: "skb_len ?skb = pgm_transport_pkt_offset False" by (simp add: odata_packet_def)
  have "pgm_transport_send_one_copy w t tsdu 0 flags = retry_send_one w ?t0 0"
    using ne fl by (simp add: pgm_transport_send_one_copy_def)
  then show ?thesis
    using s ns r f w1 x1 len
    by (auto simp: retry_send_one_def admit_def Let_def)
qed

text \<open>
  C9, as amended. On an open transport with room for a payload (\<open>max_tsdu > 0\<close>),
  not resuming a blocked send, with flags other than \<open>MSG_WAITALL\<close> alone, with its
  heartbeat schedule set, and with a socket that does not answer \<open>EAGAIN\<close>:
  \<open>pgm_transport_send\<close> of 0 bytes, whether the buffer is \<open>NULL\<close> or not, takes
  the single-packet copy path, adds one ODATA without options and with
  \<open>tsdu_length\<close> 0 to the window, offers that packet to the socket once and returns
  0; \<open>pgm_transport_sendv\<close> and \<open>pgm_transport_send_skbv\<close> with \<open>count = 0\<close>
  are the same send.
\<close>

theorem zero_length_send:
  assumes op: "is_open t" and mt: "0 < max_tsdu t"
    and ne: "\<not> is_apdu_eagain t" and fl: "flags_ok flags"
    and sched: "spm_heartbeat_interval t = Some a" "1 < length a" "a ! 1 = Some v"
    and sock: "sendto_results t = [] \<or> hd (sendto_results t) \<noteq> Send_EAGAIN"
  shows "(\<exists>t'. pgm_transport_send w t apdu 0 flags = Done (Inr 0, t')
          \<and> wire t' = wire t @ [\<lparr>sent_packet = Data_packet (odata_packet t 0 []),
                 sent_len = pgm_transport_pkt_offset False,
                 use_rate_limit = True, use_router_alert = False\<rparr>]
          \<and> txw_pkts (txw t') = txw_pkts (pgm_txw_add (txw t) (odata_packet t 0 [])))
       \<and> pgm_type (odata_packet t 0 []) = PGM_ODATA
       \<and> pgm_options (odata_packet t 0 []) = 0
       \<and> pgm_tsdu_length (odata_packet t 0 []) = 0
       \<and> pgm_transport_send w t apdu 0 flags = pgm_transport_send_one_copy w t apdu 0 flags
       \<and> pgm_transport_sendv w t vector 0 flags is_one_apdu
           = pgm_transport_send_one_copy w t None 0 flags
       \<and> pgm_transport_send_skbv w t skbs 0 flags is_one_apdu
           = pgm_transport_send_one_copy w t None 0 flags
       \<and> pgm_transport_send_one_copy w t None 0 flags
           = pgm_transport_send_one_copy w t apdu 0 flags"
proof -
  have a: "pgm_transport_send w t apdu 0 flags = pgm_transport_send_one_copy w t apdu 0 flags"
    using op mt by (simp add: pgm_transport_send_def)
  have b: "pgm_transport_send_one_copy w t None 0 flags
           = pgm_transport_send_one_copy w t apdu 0 flags"
    by (simp add: pgm_transport_send_one_copy_def)
  show ?thesis
    unfolding a
    using send_one_copy_zero [OF ne fl sched sock, of w apdu] op b
    by (simp add: pgm_transport_sendv_def pgm_transport_send_skbv_def odata_packet_def)
qed


theorem zero_length_send_witness:
  "is_open open_transport \<and> 0 < max_tsdu open_transport \<and> \<not> is_apdu_eagain open_transport
   \<and> flags_ok blocking
   \<and> (\<exists>t'. pgm_transport_send quiet_world open_transport None 0 blocking = Done (Inr 0, t')
          \<and> wire t' = [\<lparr>sent_packet = Data_packet (odata_packet open_transport 0 []),
                 sent_len = 24, use_rate_limit = True, use_router_alert = False\<rparr>]
          \<and> map pgm_tsdu_length (txw_pkts (txw t')) = [0])
   \<and> pgm_transport_sendv quiet_world open_transport None 0 blocking True
       = pgm_transport_send quiet_world open_transport None 0 blocking
   \<and> pgm_transport_send_skbv quiet_world open_transport None 0 blocking True
       = pgm_transport_send quiet_world open_transport None 0 blocking"
proof -
  have op: "is_open open_transport" and mt: "0 < max_tsdu open_transport"
    and ne: "\<not> is_apdu_eagain open_transport"
    and sock: "sendto_results open_transport = []
                 \<or> hd (sendto_results open_transport) \<noteq> Send_EAGAIN"
    and w0: "wire open_transport = []"
    and x0: "txw_pkts (txw open_transport) = []" "txw_capacity (txw open_transport) = 32"
    by (simp_all add: open_transport_def fresh_transport_def)
  have fl: "flags_ok blocking" by (simp add: flags_ok_def blocking_def)
  have a: "spm_heartbeat_interval open_transport = Some [Some 0, Some 100000, Some 0]"
    by (simp add: open_transport_def)
  have b: "1 < length [Some 0, Some (100000 :: guint32), Some 0]" by simp
  have c: "[Some 0, Some (100000 :: guint32), Some 0] ! 1 = Some 100000" by simp
  have off: "pgm_transport_pkt_offset False = 24"
    by (simp add: pgm_transport_pkt_offset_def sizeof_pgm_header_def sizeof_pgm_data_def)
  note z = zero_length_send [OF op mt ne fl a b c sock, of quiet_world None None True None]
  from z obtain t' where
    run: "pgm_transport_send quiet_world open_transport None 0 blocking = Done (Inr 0, t')"
    and w: "wire t' = wire open_transport @ [\<lparr>sent_packet = Data_packet (odata_packet open_transport 0 []),
                 sent_len = pgm_transport_pkt_offset False,
                 use_rate_limit = True, use_router_alert = False\<rparr>]"
    and x: "txw_pkts (txw t')
              = txw_pkts (pgm_txw_add (txw open_transport) (odata_packet open_transport 0 []))"
    by blast
  have x': "map pgm_tsdu_length (txw_pkts (txw t')) = [0]"
    unfolding x using x0 by (simp add: pgm_txw_add_def Let_def odata_packet_def)
  have "\<exists>t'. pgm_transport_send quiet_world open_transport None 0 blocking = Done (Inr 0, t')
          \<and> wire t' = [\<lparr>sent_packet = Data_packet (odata_packet open_transport 0 []),
                 sent_len = 24, use_rate_limit = True, use_router_alert = False\<rparr>]
          \<and> map pgm_tsdu_length (txw_pkts (txw t')) = [0]"
    using run w w0 off x' by (intro exI [of _ t']) simp
  moreover have "pgm_transport_sendv quiet_world open_transport None 0 blocking True
       = pgm_transport_send quiet_world open_transport None 0 blocking"
    and "pgm_transport_send_skbv quiet_world open_transport None 0 blocking True
       = pgm_transport_send quiet_world open_transport None 0 blocking"
    using z by simp_all
  ultimately show ?thesis
    using op mt ne fl by blast
qed


text \<open>
  A send of 100 bytes with \<open>MSG_DONTWAIT\<close> that the socket answers with \<open>EAGAIN\<close>
  leaves the transport blocked in the middle of the send.
\<close>

lemma blocked_run:
  "pgm_transport_send quiet_world (open_transport\<lparr>sendto_results := [Send_EAGAIN]\<rparr>)
     (Some (replicate 100 0)) 100 nonblocking = Done (Inl WouldBlock, blocked_transport)"
  by (simp add: send_defs retry_send_one_def nonblocking_def blocked_transport_def
      buffered_skb_def PGM_ODATA_def)

text \<open>
  C9 as stated fails on open transports. When the socket answers \<open>EAGAIN\<close> the send
  of 0 bytes returns \<open>-1\<close>. On the blocked transport it returns 0 but takes no new
  packet: it offers the blocked packet of 100 bytes again. With \<open>MSG_WAITALL\<close> alone
  the assertion of the path fails, without a heartbeat schedule the reset reads through
  \<open>NULL\<close>, and with \<open>max_tsdu = 0\<close> the call leaves the single-packet path and
  refuses the \<open>NULL\<close> buffer with \<open>-EINVAL\<close>.
\<close>

theorem zero_length_send_counterexample:
  "is_Done (pgm_transport_send quiet_world (open_transport\<lparr>sendto_results := [Send_EAGAIN]\<rparr>)
       None 0 nonblocking)
   \<and> fst (result (pgm_transport_send quiet_world
          (open_transport\<lparr>sendto_results := [Send_EAGAIN]\<rparr>) None 0 nonblocking))
       = Inl WouldBlock
   \<and> is_Done (pgm_transport_send quiet_world blocked_transport None 0 nonblocking)
   \<and> fst (result (pgm_transport_send quiet_world blocked_transport None 0 nonblocking)) = Inr 0
   \<and> sent_tsdu_lengths
        (snd (result (pgm_transport_send quiet_world blocked_transport None 0 nonblocking)))
       = [100, 100]
   \<and> pgm_transport_send quiet_world open_transport None 0
        \<lparr>msg_dontwait = False, msg_waitall = True\<rparr> = Crash AssertionFailed
   \<and> pgm_transport_send quiet_world (fresh_transport\<lparr>is_open := True\<rparr>) None 0 blocking
        = Crash NullDereference
   \<and> pgm_transport_send quiet_world (open_transport\<lparr>max_tsdu := 0\<rparr>) None 0 blocking
        = Done (Inl InvalidArgument, open_transport\<lparr>max_tsdu := 0\<rparr>)"
  by (simp add: send_defs retry_send_one_def nonblocking_def blocked_transport_def
      buffered_skb_def sent_tsdu_lengths_def)

end
